(* ===== verification/Prelude.thy ===== *)
theory Prelude
  imports Main "HOL-Library.Word" "HOL-Library.Code_Target_Nat"
begin

text \<open>
  Shared vocabulary of the development: the machine types of the collector, faults as values,
  the running XOR checksum, decimal and hexadecimal formatting as \<open>boost::format\<close> does it, and
  the string searches of \<open>std::string\<close>.  The collections \<open>xor_simps\<close> and \<open>text_simps\<close> gather
  the facts the component theories pass to the simplifier.
\<close>

unbundle bit_operations_syntax

named_theorems xor_simps "facts about XOR checksums"
named_theorems text_simps "facts about text formatting"
named_theorems enum_simps "facts about enumerator indices"

section \<open>Machine types\<close>

type_synonym u8 = "8 word"
type_synonym u16 = "16 word"
type_synonym u32 = "32 word"
type_synonym bytes = "u8 list"

text \<open>
  What can go wrong in the code apart from its regular error returns: reading a vector with
  \<open>operator[]\<close> outside its bounds (undefined behaviour), \<open>at\<close> of a vector or map throwing
  \<open>std::out_of_range\<close>, and \<open>boost::get\<close> throwing \<open>bad_get\<close> on a variant that holds another
  alternative, a character conversion throwing \<open>std::range_error\<close>, a call through a null pointer, and a
  call through a pointer to an object that no longer exists.
\<close>

datatype fault = OutOfBounds | OutOfRangeThrown | BadGetThrown | RangeErrorThrown | NullDereferenced
  | UseAfterFree

type_synonym 'a result = "fault + 'a"

definition bindR :: "'a result \<Rightarrow> ('a \<Rightarrow> 'b result) \<Rightarrow> 'b result" where
  "bindR r f = (case r of Inl e \<Rightarrow> Inl e | Inr x \<Rightarrow> f x)"

lemma bindR_simps [simp]: "bindR (Inl e) f = Inl e" "bindR (Inr x) f = f x"
  by (simp_all add: bindR_def)

lemma bindR_Inr_iff: "bindR r f = Inr y \<longleftrightarrow> (\<exists>x. r = Inr x \<and> f x = Inr y)"
  by (cases r) auto

lemma bindR_Inl_iff: "bindR r f = Inl e \<longleftrightarrow> r = Inl e \<or> (\<exists>x. r = Inr x \<and> f x = Inl e)"
  by (cases r) auto

lemma bindR_Inr_right [simp]: "bindR r Inr = r"
  by (cases r) auto

lemma bindR_assoc: "bindR (bindR r f) g = bindR r (\<lambda>x. bindR (f x) g)"
  by (cases r) auto

text \<open>\<open>v[i]\<close> on a \<open>std::vector\<close>.\<close>

definition vec_index :: "'a list \<Rightarrow> nat \<Rightarrow> 'a result" where
  "vec_index v i = (if i < length v then Inr (v ! i) else Inl OutOfBounds)"

lemma vec_index_Inr [simp]: "i < length v \<Longrightarrow> vec_index v i = Inr (v ! i)"
  by (simp add: vec_index_def)

lemma vec_index_Inr_iff: "vec_index v i = Inr x \<longleftrightarrow> i < length v \<and> x = v ! i"
  by (auto simp: vec_index_def)

text \<open>Running a list of emitting steps in order; the first fault ends the run.\<close>

fun run_steps :: "('s \<Rightarrow> 'v list result) list \<Rightarrow> 's \<Rightarrow> 'v list result" where
  "run_steps [] s = Inr []"
| "run_steps (f # fs) s = bindR (f s) (\<lambda>vs. bindR (run_steps fs s) (\<lambda>ws. Inr (vs @ ws)))"

lemma run_steps_Inr_iff:
  "run_steps fs s = Inr vs \<longleftrightarrow>
     (\<exists>vss. list_all2 (\<lambda>f ws. f s = Inr ws) fs vss \<and> vs = concat vss)"
proof (induction fs arbitrary: vs)
  case Nil
  then show ?case by auto
next
  case (Cons f fs)
  show ?case
    by (fastforce simp: bindR_Inr_iff Cons.IH list_all2_Cons1)
qed

lemma run_steps_total:
  "(\<And>f. f \<in> set fs \<Longrightarrow> \<exists>ws. f s = Inr ws) \<Longrightarrow> \<exists>vs. run_steps fs s = Inr vs"
  by (induction fs) (auto, metis bindR_simps(2))

lemma run_steps_set:
  "run_steps fs s = Inr vs \<Longrightarrow> v \<in> set vs \<Longrightarrow> \<exists>f \<in> set fs. \<exists>ws. f s = Inr ws \<and> v \<in> set ws"
  by (induction fs arbitrary: vs) (auto simp: bindR_Inr_iff)

section \<open>Bounds and bits of bytes\<close>

lemma unat_u8: "unat (x::u8) < 256"
  using unsigned_less [of x] by simp

lemma unat_u16: "unat (x::u16) < 65536"
  using unsigned_less [of x] by simp

lemma unat_ucast_u8 [simp]: "unat (ucast (b::u8) :: u16) = unat b"
proof -
  have "unat b < 2 ^ 16" using unat_u8 [of b] by simp
  then show ?thesis by (simp add: unsigned_ucast_eq take_bit_nat_eq_self)
qed

lemma byte_bit_bound: "bit (b::u8) n \<Longrightarrow> n < 8"
  using bit_imp_le_length [of b n] by simp

lemma byte_eqI:
  fixes x y :: u8
  assumes "bit x 0 = bit y 0" "bit x 1 = bit y 1" "bit x 2 = bit y 2" "bit x 3 = bit y 3"
    "bit x 4 = bit y 4" "bit x 5 = bit y 5" "bit x 6 = bit y 6" "bit x 7 = bit y 7"
  shows "x = y"
proof (rule bit_word_eqI)
  fix n assume "n < LENGTH(8)"
  then have "n = 0 \<or> n = 1 \<or> n = 2 \<or> n = 3 \<or> n = 4 \<or> n = 5 \<or> n = 6 \<or> n = 7" by auto
  then show "bit x n = bit y n" using assms by blast
qed

lemma unat_less_mask: "unat (x::u8) < 2 ^ n \<Longrightarrow> x AND mask n = x"
  by (metis take_bit_eq_mask take_bit_nat_eq_self unsigned_take_bit_eq word_unat_eq_iff)

lemma unat_less_not_bit: "unat (x::u8) < 2 ^ n \<Longrightarrow> n \<le> k \<Longrightarrow> \<not> bit x k"
  by (metis bit_and_iff bit_mask_iff not_le unat_less_mask)

section \<open>XOR checksum\<close>

definition xor_sum :: "bytes \<Rightarrow> u8" where
  "xor_sum bs = fold (\<lambda>b c. c XOR b) bs 0"

lemma fold_xor [xor_simps]: "fold (\<lambda>b c. c XOR b) bs (a::u8) = a XOR xor_sum bs"
proof (induction bs arbitrary: a)
  case Nil
  then show ?case by (simp add: xor_sum_def)
next
  case (Cons b bs)
  have "xor_sum (b # bs) = b XOR xor_sum bs"
    using Cons.IH [of b] by (simp add: xor_sum_def)
  then show ?case using Cons.IH [of "a XOR b"] by (simp add: xor.assoc)
qed

lemma xor_sum_Nil [simp]: "xor_sum [] = 0"
  by (simp add: xor_sum_def)

lemma xor_sum_Cons [simp]: "xor_sum (b # bs) = b XOR xor_sum bs"
  using fold_xor [of bs b] by (simp add: xor_sum_def)

lemma xor_sum_append [xor_simps]: "xor_sum (as @ bs) = xor_sum as XOR xor_sum bs"
  by (induction as) (simp_all add: xor.assoc)

lemma xor_right_cancel [xor_simps]: "(x XOR z = y XOR z) \<longleftrightarrow> x = (y::u8)"
  by (metis xor.assoc xor_self_eq xor.right_neutral)

lemma xor_left_cancel [xor_simps]: "(z XOR x = z XOR y) \<longleftrightarrow> x = (y::u8)"
  by (metis xor.commute xor_right_cancel)

text \<open>Changing one byte changes the checksum.\<close>

lemma xor_sum_update:
  assumes "i < length bs" and "xor_sum (bs[i := b]) = xor_sum bs"
  shows "b = bs ! i"
proof -
  have bs: "bs = take i bs @ bs ! i # drop (Suc i) bs"
    using assms(1) by (rule id_take_nth_drop)
  have upd: "bs[i := b] = take i bs @ b # drop (Suc i) bs"
    using assms(1) by (rule upd_conv_take_nth_drop)
  have "xor_sum (take i bs @ b # drop (Suc i) bs) = xor_sum (take i bs @ bs ! i # drop (Suc i) bs)"
    using assms(2) bs upd by simp
  then show ?thesis by (simp add: xor_simps)
qed

section \<open>Text\<close>

definition char_of_byte :: "u8 \<Rightarrow> char" where
  "char_of_byte b = char_of (unat b)"

definition digit_char :: "nat \<Rightarrow> char" where
  "digit_char n = char_of (48 + n)"

definition hex_char :: "nat \<Rightarrow> char" where
  "hex_char n = (if n < 10 then char_of (48 + n) else char_of (87 + n))"

fun dec_of_nat :: "nat \<Rightarrow> string" where
  "dec_of_nat n = (if n < 10 then [digit_char n] else dec_of_nat (n div 10) @ [digit_char (n mod 10)])"

fun hex_of_nat :: "nat \<Rightarrow> string" where
  "hex_of_nat n = (if n < 16 then [hex_char n] else hex_of_nat (n div 16) @ [hex_char (n mod 16)])"

declare dec_of_nat.simps [simp del] hex_of_nat.simps [simp del]

definition pad_left :: "char \<Rightarrow> nat \<Rightarrow> string \<Rightarrow> string" where
  "pad_left c w s = replicate (w - length s) c @ s"

text \<open>The conversions \<open>%d\<close>, \<open>%0<w>d\<close> and \<open>%0<w>x\<close> on non-negative arguments.\<close>

definition fmt_d :: "nat \<Rightarrow> string" where
  "fmt_d n = dec_of_nat n"

definition fmt_0d :: "nat \<Rightarrow> nat \<Rightarrow> string" where
  "fmt_0d w n = pad_left (CHR ''0'') w (dec_of_nat n)"

definition fmt_0x :: "nat \<Rightarrow> nat \<Rightarrow> string" where
  "fmt_0x w n = pad_left (CHR ''0'') w (hex_of_nat n)"

lemma dec_of_nat_small [text_simps]: "n < 10 \<Longrightarrow> dec_of_nat n = [digit_char n]"
  by (simp add: dec_of_nat.simps)

lemma dec_of_nat_big [text_simps]:
  "10 \<le> n \<Longrightarrow> dec_of_nat n = dec_of_nat (n div 10) @ [digit_char (n mod 10)]"
  by (subst dec_of_nat.simps) simp

lemma dec_of_nat_nonempty [simp]: "dec_of_nat n \<noteq> []"
  by (subst dec_of_nat.simps) simp

definition is_digit :: "char \<Rightarrow> bool" where
  "is_digit c \<longleftrightarrow> 48 \<le> (of_char c :: nat) \<and> (of_char c :: nat) \<le> 57"

definition digit_value :: "char \<Rightarrow> nat" where
  "digit_value c = of_char c - 48"

lemma of_char_digit [simp]: "n < 10 \<Longrightarrow> of_char (digit_char n) = (48 + n :: nat)"
  by (simp add: digit_char_def of_char_of take_bit_nat_def)

lemma digit_char_0: "digit_char 0 = CHR ''0''"
  by code_simp

lemma is_digit_digit_char [simp]: "n < 10 \<Longrightarrow> is_digit (digit_char n)"
  by (simp add: is_digit_def)

lemma digit_value_digit_char [simp]: "n < 10 \<Longrightarrow> digit_value (digit_char n) = n"
  by (simp add: digit_value_def)

lemma dec_of_nat_digits: "c \<in> set (dec_of_nat n) \<Longrightarrow> is_digit c"
proof (induction n rule: dec_of_nat.induct)
  case (1 n)
  show ?case
  proof (cases "n < 10")
    case True
    with "1.prems" show ?thesis by (simp add: text_simps)
  next
    case False
    with 1 show ?thesis by (auto simp: text_simps)
  qed
qed

text \<open>The number a string of decimal digits denotes.\<close>

definition nat_of_dec :: "string \<Rightarrow> nat" where
  "nat_of_dec s = fold (\<lambda>c n. 10 * n + digit_value c) s 0"

lemma nat_of_dec_snoc [simp]: "nat_of_dec (s @ [c]) = 10 * nat_of_dec s + digit_value c"
  by (simp add: nat_of_dec_def)

lemma nat_of_dec_Nil [simp]: "nat_of_dec [] = 0"
  by (simp add: nat_of_dec_def)

lemma nat_of_dec_of_nat [simp]: "nat_of_dec (dec_of_nat n) = n"
proof (induction n rule: dec_of_nat.induct)
  case (1 n)
  show ?case
  proof (cases "n < 10")
    case True
    then show ?thesis
      using nat_of_dec_snoc [of "[]" "digit_char n"] by (simp add: text_simps)
  next
    case False
    with 1 show ?thesis by (simp add: text_simps)
  qed
qed

text \<open>\<open>s.find(c, from)\<close> and \<open>s.substr(pos, n)\<close> of \<open>std::string\<close>.\<close>

fun find_char :: "char \<Rightarrow> string \<Rightarrow> nat option" where
  "find_char c [] = None"
| "find_char c (x # xs) = (if x = c then Some 0 else map_option Suc (find_char c xs))"

definition find_from :: "char \<Rightarrow> nat \<Rightarrow> string \<Rightarrow> nat option" where
  "find_from c i s = map_option (\<lambda>k. i + k) (find_char c (drop i s))"

definition substr :: "nat \<Rightarrow> nat \<Rightarrow> string \<Rightarrow> string" where
  "substr i n s = take n (drop i s)"

lemma find_char_append [text_simps]:
  "c \<notin> set xs \<Longrightarrow> find_char c (xs @ c # ys) = Some (length xs)"
  by (induction xs) auto

lemma find_char_None_iff: "find_char c xs = None \<longleftrightarrow> c \<notin> set xs"
  by (induction xs) auto

lemma find_char_Some: "find_char c xs = Some k \<Longrightarrow> k < length xs \<and> xs ! k = c"
  by (induction xs arbitrary: k) (auto split: if_splits)

end
