(* ===== verification/EmsTypes.thy ===== *)
theory EmsTypes
  imports Prelude
begin

text \<open>
  The enumerations of \<open>EmsValue\<close> (\<open>EmsMessage.h\<close>).  The value types are grouped as the
  comments of the header group them (numeric, integer, boolean, enum, and the rest); an
  enumerator \<open>X\<close> of the group \<open>numeric\<close> is \<open>NumT X\<close> here, and so on.  \<open>None\<close> of \<open>SubType\<close> is
  \<open>NoSub\<close>.  Each enumeration is numbered as the C++ compiler numbers it, which gives the
  order that \<open>std::map\<close> uses for its keys.
\<close>

section \<open>Numbered enumerations\<close>

text \<open>
  What the numbering of an enumeration promises: the list of its enumerators, in order, has
  each one at its number.
\<close>

locale numbered_enum =
  fixes number :: "'a \<Rightarrow> nat"
    and members :: "'a list"
  assumes number_less: "number x < length members"
    and members_nth: "members ! number x = x"
begin

lemma number_inject: "number x = number y \<longleftrightarrow> x = y"
  using members_nth by metis

lemma members_complete: "x \<in> set members"
  using number_less members_nth nth_mem by metis

lemma members_UNIV: "set members = UNIV"
  using members_complete by blast

end

section \<open>Value types\<close>

datatype (plugins only: code size) numeric_type =
    SollTemp | IstTemp | SetTemp | MinTemp | MaxTemp | ManualTemp | TemporaryTemp
  | BoostTemp | BoostHours | BoostActive | BoostRemainingMins | KomfortTemp
  | ReduzierteTemp | ExtraActive | ExtraTemp | Extra15Mins | ExtraRemainingMins
  | ZirkProStunde | TagTemp | NachtTemp | UrlaubTemp | RaumSollTemp | RaumIstTemp
  | RaumEinfluss | RaumOffset | GedaempfteTemp | DesinfektionsTemp
  | RaumTemperaturAenderung | Mischersteuerung | Flammenstrom | Systemdruck
  | IstModulation | MinModulation | MaxModulation | SollModulation | SollLeistung
  | EinschaltHysterese | AusschaltHysterese | SchwelleSommerWinter | FrostSchutzTemp
  | AuslegungsTemp | RaumUebersteuerTemp | AbsenkungsSchwellenTemp
  | UrlaubAbsenkungsSchwellenTemp | AbsenkungsAbbruchTemp | DurchflussMenge

definition numeric_types :: "numeric_type list" where
  "numeric_types = [
     SollTemp, IstTemp, SetTemp, MinTemp, MaxTemp, ManualTemp, TemporaryTemp, BoostTemp,
     BoostHours, BoostActive, BoostRemainingMins, KomfortTemp, ReduzierteTemp,
     ExtraActive, ExtraTemp, Extra15Mins, ExtraRemainingMins, ZirkProStunde, TagTemp,
     NachtTemp, UrlaubTemp, RaumSollTemp, RaumIstTemp, RaumEinfluss, RaumOffset,
     GedaempfteTemp, DesinfektionsTemp, RaumTemperaturAenderung, Mischersteuerung,
     Flammenstrom, Systemdruck, IstModulation, MinModulation, MaxModulation,
     SollModulation, SollLeistung, EinschaltHysterese, AusschaltHysterese,
     SchwelleSommerWinter, FrostSchutzTemp, AuslegungsTemp, RaumUebersteuerTemp,
     AbsenkungsSchwellenTemp, UrlaubAbsenkungsSchwellenTemp, AbsenkungsAbbruchTemp,
     DurchflussMenge]"

primrec numeric_number :: "numeric_type \<Rightarrow> nat" where
  "numeric_number SollTemp = 0"
| "numeric_number IstTemp = 1"
| "numeric_number SetTemp = 2"
| "numeric_number MinTemp = 3"
| "numeric_number MaxTemp = 4"
| "numeric_number ManualTemp = 5"
| "numeric_number TemporaryTemp = 6"
| "numeric_number BoostTemp = 7"
| "numeric_number BoostHours = 8"
| "numeric_number BoostActive = 9"
| "numeric_number BoostRemainingMins = 10"
| "numeric_number KomfortTemp = 11"
| "numeric_number ReduzierteTemp = 12"
| "numeric_number ExtraActive = 13"
| "numeric_number ExtraTemp = 14"
| "numeric_number Extra15Mins = 15"
| "numeric_number ExtraRemainingMins = 16"
| "numeric_number ZirkProStunde = 17"
| "numeric_number TagTemp = 18"
| "numeric_number NachtTemp = 19"
| "numeric_number UrlaubTemp = 20"
| "numeric_number RaumSollTemp = 21"
| "numeric_number RaumIstTemp = 22"
| "numeric_number RaumEinfluss = 23"
| "numeric_number RaumOffset = 24"
| "numeric_number GedaempfteTemp = 25"
| "numeric_number DesinfektionsTemp = 26"
| "numeric_number RaumTemperaturAenderung = 27"
| "numeric_number Mischersteuerung = 28"
| "numeric_number Flammenstrom = 29"
| "numeric_number Systemdruck = 30"
| "numeric_number IstModulation = 31"
| "numeric_number MinModulation = 32"
| "numeric_number MaxModulation = 33"
| "numeric_number SollModulation = 34"
| "numeric_number SollLeistung = 35"
| "numeric_number EinschaltHysterese = 36"
| "numeric_number AusschaltHysterese = 37"
| "numeric_number SchwelleSommerWinter = 38"
| "numeric_number FrostSchutzTemp = 39"
| "numeric_number AuslegungsTemp = 40"
| "numeric_number RaumUebersteuerTemp = 41"
| "numeric_number AbsenkungsSchwellenTemp = 42"
| "numeric_number UrlaubAbsenkungsSchwellenTemp = 43"
| "numeric_number AbsenkungsAbbruchTemp = 44"
| "numeric_number DurchflussMenge = 45"

interpretation numeric_enum: numbered_enum numeric_number numeric_types
proof
  fix x :: numeric_type
  show "numeric_number x < length numeric_types" by (cases x) (simp_all add: numeric_types_def)
  show "numeric_types ! numeric_number x = x" by (cases x) (simp_all add: numeric_types_def)
qed

datatype (plugins only: code size) integer_type =
    BetriebsZeit | BetriebsZeit2 | HeizZeit | WarmwasserbereitungsZeit | Brennerstarts
  | WarmwasserBereitungen | DesinfektionStunde | HektoStundenVorWartung
  | MonateVorWartung | EinschaltoptimierungsZeit | AusschaltoptimierungsZeit
  | AntipendelZeit | NachlaufZeit | PartyZeit | PausenZeit

definition integer_types :: "integer_type list" where
  "integer_types = [
     BetriebsZeit, BetriebsZeit2, HeizZeit, WarmwasserbereitungsZeit, Brennerstarts,
     WarmwasserBereitungen, DesinfektionStunde, HektoStundenVorWartung, MonateVorWartung,
     EinschaltoptimierungsZeit, AusschaltoptimierungsZeit, AntipendelZeit, NachlaufZeit,
     PartyZeit, PausenZeit]"

primrec integer_number :: "integer_type \<Rightarrow> nat" where
  "integer_number BetriebsZeit = 0"
| "integer_number BetriebsZeit2 = 1"
| "integer_number HeizZeit = 2"
| "integer_number WarmwasserbereitungsZeit = 3"
| "integer_number Brennerstarts = 4"
| "integer_number WarmwasserBereitungen = 5"
| "integer_number DesinfektionStunde = 6"
| "integer_number HektoStundenVorWartung = 7"
| "integer_number MonateVorWartung = 8"
| "integer_number EinschaltoptimierungsZeit = 9"
| "integer_number AusschaltoptimierungsZeit = 10"
| "integer_number AntipendelZeit = 11"
| "integer_number NachlaufZeit = 12"
| "integer_number PartyZeit = 13"
| "integer_number PausenZeit = 14"

interpretation integer_enum: numbered_enum integer_number integer_types
proof
  fix x :: integer_type
  show "integer_number x < length integer_types" by (cases x) (simp_all add: integer_types_def)
  show "integer_types ! integer_number x = x" by (cases x) (simp_all add: integer_types_def)
qed

datatype (plugins only: code size) boolean_type =
    FlammeAktiv | BrennerAktiv | ZuendungAktiv | PumpeAktiv | ZirkulationAktiv
  | DreiWegeVentilAufWW | EinmalLadungAktiv | DesinfektionAktiv | NachladungAktiv
  | WarmwasserBereitung | WarmwasserTempOK | Tagbetrieb | Sommerbetrieb
  | Sommerbetriebsart | Ausschaltoptimierung | Einschaltoptimierung | Estrichtrocknung
  | WWVorrang | Ferien | Urlaub | Party | Pause | Frostschutzbetrieb | SchaltuhrEin
  | KesselSchalter | EigenesProgrammAktiv | Desinfektion | EinmalLadungsLED
  | ATDaempfung | SchaltzeitOptimierung | Fuehler1Defekt | Fuehler2Defekt | Stoerung
  | StoerungDesinfektion | Ladevorgang

definition boolean_types :: "boolean_type list" where
  "boolean_types = [
     FlammeAktiv, BrennerAktiv, ZuendungAktiv, PumpeAktiv, ZirkulationAktiv,
     DreiWegeVentilAufWW, EinmalLadungAktiv, DesinfektionAktiv, NachladungAktiv,
     WarmwasserBereitung, WarmwasserTempOK, Tagbetrieb, Sommerbetrieb, Sommerbetriebsart,
     Ausschaltoptimierung, Einschaltoptimierung, Estrichtrocknung, WWVorrang, Ferien,
     Urlaub, Party, Pause, Frostschutzbetrieb, SchaltuhrEin, KesselSchalter,
     EigenesProgrammAktiv, Desinfektion, EinmalLadungsLED, ATDaempfung,
     SchaltzeitOptimierung, Fuehler1Defekt, Fuehler2Defekt, Stoerung,
     StoerungDesinfektion, Ladevorgang]"

primrec boolean_number :: "boolean_type \<Rightarrow> nat" where
  "boolean_number FlammeAktiv = 0"
| "boolean_number BrennerAktiv = 1"
| "boolean_number ZuendungAktiv = 2"
| "boolean_number PumpeAktiv = 3"
| "boolean_number ZirkulationAktiv = 4"
| "boolean_number DreiWegeVentilAufWW = 5"
| "boolean_number EinmalLadungAktiv = 6"
| "boolean_number DesinfektionAktiv = 7"
| "boolean_number NachladungAktiv = 8"
| "boolean_number WarmwasserBereitung = 9"
| "boolean_number WarmwasserTempOK = 10"
| "boolean_number Tagbetrieb = 11"
| "boolean_number Sommerbetrieb = 12"
| "boolean_number Sommerbetriebsart = 13"
| "boolean_number Ausschaltoptimierung = 14"
| "boolean_number Einschaltoptimierung = 15"
| "boolean_number Estrichtrocknung = 16"
| "boolean_number WWVorrang = 17"
| "boolean_number Ferien = 18"
| "boolean_number Urlaub = 19"
| "boolean_number Party = 20"
| "boolean_number Pause = 21"
| "boolean_number Frostschutzbetrieb = 22"
| "boolean_number SchaltuhrEin = 23"
| "boolean_number KesselSchalter = 24"
| "boolean_number EigenesProgrammAktiv = 25"
| "boolean_number Desinfektion = 26"
| "boolean_number EinmalLadungsLED = 27"
| "boolean_number ATDaempfung = 28"
| "boolean_number SchaltzeitOptimierung = 29"
| "boolean_number Fuehler1Defekt = 30"
| "boolean_number Fuehler2Defekt = 31"
| "boolean_number Stoerung = 32"
| "boolean_number StoerungDesinfektion = 33"
| "boolean_number Ladevorgang = 34"

interpretation boolean_enum: numbered_enum boolean_number boolean_types
proof
  fix x :: boolean_type
  show "boolean_number x < length boolean_types" by (cases x) (simp_all add: boolean_types_def)
  show "boolean_types ! boolean_number x = x" by (cases x) (simp_all add: boolean_types_def)
qed

datatype (plugins only: code size) enum_type =
    WWSystemType | Schaltpunkte | Wartungsmeldungen | WartungFaellig | Betriebsart
  | Betriebszustand | DesinfektionTag | GebaeudeArt | AbsenkModus | HeizSystem
  | FuehrungsGroesse | UrlaubAbsenkungsArt | Frostschutz | FBTyp

definition enum_types :: "enum_type list" where
  "enum_types = [
     WWSystemType, Schaltpunkte, Wartungsmeldungen, WartungFaellig, Betriebsart,
     Betriebszustand, DesinfektionTag, GebaeudeArt, AbsenkModus, HeizSystem,
     FuehrungsGroesse, UrlaubAbsenkungsArt, Frostschutz, FBTyp]"

primrec enum_number :: "enum_type \<Rightarrow> nat" where
  "enum_number WWSystemType = 0"
| "enum_number Schaltpunkte = 1"
| "enum_number Wartungsmeldungen = 2"
| "enum_number WartungFaellig = 3"
| "enum_number Betriebsart = 4"
| "enum_number Betriebszustand = 5"
| "enum_number DesinfektionTag = 6"
| "enum_number GebaeudeArt = 7"
| "enum_number AbsenkModus = 8"
| "enum_number HeizSystem = 9"
| "enum_number FuehrungsGroesse = 10"
| "enum_number UrlaubAbsenkungsArt = 11"
| "enum_number Frostschutz = 12"
| "enum_number FBTyp = 13"

interpretation enum_enum: numbered_enum enum_number enum_types
proof
  fix x :: enum_type
  show "enum_number x < length enum_types" by (cases x) (simp_all add: enum_types_def)
  show "enum_types ! enum_number x = x" by (cases x) (simp_all add: enum_types_def)
qed

datatype (plugins only: code size) other_type =
    HKKennlinie | Fehler | SystemZeit | Wartungstermin | ServiceCode | FehlerCode
  | StoerungsCode | StoerungsNummer

definition other_types :: "other_type list" where
  "other_types = [
     HKKennlinie, Fehler, SystemZeit, Wartungstermin, ServiceCode, FehlerCode,
     StoerungsCode, StoerungsNummer]"

primrec other_number :: "other_type \<Rightarrow> nat" where
  "other_number HKKennlinie = 0"
| "other_number Fehler = 1"
| "other_number SystemZeit = 2"
| "other_number Wartungstermin = 3"
| "other_number ServiceCode = 4"
| "other_number FehlerCode = 5"
| "other_number StoerungsCode = 6"
| "other_number StoerungsNummer = 7"

interpretation other_enum: numbered_enum other_number other_types
proof
  fix x :: other_type
  show "other_number x < length other_types" by (cases x) (simp_all add: other_types_def)
  show "other_types ! other_number x = x" by (cases x) (simp_all add: other_types_def)
qed

datatype (plugins only: code size) ems_type =
    NumT numeric_type
  | IntT integer_type
  | BoolT boolean_type
  | EnumT enum_type
  | OtherT other_type

text \<open>The number the compiler gives the enumerator: the groups follow each other.\<close>

fun type_number :: "ems_type \<Rightarrow> nat" where
  "type_number (NumT t) = numeric_number t"
| "type_number (IntT t) = 46 + integer_number t"
| "type_number (BoolT t) = 61 + boolean_number t"
| "type_number (EnumT t) = 96 + enum_number t"
| "type_number (OtherT t) = 110 + other_number t"

definition ems_types :: "ems_type list" where
  "ems_types = map NumT numeric_types @ map IntT integer_types @ map BoolT boolean_types @ map EnumT enum_types @ map OtherT other_types"

lemmas types_defs = numeric_types_def integer_types_def boolean_types_def enum_types_def other_types_def

lemma types_lengths [enum_simps]:
  "length numeric_types = 46"
  "length integer_types = 15"
  "length boolean_types = 35"
  "length enum_types = 14"
  "length other_types = 8"
  by (simp_all add: types_defs)

lemma type_number_bounds [enum_simps]:
  "numeric_number t0 < 46"
  "integer_number t1 < 15"
  "boolean_number t2 < 35"
  "enum_number t3 < 14"
  "other_number t4 < 8"
  using numeric_enum.number_less [of t0] integer_enum.number_less [of t1] boolean_enum.number_less [of t2] enum_enum.number_less [of t3] other_enum.number_less [of t4]
  by (simp_all add: enum_simps)

interpretation ems_type_enum: numbered_enum type_number ems_types
proof
  fix x :: ems_type
  show "type_number x < length ems_types"
    by (cases x)
      (auto simp: ems_types_def enum_simps intro: type_number_bounds [THEN less_le_trans])
  show "ems_types ! type_number x = x"
    by (cases x)
      (simp_all add: ems_types_def nth_append enum_simps numeric_enum.members_nth
        integer_enum.members_nth
        boolean_enum.members_nth
        enum_enum.members_nth
        other_enum.members_nth)
qed

instantiation ems_type :: linorder
begin

definition less_eq_ems_type :: "ems_type \<Rightarrow> ems_type \<Rightarrow> bool" where
  "less_eq_ems_type a b \<longleftrightarrow> type_number a \<le> type_number b"

definition less_ems_type :: "ems_type \<Rightarrow> ems_type \<Rightarrow> bool" where
  "less_ems_type a b \<longleftrightarrow> type_number a < type_number b"

instance
  by standard
    (auto simp: less_eq_ems_type_def less_ems_type_def ems_type_enum.number_inject)

end

section \<open>Value subtypes\<close>

datatype (plugins only: code size) sub_type =
    NoSub | HK1 | HK2 | HK3 | HK4 | Brenner | Kessel | KesselPumpe | RC | Ruecklauf
  | Waermetauscher | WW | Zirkulation | Aussen | Abgas | Ansaugluft | Solar
  | SolarPumpe | SolarSpeicher | SolarKollektor

definition sub_types :: "sub_type list" where
  "sub_types = [NoSub, HK1, HK2, HK3, HK4, Brenner, Kessel, KesselPumpe, RC, Ruecklauf,
     Waermetauscher, WW, Zirkulation, Aussen, Abgas, Ansaugluft, Solar, SolarPumpe,
     SolarSpeicher, SolarKollektor]"

primrec sub_number :: "sub_type \<Rightarrow> nat" where
  "sub_number NoSub = 0"
| "sub_number HK1 = 1"
| "sub_number HK2 = 2"
| "sub_number HK3 = 3"
| "sub_number HK4 = 4"
| "sub_number Brenner = 5"
| "sub_number Kessel = 6"
| "sub_number KesselPumpe = 7"
| "sub_number RC = 8"
| "sub_number Ruecklauf = 9"
| "sub_number Waermetauscher = 10"
| "sub_number WW = 11"
| "sub_number Zirkulation = 12"
| "sub_number Aussen = 13"
| "sub_number Abgas = 14"
| "sub_number Ansaugluft = 15"
| "sub_number Solar = 16"
| "sub_number SolarPumpe = 17"
| "sub_number SolarSpeicher = 18"
| "sub_number SolarKollektor = 19"

interpretation sub_type_enum: numbered_enum sub_number sub_types
proof
  fix x :: sub_type
  show "sub_number x < length sub_types" by (cases x) (simp_all add: sub_types_def)
  show "sub_types ! sub_number x = x" by (cases x) (simp_all add: sub_types_def)
qed

instantiation sub_type :: linorder
begin

definition less_eq_sub_type :: "sub_type \<Rightarrow> sub_type \<Rightarrow> bool" where
  "less_eq_sub_type a b \<longleftrightarrow> sub_number a \<le> sub_number b"

definition less_sub_type :: "sub_type \<Rightarrow> sub_type \<Rightarrow> bool" where
  "less_sub_type a b \<longleftrightarrow> sub_number a < sub_number b"

instance
  by standard
    (auto simp: less_eq_sub_type_def less_sub_type_def sub_type_enum.number_inject)

end

text \<open>\<open>EmsValue::isForHK\<close> on the subtype.\<close>

definition isForHK :: "sub_type \<Rightarrow> bool" where
  "isForHK s \<longleftrightarrow> s = HK1 \<or> s = HK2 \<or> s = HK3 \<or> s = HK4"

end
