(* ===== verification/EmsProto.thy ===== *)
theory EmsProto
  imports Prelude
begin

text \<open>
  The bus addresses and the packed records of \<open>EmsProto\<close> (\<open>EmsMessage.h\<close>), with the byte layout
  that \<open>#pragma pack(1)\<close> and the bit-fields give them on the little-endian targets of the
  Makefile, and the byte swap of \<open>ByteOrder.h\<close>.  The code reads a record by casting the address
  of a vector element; \<open>record_at\<close> is that read with its bounds.
\<close>

section \<open>Addresses\<close>

definition addressUBA2 :: u8 where "addressUBA2 = 0x88"
definition addressPC :: u8 where "addressPC = 0x8b"
definition addressUI800 :: u8 where "addressUI800 = 0x90"
definition addressRH800 :: u8 where "addressRH800 = 0xb8"
definition addressConnectKey :: u8 where "addressConnectKey = 0xc8"

lemmas address_defs =
  addressUBA2_def addressPC_def addressUI800_def addressRH800_def addressConnectKey_def

section \<open>Records on the wire\<close>

text \<open>
  What a packed record promises: a fixed width, and that decoding its bytes gives it back.
\<close>

locale wire_record =
  fixes encode :: "'r \<Rightarrow> bytes"
    and decode :: "bytes \<Rightarrow> 'r"
    and width :: nat
    and fits :: "'r \<Rightarrow> bool"
  assumes width_pos: "0 < width"
    and encode_width: "fits r \<Longrightarrow> length (encode r) = width"
    and decode_encode: "fits r \<Longrightarrow> decode (encode r) = r"
begin

text \<open>The \<open>k\<close>-th record of an array of records.\<close>

lemma array_length: "list_all fits rs \<Longrightarrow> length (concat (map encode rs)) = width * length rs"
  by (induction rs) (simp_all add: encode_width)

lemma array_drop:
  "list_all fits rs \<Longrightarrow>
     drop (k * width) (concat (map encode rs)) = concat (map encode (drop k rs))"
proof (induction k arbitrary: rs)
  case 0
  then show ?case by simp
next
  case (Suc k)
  show ?case
  proof (cases rs)
    case Nil
    then show ?thesis by simp
  next
    case (Cons r rs')
    then show ?thesis using Suc by (simp add: encode_width add.commute flip: drop_drop)
  qed
qed

lemma array_nth:
  assumes "list_all fits rs" and "k < length rs"
  shows "decode (take width (drop (k * width) (concat (map encode rs)))) = rs ! k"
proof -
  have "drop k rs = rs ! k # drop (Suc k) rs"
    using assms(2) by (simp add: Cons_nth_drop_Suc)
  moreover have "fits (rs ! k)"
    using assms by (simp add: list_all_length)
  ultimately show ?thesis
    using assms(1) by (simp add: array_drop encode_width decode_encode)
qed

end

text \<open>Reading a record of \<open>w\<close> bytes through \<open>&v.at(i)\<close>.\<close>

definition record_at :: "nat \<Rightarrow> (bytes \<Rightarrow> 'r) \<Rightarrow> bytes \<Rightarrow> nat \<Rightarrow> 'r result" where
  "record_at w dec v i =
     (if length v \<le> i then Inl OutOfRangeThrown
      else if length v < i + w then Inl OutOfBounds
      else Inr (dec (take w (drop i v))))"

lemma record_at_Inr [simp]:
  "0 < w \<Longrightarrow> i + w \<le> length v \<Longrightarrow> record_at w dec v i = Inr (dec (take w (drop i v)))"
  by (simp add: record_at_def)

text \<open>A 16-bit field as the little-endian processor reads it, and \<open>BE16_TO_CPU\<close>.\<close>

definition load_le16 :: "u8 \<Rightarrow> u8 \<Rightarrow> u16" where
  "load_le16 b0 b1 = ucast b0 OR push_bit 8 (ucast b1)"

definition BE16_TO_CPU :: "u16 \<Rightarrow> u16" where
  "BE16_TO_CPU x = push_bit 8 (x AND 0x00ff) OR drop_bit 8 (x AND 0xff00)"

definition low_byte :: "u16 \<Rightarrow> u8" where "low_byte x = ucast (x AND 0xff)"
definition high_byte :: "u16 \<Rightarrow> u8" where "high_byte x = ucast (drop_bit 8 x)"

lemma low_mask: "(0xff::u16) = mask 8" and high_mask: "(0xff00::u16) = push_bit 8 (mask 8)"
  by (simp_all add: mask_eq_exp_minus_1 push_bit_eq_mult)

lemma BE16_TO_CPU_load: "BE16_TO_CPU (load_le16 b0 b1) = push_bit 8 (ucast b0) OR ucast b1"
  unfolding BE16_TO_CPU_def load_le16_def low_mask high_mask
  by (rule bit_word_eqI) (auto simp: bit_simps dest: byte_bit_bound)

lemma unat_be16: "unat (push_bit 8 (ucast (b0::u8)) OR ucast (b1::u8) :: u16) = unat b0 * 256 + unat b1"
proof -
  have "push_bit 8 (ucast b0) AND (ucast b1 :: u16) = 0"
    by (rule bit_word_eqI) (auto simp: bit_simps dest: byte_bit_bound)
  then have "push_bit 8 (ucast b0) OR (ucast b1 :: u16) = push_bit 8 (ucast b0) + ucast b1"
    by (simp add: disjunctive_add_eq_or)
  then show ?thesis
    using unat_u8 [of b0] unat_u8 [of b1] by (simp add: push_bit_eq_mult unat_word_ariths)
qed

lemma load_le16_bytes: "load_le16 (low_byte x) (high_byte x) = x"
  unfolding load_le16_def low_byte_def high_byte_def low_mask
  by (rule bit_word_eqI) (auto simp: bit_simps)

section \<open>The records\<close>

text \<open>\<open>uint8_t year : 7; uint8_t valid : 1;\<close> share a byte, the year in its low bits.\<close>

record date_time_record =
  dt_year :: u8
  dt_valid :: bool
  dt_month :: u8
  dt_hour :: u8
  dt_day :: u8
  dt_minute :: u8

definition date_time_decode :: "bytes \<Rightarrow> date_time_record" where
  "date_time_decode b =
     \<lparr>dt_year = b ! 0 AND 0x7f, dt_valid = bit (b ! 0) 7, dt_month = b ! 1, dt_hour = b ! 2,
      dt_day = b ! 3, dt_minute = b ! 4\<rparr>"

definition date_time_encode :: "date_time_record \<Rightarrow> bytes" where
  "date_time_encode r =
     [(dt_year r AND 0x7f) OR (if dt_valid r then 0x80 else 0), dt_month r, dt_hour r,
      dt_day r, dt_minute r]"

definition date_time_fits :: "date_time_record \<Rightarrow> bool" where
  "date_time_fits r \<longleftrightarrow> unat (dt_year r) < 128"

record date_record =
  d_day :: u8
  d_month :: u8
  d_year :: u8

definition date_decode :: "bytes \<Rightarrow> date_record" where
  "date_decode b = \<lparr>d_day = b ! 0, d_month = b ! 1, d_year = b ! 2\<rparr>"

definition date_encode :: "date_record \<Rightarrow> bytes" where
  "date_encode r = [d_day r, d_month r, d_year r]"

text \<open>
  \<open>reserved1 : 3, running : 1, reserved2 : 2, dcf : 1, dst : 1\<close> share the last byte.
\<close>

record system_time_record =
  st_common :: date_time_record
  st_second :: u8
  st_dayOfWeek :: u8
  st_reserved1 :: u8
  st_running :: bool
  st_reserved2 :: u8
  st_dcf :: bool
  st_dst :: bool

definition system_time_decode :: "bytes \<Rightarrow> system_time_record" where
  "system_time_decode b =
     \<lparr>st_common = date_time_decode (take 5 b), st_second = b ! 5, st_dayOfWeek = b ! 6,
      st_reserved1 = b ! 7 AND 7, st_running = bit (b ! 7) 3,
      st_reserved2 = drop_bit 4 (b ! 7) AND 3, st_dcf = bit (b ! 7) 6, st_dst = bit (b ! 7) 7\<rparr>"

definition system_time_encode :: "system_time_record \<Rightarrow> bytes" where
  "system_time_encode r =
     date_time_encode (st_common r) @ [st_second r, st_dayOfWeek r,
       (st_reserved1 r AND 7) OR (if st_running r then 8 else 0) OR push_bit 4 (st_reserved2 r AND 3)
         OR (if st_dcf r then 0x40 else 0) OR (if st_dst r then 0x80 else 0)]"

definition system_time_fits :: "system_time_record \<Rightarrow> bool" where
  "system_time_fits r \<longleftrightarrow> date_time_fits (st_common r) \<and> unat (st_reserved1 r) < 8
     \<and> unat (st_reserved2 r) < 4"

record error_record =
  er_ascii :: bytes
  er_code_be16 :: u16
  er_time :: date_time_record
  er_duration_be16 :: u16
  er_source :: u8

definition error_decode :: "bytes \<Rightarrow> error_record" where
  "error_decode b =
     \<lparr>er_ascii = take 2 b, er_code_be16 = load_le16 (b ! 2) (b ! 3),
      er_time = date_time_decode (take 5 (drop 4 b)),
      er_duration_be16 = load_le16 (b ! 9) (b ! 10), er_source = b ! 11\<rparr>"

record error_record2 =
  e2_source :: u8
  e2_pad1 :: bytes
  e2_ascii :: bytes
  e2_code_be16 :: u16
  e2_start :: date_time_record
  e2_end :: date_time_record

definition error2_decode :: "bytes \<Rightarrow> error_record2" where
  "error2_decode b =
     \<lparr>e2_source = b ! 0, e2_pad1 = take 4 (drop 1 b), e2_ascii = take 3 (drop 5 b),
      e2_code_be16 = load_le16 (b ! 8) (b ! 9),
      e2_start = date_time_decode (take 5 (drop 10 b)),
      e2_end = date_time_decode (take 5 (drop 15 b))\<rparr>"

definition error2_encode :: "error_record2 \<Rightarrow> bytes" where
  "error2_encode r =
     e2_source r # e2_pad1 r @ e2_ascii r @ [low_byte (e2_code_be16 r), high_byte (e2_code_be16 r)]
       @ date_time_encode (e2_start r) @ date_time_encode (e2_end r)"

record error_record_short =
  es_pad :: bytes
  es_ascii :: bytes
  es_code_be16 :: u16

definition error_short_decode :: "bytes \<Rightarrow> error_record_short" where
  "error_short_decode b =
     \<lparr>es_pad = take 2 b, es_ascii = take 3 (drop 2 b), es_code_be16 = load_le16 (b ! 5) (b ! 6)\<rparr>"

definition error_short_encode :: "error_record_short \<Rightarrow> bytes" where
  "error_short_encode r =
     es_pad r @ es_ascii r @ [low_byte (es_code_be16 r), high_byte (es_code_be16 r)]"

definition error2_fits :: "error_record2 \<Rightarrow> bool" where
  "error2_fits r \<longleftrightarrow> length (e2_pad1 r) = 4 \<and> length (e2_ascii r) = 3
     \<and> date_time_fits (e2_start r) \<and> date_time_fits (e2_end r)"

definition error_short_fits :: "error_record_short \<Rightarrow> bool" where
  "error_short_fits r \<longleftrightarrow> length (es_pad r) = 2 \<and> length (es_ascii r) = 3"

text \<open>\<open>on : 4, day : 4\<close> share the first byte.\<close>

record schedule_entry =
  se_on :: u8
  se_day :: u8
  se_time :: u8

record holiday_entry =
  h_day :: u8
  h_month :: u8
  h_year :: u8

definition sizeof_DateTimeRecord :: nat where "sizeof_DateTimeRecord = 5"
definition sizeof_DateRecord :: nat where "sizeof_DateRecord = 3"
definition sizeof_SystemTimeRecord :: nat where "sizeof_SystemTimeRecord = 8"
definition sizeof_ErrorRecord2 :: nat where "sizeof_ErrorRecord2 = 20"
definition sizeof_ErrorRecordShort :: nat where "sizeof_ErrorRecordShort = 7"

lemmas sizeof_defs =
  sizeof_DateTimeRecord_def sizeof_DateRecord_def sizeof_SystemTimeRecord_def
  sizeof_ErrorRecord2_def sizeof_ErrorRecordShort_def

section \<open>Every record decodes what it encodes\<close>

lemma date_time_width [simp]: "length (date_time_encode r) = 5"
  by (simp add: date_time_encode_def)

lemma date_time_decode_encode:
  assumes "date_time_fits r"
  shows "date_time_decode (date_time_encode r) = r"
proof -
  have "unat (dt_year r) < 2 ^ 7" using assms by (simp add: date_time_fits_def)
  from unat_less_not_bit [OF this, of 7] have n7: "\<not> bit (dt_year r) 7" by simp
  then have "((dt_year r AND 0x7f) OR (if dt_valid r then 0x80 else 0)) AND 0x7f = dt_year r"
    by (intro byte_eqI) (simp_all add: bit_simps)
  moreover have "bit ((dt_year r AND 0x7f) OR (if dt_valid r then 0x80 else 0)) 7 = dt_valid r"
    by (simp add: bit_simps)
  ultimately show ?thesis by (simp add: date_time_decode_def date_time_encode_def)
qed

lemma system_time_decode_encode:
  assumes "system_time_fits r"
  shows "system_time_decode (system_time_encode r) = r"
proof -
  let ?b = "(st_reserved1 r AND 7) OR (if st_running r then 8 else 0)
    OR push_bit 4 (st_reserved2 r AND 3) OR (if st_dcf r then 0x40 else 0)
    OR (if st_dst r then 0x80 else 0)"
  have c: "date_time_decode (date_time_encode (st_common r)) = st_common r"
    using assms by (intro date_time_decode_encode) (simp add: system_time_fits_def)
  have r1: "unat (st_reserved1 r) < 2 ^ 3" and r2: "unat (st_reserved2 r) < 2 ^ 2"
    using assms by (simp_all add: system_time_fits_def)
  note nb = unat_less_not_bit [OF r1] unat_less_not_bit [OF r2]
  have "?b AND 7 = st_reserved1 r"
    by (intro byte_eqI) (simp_all add: bit_simps nb)
  moreover have "drop_bit 4 ?b AND 3 = st_reserved2 r"
    by (intro byte_eqI) (simp_all add: bit_simps nb)
  moreover have "bit ?b 3 = st_running r" "bit ?b 6 = st_dcf r" "bit ?b 7 = st_dst r"
    by (simp_all add: bit_simps)
  ultimately show ?thesis
    by (simp add: system_time_decode_def system_time_encode_def nth_append c)
qed

interpretation date_time: wire_record date_time_encode date_time_decode
  sizeof_DateTimeRecord date_time_fits
  by unfold_locales (simp_all add: sizeof_defs date_time_decode_encode)

interpretation date_rec: wire_record date_encode date_decode sizeof_DateRecord "\<lambda>_. True"
  by unfold_locales (simp_all add: sizeof_defs date_encode_def date_decode_def)

interpretation system_time: wire_record system_time_encode system_time_decode
  sizeof_SystemTimeRecord system_time_fits
  by unfold_locales
    (simp_all add: sizeof_defs system_time_decode_encode, simp add: system_time_encode_def)

interpretation error2: wire_record error2_encode error2_decode sizeof_ErrorRecord2 error2_fits
proof
  fix r assume r: "error2_fits r"
  then show "length (error2_encode r) = sizeof_ErrorRecord2"
    by (simp add: error2_encode_def error2_fits_def sizeof_defs)
  from r obtain p0 p1 p2 p3 a0 a1 a2 where
    p: "e2_pad1 r = [p0, p1, p2, p3]" and a: "e2_ascii r = [a0, a1, a2]"
    by (auto simp: error2_fits_def numeral_eq_Suc length_Suc_conv)
  show "error2_decode (error2_encode r) = r"
    using r by (simp add: error2_decode_def error2_encode_def p a nth_append load_le16_bytes
        date_time_decode_encode error2_fits_def numeral_eq_Suc)
qed (simp add: sizeof_defs)

interpretation error_short: wire_record error_short_encode error_short_decode
  sizeof_ErrorRecordShort error_short_fits
proof
  fix r assume r: "error_short_fits r"
  then show "length (error_short_encode r) = sizeof_ErrorRecordShort"
    by (simp add: error_short_encode_def error_short_fits_def sizeof_defs)
  from r obtain p0 p1 a0 a1 a2 where
    p: "es_pad r = [p0, p1]" and a: "es_ascii r = [a0, a1, a2]"
    by (auto simp: error_short_fits_def numeral_eq_Suc length_Suc_conv)
  show "error_short_decode (error_short_encode r) = r"
    by (simp add: error_short_decode_def error_short_encode_def p a nth_append load_le16_bytes
        numeral_eq_Suc)
qed (simp add: sizeof_defs)

end
