(* ===== verification/Float32.thy ===== *)
theory Float32
  imports Prelude
begin

text \<open>
  The \<open>float\<close> of the code: IEEE binary32 numbers as a significand and a binary exponent, with
  the rounding of \<open>(float) value / (float) divider\<close> (round to nearest, ties to even) written
  out on integers, and what \<open>std::ostream << float\<close> prints by default (six significant digits,
  as \<open>%g\<close>).  Infinities and NaNs do not arise: every divider of the code is positive.
\<close>

datatype float32 = Flt (significand: int) (exponent: int)

section \<open>Normalising a quotient\<close>

text \<open>
  \<open>p / q\<close> is scaled by powers of a base \<open>b\<close> until it lies in \<open>[lo, b * lo)\<close>; the third
  component counts the powers, so that \<open>p / q * b ^ e\<close> does not change.
\<close>

function scale_down :: "nat \<Rightarrow> nat \<Rightarrow> nat \<times> nat \<times> int \<Rightarrow> nat \<times> nat \<times> int" where
  "scale_down b lo (p, q, e) =
     (if 2 \<le> b \<and> 0 < lo \<and> 0 < q \<and> b * lo * q \<le> p then scale_down b lo (p, b * q, e + 1)
      else (p, q, e))"
  by pat_completeness auto
termination
proof (relation "measure (\<lambda>(b, lo, p, q, e). Suc p - q)", goal_cases)
  case 1
  show ?case by simp
next
  case (2 b lo p q e)
  then have b: "2 \<le> b" and lo: "0 < lo" and q: "0 < q" and p: "b * lo * q \<le> p" by auto
  have "q < b * q" using b q by simp
  moreover have "q < Suc p"
  proof -
    have "1 * q \<le> b * lo * q" using b lo by (intro mult_le_mono1) simp
    then show ?thesis using p by linarith
  qed
  ultimately have "Suc p - b * q < Suc p - q" by (rule diff_less_mono2)
  then show ?case by simp
qed

function scale_up :: "nat \<Rightarrow> nat \<Rightarrow> nat \<times> nat \<times> int \<Rightarrow> nat \<times> nat \<times> int" where
  "scale_up b lo (p, q, e) =
     (if 2 \<le> b \<and> 0 < p \<and> p < lo * q then scale_up b lo (b * p, q, e - 1) else (p, q, e))"
  by pat_completeness auto
termination
  by (relation "measure (\<lambda>(b, lo, p, q, e). lo * q - p)") (auto intro!: diff_less_mono2)

declare scale_down.simps [simp del] scale_up.simps [simp del]

definition normalise :: "nat \<Rightarrow> nat \<Rightarrow> nat \<Rightarrow> nat \<Rightarrow> nat \<times> nat \<times> int" where
  "normalise b lo p q = scale_up b lo (scale_down b lo (p, q, 0))"

definition round_half_even :: "nat \<Rightarrow> nat \<Rightarrow> nat" where
  "round_half_even p q =
     (let d = p div q; r = p mod q
      in if 2 * r < q then d else if q < 2 * r then d + 1 else if even d then d else d + 1)"

section \<open>Rounding to binary32\<close>

definition signed :: "bool \<Rightarrow> nat \<Rightarrow> int" where
  "signed neg n = (if neg then - int n else int n)"

text \<open>
  The float nearest to \<open>p / q\<close>: a significand of 24 bits, the exponent not below -149, where
  the subnormal numbers have fewer bits.
\<close>

definition float_of_quotient :: "bool \<Rightarrow> nat \<Rightarrow> nat \<Rightarrow> float32" where
  "float_of_quotient neg p q =
     (if p = 0 then Flt 0 0
      else case normalise 2 (2 ^ 23) p q of (p', q', e) \<Rightarrow>
        (let (q'', e') = (if e < - 149 then (q' * 2 ^ nat (- 149 - e), - 149) else (q', e));
             m = round_half_even p' q''
         in if m = 0 then Flt 0 0
            else if m = 2 ^ 24 then Flt (signed neg (2 ^ 23)) (e' + 1)
            else Flt (signed neg m) e'))"

definition float_of_int :: "int \<Rightarrow> float32" where
  "float_of_int v = float_of_quotient (v < 0) (nat \<bar>v\<bar>) 1"

text \<open>Numerator and denominator of the absolute value.\<close>

definition float_fraction :: "float32 \<Rightarrow> nat \<times> nat" where
  "float_fraction x =
     (if 0 \<le> exponent x then (nat \<bar>significand x\<bar> * 2 ^ nat (exponent x), 1)
      else (nat \<bar>significand x\<bar>, 2 ^ nat (- exponent x)))"

definition float_div :: "float32 \<Rightarrow> float32 \<Rightarrow> float32" where
  "float_div x y =
     (let (p, q) = float_fraction x; (r, s) = float_fraction y
      in float_of_quotient ((significand x < 0) \<noteq> (significand y < 0)) (p * s) (q * r))"

definition float_mult :: "float32 \<Rightarrow> float32 \<Rightarrow> float32" where
  "float_mult x y =
     (let (p, q) = float_fraction x; (r, s) = float_fraction y
      in float_of_quotient ((significand x < 0) \<noteq> (significand y < 0)) (p * r) (q * s))"

text \<open>Conversion to an integer truncates towards zero.\<close>

definition float_trunc :: "float32 \<Rightarrow> int" where
  "float_trunc x = (let (p, q) = float_fraction x in signed (significand x < 0) (p div q))"

section \<open>Printing\<close>

text \<open>
  \<open>%g\<close> with six significant digits: the value is rounded to a six-digit integer \<open>n\<close> and a
  decimal exponent \<open>x\<close>; with \<open>-4 \<le> x < 6\<close> it is printed as a plain decimal, otherwise in
  scientific notation, without trailing zeros in either case.
\<close>

definition decimal_digits :: "nat \<Rightarrow> nat \<Rightarrow> nat \<times> int" where
  "decimal_digits p q =
     (case normalise 10 (10 ^ 5) p q of (p', q', e) \<Rightarrow>
        (let n = round_half_even p' q'
         in if n = 10 ^ 6 then (10 ^ 5, e + 6) else (n, e + 5)))"

definition strip_zeros :: "string \<Rightarrow> string" where
  "strip_zeros s = rev (dropWhile (\<lambda>c. c = CHR ''0'') (rev s))"

definition with_fraction :: "string \<Rightarrow> string \<Rightarrow> string" where
  "with_fraction ip fp = (let f = strip_zeros fp in if f = [] then ip else ip @ ''.'' @ f)"

definition print_g6 :: "nat \<Rightarrow> int \<Rightarrow> string" where
  "print_g6 n x =
     (let ds = dec_of_nat n
      in if 0 \<le> x \<and> x < 6 then with_fraction (take (nat x + 1) ds) (drop (nat x + 1) ds)
         else if - 4 \<le> x \<and> x < 0
              then with_fraction ''0'' (replicate (nat (- x) - 1) (CHR ''0'') @ ds)
         else with_fraction (take 1 ds) (drop 1 ds) @ ''e'' @ (if x < 0 then ''-'' else ''+'')
              @ fmt_0d 2 (nat \<bar>x\<bar>))"

definition print_float :: "float32 \<Rightarrow> string" where
  "print_float v =
     (if significand v = 0 then ''0''
      else (let (p, q) = float_fraction v; (n, x) = decimal_digits p q
            in (if significand v < 0 then ''-'' else []) @ print_g6 n x))"

end
