(* ===== verification/EmsValue.thy ===== *)
theory EmsValue
  imports EmsTypes EmsProto Float32
begin

text \<open>
  \<open>EmsValue\<close> (\<open>EmsMessage.h\<close>, \<open>EmsMessage.cpp\<close>): a typed reading.  The \<open>boost::variant\<close> is the
  datatype \<open>reading\<close>; \<open>getValue<T>\<close> is one accessor per alternative, which faults with
  \<open>BadGetThrown\<close> on another alternative as \<open>boost::get\<close> does.  \<open>ems_value_wf\<close> is the invariant
  of the class: the reading type names the alternative that is stored.
\<close>

datatype reading_type =
    Numeric | Integer | Boolean | Enumeration | Kennlinie | Error | Date | SystemTime | Formatted

record error_entry =
  ee_type :: u16
  ee_index :: u32
  ee_record :: error_record

datatype reading =
    FloatReading float32
  | UIntReading u32
  | BoolReading bool
  | ByteReading u8
  | BytesReading bytes
  | ErrorReading error_entry
  | DateReading date_record
  | SystemTimeReading system_time_record
  | StringReading string

record ems_value =
  v_type :: ems_type
  v_subType :: sub_type
  v_readingType :: reading_type
  v_value :: reading
  v_isValid :: bool

section \<open>Constructors\<close>

text \<open>
  The numeric constructor works on a 32-bit \<open>int\<close>: \<open>value\<close> gathers \<open>len\<close> bytes, most significant
  first; a signed value with only the sign bit set, or an unsigned one with all bits set, marks
  an unavailable sensor, and so does any of the given byte patterns.
\<close>

definition gather :: "bytes \<Rightarrow> nat \<Rightarrow> u32" where
  "gather data len = fold (\<lambda>b v. push_bit 8 v OR ucast b) (take len data) 0"

definition numeric_decode :: "bytes \<Rightarrow> nat \<Rightarrow> bool \<Rightarrow> u32 \<times> bool" where
  "numeric_decode data len isSigned =
     (let value = gather data len
      in if isSigned
         then (let highestbit = push_bit (8 * len - 1) 1
               in if value AND highestbit \<noteq> 0
                  then (let value = value AND NOT highestbit
                        in (value - highestbit, value \<noteq> 0))
                  else (value, True))
         else (let maxValue = push_bit (8 * len) 1 - 1 in (value, value \<noteq> maxValue)))"

definition matches_invalid :: "bytes list option \<Rightarrow> bytes \<Rightarrow> nat \<Rightarrow> bool" where
  "matches_invalid invalidValues data len =
     (case invalidValues of None \<Rightarrow> False
      | Some patterns \<Rightarrow> list_ex (\<lambda>p. take len data = take len p) patterns)"

definition numericValue ::
    "ems_type \<Rightarrow> sub_type \<Rightarrow> bytes \<Rightarrow> nat \<Rightarrow> int \<Rightarrow> bool \<Rightarrow> bytes list option \<Rightarrow> ems_value" where
  "numericValue type subType data len divider isSigned invalidValues =
     (let (value, valid) = numeric_decode data len isSigned;
          valid = (valid \<and> \<not> matches_invalid invalidValues data len)
      in if divider = 0
         then \<lparr>v_type = type, v_subType = subType, v_readingType = Integer,
               v_value = UIntReading value, v_isValid = valid\<rparr>
         else \<lparr>v_type = type, v_subType = subType, v_readingType = Numeric,
               v_value = FloatReading (float_div (float_of_int (sint value)) (float_of_int divider)),
               v_isValid = valid\<rparr>)"

definition boolValue :: "ems_type \<Rightarrow> sub_type \<Rightarrow> u8 \<Rightarrow> nat \<Rightarrow> ems_value" where
  "boolValue type subType value b =
     \<lparr>v_type = type, v_subType = subType, v_readingType = Boolean,
      v_value = BoolReading ((ucast value :: u32) AND push_bit b 1 \<noteq> 0), v_isValid = True\<rparr>"

definition kennlinieValue :: "ems_type \<Rightarrow> sub_type \<Rightarrow> u8 \<Rightarrow> u8 \<Rightarrow> u8 \<Rightarrow> ems_value" where
  "kennlinieValue type subType low medium high =
     \<lparr>v_type = type, v_subType = subType, v_readingType = Kennlinie,
      v_value = BytesReading [low, medium, high], v_isValid = True\<rparr>"

definition enumValue :: "ems_type \<Rightarrow> sub_type \<Rightarrow> u8 \<Rightarrow> ems_value" where
  "enumValue type subType value =
     \<lparr>v_type = type, v_subType = subType, v_readingType = Enumeration,
      v_value = ByteReading value, v_isValid = True\<rparr>"

definition errorValue :: "ems_type \<Rightarrow> sub_type \<Rightarrow> error_entry \<Rightarrow> ems_value" where
  "errorValue type subType entry =
     \<lparr>v_type = type, v_subType = subType, v_readingType = Error,
      v_value = ErrorReading entry, v_isValid = True\<rparr>"

definition dateValue :: "ems_type \<Rightarrow> sub_type \<Rightarrow> date_record \<Rightarrow> ems_value" where
  "dateValue type subType rec =
     \<lparr>v_type = type, v_subType = subType, v_readingType = Date,
      v_value = DateReading rec, v_isValid = True\<rparr>"

definition systemTimeValue :: "ems_type \<Rightarrow> sub_type \<Rightarrow> system_time_record \<Rightarrow> ems_value" where
  "systemTimeValue type subType rec =
     \<lparr>v_type = type, v_subType = subType, v_readingType = SystemTime,
      v_value = SystemTimeReading rec, v_isValid = True\<rparr>"

definition stringValue :: "ems_type \<Rightarrow> sub_type \<Rightarrow> string \<Rightarrow> ems_value" where
  "stringValue type subType value =
     \<lparr>v_type = type, v_subType = subType, v_readingType = Formatted,
      v_value = StringReading value, v_isValid = True\<rparr>"

lemmas value_ctor_defs =
  numericValue_def boolValue_def kennlinieValue_def enumValue_def errorValue_def dateValue_def
  systemTimeValue_def stringValue_def

section \<open>The accessors \<open>getValue<T>\<close>\<close>

fun get_float :: "reading \<Rightarrow> float32 result" where
  "get_float (FloatReading x) = Inr x" | "get_float _ = Inl BadGetThrown"

fun get_uint :: "reading \<Rightarrow> u32 result" where
  "get_uint (UIntReading x) = Inr x" | "get_uint _ = Inl BadGetThrown"

fun get_bool :: "reading \<Rightarrow> bool result" where
  "get_bool (BoolReading x) = Inr x" | "get_bool _ = Inl BadGetThrown"

fun get_byte :: "reading \<Rightarrow> u8 result" where
  "get_byte (ByteReading x) = Inr x" | "get_byte _ = Inl BadGetThrown"

fun get_bytes :: "reading \<Rightarrow> bytes result" where
  "get_bytes (BytesReading x) = Inr x" | "get_bytes _ = Inl BadGetThrown"

fun get_error :: "reading \<Rightarrow> error_entry result" where
  "get_error (ErrorReading x) = Inr x" | "get_error _ = Inl BadGetThrown"

fun get_date :: "reading \<Rightarrow> date_record result" where
  "get_date (DateReading x) = Inr x" | "get_date _ = Inl BadGetThrown"

fun get_system_time :: "reading \<Rightarrow> system_time_record result" where
  "get_system_time (SystemTimeReading x) = Inr x" | "get_system_time _ = Inl BadGetThrown"

fun get_string :: "reading \<Rightarrow> string result" where
  "get_string (StringReading x) = Inr x" | "get_string _ = Inl BadGetThrown"

section \<open>The class invariant\<close>

fun alternative_of :: "reading \<Rightarrow> reading_type" where
  "alternative_of (FloatReading _) = Numeric"
| "alternative_of (UIntReading _) = Integer"
| "alternative_of (BoolReading _) = Boolean"
| "alternative_of (ByteReading _) = Enumeration"
| "alternative_of (BytesReading _) = Kennlinie"
| "alternative_of (ErrorReading _) = Error"
| "alternative_of (DateReading _) = Date"
| "alternative_of (SystemTimeReading _) = SystemTime"
| "alternative_of (StringReading _) = Formatted"

definition ems_value_wf :: "ems_value \<Rightarrow> bool" where
  "ems_value_wf v \<longleftrightarrow> v_readingType v = alternative_of (v_value v)
     \<and> (v_isValid v \<or> v_readingType v = Numeric \<or> v_readingType v = Integer)
     \<and> (\<forall>bs. v_value v = BytesReading bs \<longrightarrow> length bs = 3)"

lemma ctor_wf [simp]:
  "ems_value_wf (numericValue t s d n dv sg iv)"
  "ems_value_wf (boolValue t s x b)"
  "ems_value_wf (kennlinieValue t s l m h)"
  "ems_value_wf (enumValue t s x)"
  "ems_value_wf (errorValue t s e)"
  "ems_value_wf (dateValue t s r)"
  "ems_value_wf (systemTimeValue t s r')"
  "ems_value_wf (stringValue t s str)"
  by (simp_all add: ems_value_wf_def value_ctor_defs Let_def split: prod.splits)

lemma ctor_keys [simp]:
  "v_type (numericValue t s d n dv sg iv) = t" "v_subType (numericValue t s d n dv sg iv) = s"
  "v_type (boolValue t s x b) = t" "v_subType (boolValue t s x b) = s"
  "v_type (enumValue t s x) = t" "v_subType (enumValue t s x) = s"
  "v_type (dateValue t s r) = t" "v_subType (dateValue t s r) = s"
  "v_type (systemTimeValue t s r') = t" "v_subType (systemTimeValue t s r') = s"
  "v_type (stringValue t s str) = t" "v_subType (stringValue t s str) = s"
  by (simp_all add: value_ctor_defs Let_def split: prod.splits)

lemma ctor_reading_types [simp]:
  "v_readingType (numericValue t s d n dv sg iv) = (if dv = 0 then Integer else Numeric)"
  "v_readingType (boolValue t s x b) = Boolean"
  "v_readingType (enumValue t s x) = Enumeration"
  "v_readingType (dateValue t s r) = Date"
  "v_readingType (systemTimeValue t s r') = SystemTime"
  "v_readingType (stringValue t s str) = Formatted"
  by (simp_all add: value_ctor_defs Let_def split: prod.splits)

section \<open>What the numeric constructor computes\<close>

text \<open>The big-endian number of a byte sequence.\<close>

definition be_nat :: "bytes \<Rightarrow> nat" where
  "be_nat bs = fold (\<lambda>b n. 256 * n + unat b) bs 0"

lemma be_nat_snoc: "be_nat (bs @ [b]) = 256 * be_nat bs + unat b"
  by (simp add: be_nat_def)

lemma be_nat_bound: "be_nat bs < 2 ^ (8 * length bs)"
proof (induction bs rule: rev_induct)
  case Nil
  then show ?case by (simp add: be_nat_def)
next
  case (snoc b bs)
  then show ?case using unat_u8 [of b] by (simp add: be_nat_snoc power_add)
qed

lemma unat_shift_in:
  fixes v :: u32 and b :: u8
  assumes "unat v < 2 ^ 24"
  shows "unat (push_bit 8 v OR ucast b) = 256 * unat v + unat b"
proof -
  have "push_bit 8 v AND (ucast b :: u32) = 0"
    by (rule bit_word_eqI) (auto simp: bit_simps dest: byte_bit_bound)
  then have "push_bit 8 v OR ucast b = push_bit 8 v + (ucast b :: u32)"
    by (simp add: disjunctive_add_eq_or)
  moreover have "unat (ucast b :: u32) = unat b"
    using unat_u8 [of b] by (simp add: unsigned_ucast_eq take_bit_nat_eq_self)
  ultimately show ?thesis
    using assms unat_u8 [of b] by (simp add: push_bit_eq_mult unat_word_ariths)
qed

lemma unat_gather:
  assumes "length bs \<le> 4"
  shows "unat (fold (\<lambda>b v. push_bit 8 v OR ucast b) bs (0::u32)) = be_nat bs"
  using assms
proof (induction bs rule: rev_induct)
  case Nil
  then show ?case by (simp add: be_nat_def)
next
  case (snoc b bs)
  have "be_nat bs < 2 ^ 24"
  proof -
    have "(2::nat) ^ (8 * length bs) \<le> 2 ^ 24"
      using snoc.prems by (intro power_increasing) auto
    then show ?thesis using be_nat_bound [of bs] by (rule less_le_trans [rotated])
  qed
  with snoc show ?case by (simp add: unat_shift_in be_nat_snoc)
qed

lemma sign_bit_iff:
  fixes v :: u32
  assumes "unat v < 2 ^ Suc k"
  shows "bit v k \<longleftrightarrow> 2 ^ k \<le> unat v"
proof -
  have "bit v k \<longleftrightarrow> odd (unat v div 2 ^ k)"
    by (metis bit_iff_odd bit_unsigned_iff possible_bit_nat)
  moreover have "unat v div 2 ^ k < 2"
    using assms by (simp add: less_mult_imp_div_less mult.commute)
  then have "odd (unat v div 2 ^ k) \<longleftrightarrow> unat v div 2 ^ k \<noteq> 0"
    by (auto simp: less_2_cases_iff)
  ultimately show ?thesis by (auto simp: div_eq_0_iff not_less)
qed

lemma sint_of_int_small:
  assumes "- (2 ^ 31) \<le> i" and "i < 2 ^ 31"
  shows "sint (of_int i :: u32) = i"
  using assms by (simp add: signed_of_int signed_take_bit_int_eq_self)

lemma sign_adjust:
  fixes v :: u32
  assumes v: "unat v < 2 ^ Suc k" and k: "k < 31"
  shows "sint (if v AND push_bit k 1 \<noteq> 0 then (v AND NOT (push_bit k 1)) - push_bit k 1 else v)
         = (if 2 ^ k \<le> unat v then int (unat v) - 2 ^ Suc k else int (unat v))"
proof -
  have vv: "v = of_int (int (unat v))" by simp
  have p: "push_bit k (1::u32) = 2 ^ k" by (simp add: push_bit_eq_mult)
  have b: "v AND push_bit k 1 \<noteq> 0 \<longleftrightarrow> 2 ^ k \<le> unat v"
    using sign_bit_iff [OF v] by (simp add: p and_exp_eq_0_iff_not_bit)
  have lim: "(2::int) ^ Suc k \<le> 2 ^ 31" using k by (intro power_increasing) auto
  have lt: "int (unat v) < 2 ^ Suc k"
    using v by (metis of_nat_less_iff of_nat_numeral of_nat_power)
  have pos: "sint v = int (unat v)"
    by (subst vv, rule sint_of_int_small) (use lt lim in linarith)+
  show ?thesis
  proof (cases "2 ^ k \<le> unat v")
    case True
    then have bk: "bit v k" using sign_bit_iff [OF v] by simp
    have "v AND NOT (push_bit k 1) = v - 2 ^ k"
      using unset_bit_eq_and_not [of k v] unset_bit_eq [of k v] bk by (simp add: p)
    then have e1: "(v AND NOT (push_bit k 1)) - push_bit k 1 = of_int (int (unat v) - 2 ^ Suc k)"
      by (simp add: p)
    have e2: "sint (of_int (int (unat v) - 2 ^ Suc k) :: u32) = int (unat v) - 2 ^ Suc k"
        by (rule sint_of_int_small) (use lt lim in linarith)+
    from b True have c: "v AND push_bit k 1 \<noteq> 0" by simp
    show ?thesis by (simp only: c True e1 e2 not_False_eq_True if_True)
  next
    case False
    then show ?thesis using b pos by simp
  qed
qed

text \<open>Two's complement reading of \<open>n\<close> bytes.\<close>

definition signed_be :: "bytes \<Rightarrow> int" where
  "signed_be bs =
     (if 2 ^ (8 * length bs - 1) \<le> be_nat bs then int (be_nat bs) - 2 ^ (8 * length bs)
      else int (be_nat bs))"

lemma numeric_decode_unsigned:
  assumes "len \<le> length data" "len \<le> 3"
  shows "unat (fst (numeric_decode data len False)) = be_nat (take len data)"
  using assms by (simp add: numeric_decode_def gather_def unat_gather Let_def)

lemma numeric_decode_signed:
  assumes "len \<le> length data" "0 < len" "len \<le> 3"
  shows "sint (fst (numeric_decode data len True)) = signed_be (take len data)"
proof -
  define bs where "bs = take len data"
  have len: "length bs = len" using assms(1) by (simp add: bs_def)
  have k: "Suc (8 * len - 1) = 8 * len" "8 * len - 1 < 31" using assms by auto
  have g: "unat (gather data len) = be_nat bs"
    using assms by (simp add: gather_def bs_def unat_gather)
  then have "unat (gather data len) < 2 ^ Suc (8 * len - 1)"
    using be_nat_bound [of bs] by (simp only: k len)
  from sign_adjust [OF this k(2)] show ?thesis
    unfolding bs_def [symmetric] signed_be_def len g k
    by (simp add: numeric_decode_def Let_def if_distrib [of fst] cong: if_cong)
qed

lemma numeric_decode_unsigned_valid:
  assumes "len \<le> length data" "len \<le> 3"
  shows "snd (numeric_decode data len False) \<longleftrightarrow> be_nat (take len data) \<noteq> 2 ^ (8 * len) - 1"
proof -
  have le: "(2::nat) ^ (8 * len) \<le> 2 ^ 24" using assms(2) by (intro power_increasing) auto
  have "(push_bit (8 * len) 1 - 1 :: u32) = of_nat (2 ^ (8 * len) - 1)"
    by (simp add: push_bit_eq_mult of_nat_diff)
  also have "unat \<dots> = 2 ^ (8 * len) - 1"
    using le by (subst unat_of_nat) (simp add: take_bit_nat_eq_self)
  finally have "unat (push_bit (8 * len) 1 - 1 :: u32) = 2 ^ (8 * len) - 1" .
  then have "gather data len = push_bit (8 * len) 1 - 1 \<longleftrightarrow> be_nat (take len data) = 2 ^ (8 * len) - 1"
    using assms by (simp add: word_unat_eq_iff gather_def unat_gather del: push_bit_of_1)
  then show ?thesis by (simp add: numeric_decode_def Let_def del: push_bit_of_1)
qed

lemma numeric_decode_signed_valid:
  assumes "len \<le> length data" "0 < len" "len \<le> 3"
  shows "snd (numeric_decode data len True) \<longleftrightarrow> be_nat (take len data) \<noteq> 2 ^ (8 * len - 1)"
proof -
  define k where "k = 8 * len - 1"
  define v where "v = gather data len"
  have k: "k < 31" "Suc k = 8 * len" using assms by (auto simp: k_def)
  have g: "unat v = be_nat (take len data)"
    using assms by (simp add: v_def gather_def unat_gather)
  have bound: "unat v < 2 ^ Suc k"
    using be_nat_bound [of "take len data"] assms(1) by (simp only: g k) simp
  have p: "push_bit k (1::u32) = 2 ^ k" by (simp add: push_bit_eq_mult)
  have le: "(2::nat) ^ k < 2 ^ 32" using k by (intro power_strict_increasing) auto
  have u: "unat (2 ^ k :: u32) = 2 ^ k"
    using unat_of_nat [of "2 ^ k", where 'a = 32] le by (simp add: take_bit_nat_eq_self)
  have b: "v AND push_bit k 1 \<noteq> 0 \<longleftrightarrow> 2 ^ k \<le> unat v"
    using sign_bit_iff [OF bound] by (simp add: p and_exp_eq_0_iff_not_bit)
  have "snd (numeric_decode data len True) \<longleftrightarrow> v \<noteq> 2 ^ k"
  proof (cases "2 ^ k \<le> unat v")
    case True
    then have c: "v AND push_bit k 1 \<noteq> 0" using b by simp
    have "bit v k" using True sign_bit_iff [OF bound] by simp
    then have "v AND NOT (push_bit k 1) = v - 2 ^ k"
      using unset_bit_eq_and_not [of k v] unset_bit_eq [of k v] by (simp add: p)
    with c show ?thesis
      unfolding numeric_decode_def Let_def k_def [symmetric] v_def [symmetric]
      by (simp add: p)
  next
    case False
    then have c: "v AND push_bit k 1 = 0" and "v \<noteq> 2 ^ k" using b u by auto
    then show ?thesis
      unfolding numeric_decode_def Let_def k_def [symmetric] v_def [symmetric] by simp
  qed
  then show ?thesis using u g by (simp add: word_unat_eq_iff k_def)
qed

lemma be_nat_pair_eq: "be_nat [x, y] = 32768 \<longleftrightarrow> x = 0x80 \<and> y = 0"
proof -
  have "be_nat [x, y] = 32768 \<longleftrightarrow> unat x = 128 \<and> unat y = 0"
    using unat_u8 [of y] unfolding be_nat_def by (simp, presburger)
  also have "\<dots> \<longleftrightarrow> x = 0x80 \<and> y = 0"
    by (auto simp: word_unat_eq_iff)
  finally show ?thesis .
qed

end
