(* ===== verification/EmsMessage.thy ===== *)
theory EmsMessage
  imports EmsValue
begin

text \<open>
  \<open>EmsMessage\<close> (\<open>EmsMessage.h\<close>, \<open>EmsMessage.cpp\<close>): telegrams of the EMS bus.  The receiving
  constructor splits the bytes of a frame into source, destination, type, offset and payload,
  the sending constructor and \<open>getSendData\<close> go the other way, and \<open>handle\<close> turns a telegram into
  readings, which the model returns in the order the code passes them to the value handler.
\<close>

unbundle bit_operations_syntax

named_theorems parser_safe "parsers that never fault"

record ems_message =
  m_hasHandler :: bool
  m_data :: bytes
  m_source :: u8
  m_dest :: u8
  m_type :: u8
  m_extType :: u16
  m_offset :: u8

section \<open>From and to bytes\<close>

definition receivedMessage :: "bytes \<Rightarrow> ems_message" where
  "receivedMessage data =
     (if length data < 4
      then \<lparr>m_hasHandler = True, m_data = data, m_source = 0, m_dest = 0, m_type = 0,
            m_extType = 0, m_offset = 0\<rparr>
      else
        (let isRead = (data ! 1 AND 0x80 = 0);
             isPlus = (0xf0 \<le> data ! 2 \<and> (if isRead then 7 else 6) \<le> length data);
             rest = drop 4 data;
             start = (if isRead then 0 else 1)
         in \<lparr>m_hasHandler = True,
             m_data = (if isPlus then take start rest @ drop (start + 2) rest else rest),
             m_source = data ! 0, m_dest = data ! 1, m_type = data ! 2,
             m_extType = (if isPlus then push_bit 8 (ucast (rest ! start)) OR ucast (rest ! (start + 1))
                          else 0),
             m_offset = data ! 3\<rparr>))"

definition sendMessage_ctor :: "u8 \<Rightarrow> u16 \<Rightarrow> u8 \<Rightarrow> bytes \<Rightarrow> bool \<Rightarrow> ems_message" where
  "sendMessage_ctor dest type offset data expectResponse =
     \<lparr>m_hasHandler = False, m_data = data, m_source = addressPC,
      m_dest = (if expectResponse then dest OR 0x80 else dest AND 0x7f),
      m_type = (if type < 0xf0 then ucast type else 0xff),
      m_extType = (if 0xf0 \<le> type then type else 0),
      m_offset = offset\<rparr>"

definition getType :: "ems_message \<Rightarrow> u16" where
  "getType m = (if m_extType m \<noteq> 0 then m_extType m else ucast (m_type m))"

text \<open>In a read command of the plus dialect the payload is its first byte, read unchecked.\<close>

definition getSendData :: "ems_message \<Rightarrow> bool \<Rightarrow> bytes result" where
  "getSendData m omitSenderAddress =
     (let head = (if omitSenderAddress then [] else [addressPC]) @ [m_dest m, m_type m, m_offset m];
          isRead = (m_dest m AND 0x80 \<noteq> 0);
          ext = [high_byte (m_extType m), low_byte (m_extType m)]
      in if 0xf0 \<le> m_type m
         then if isRead
              then bindR (vec_index (m_data m) 0) (\<lambda>b. Inr (head @ [b] @ ext))
              else Inr (head @ ext @ m_data m)
         else Inr (head @ m_data m))"

section \<open>Bounds-checked readings\<close>

definition canAccess :: "ems_message \<Rightarrow> nat \<Rightarrow> nat \<Rightarrow> bool" where
  "canAccess m offset sz \<longleftrightarrow>
     unat (m_offset m) \<le> offset \<and> offset + sz \<le> unat (m_offset m) + length (m_data m)"

type_synonym parser = "ems_message \<Rightarrow> ems_value list result"

definition parseEnum :: "nat \<Rightarrow> ems_type \<Rightarrow> sub_type \<Rightarrow> parser" where
  "parseEnum offset type subtype m =
     (if canAccess m offset 1
      then bindR (vec_index (m_data m) (offset - unat (m_offset m)))
             (\<lambda>b. Inr [enumValue type subtype b])
      else Inr [])"

definition parseNumericFull ::
    "nat \<Rightarrow> nat \<Rightarrow> int \<Rightarrow> ems_type \<Rightarrow> sub_type \<Rightarrow> bool \<Rightarrow> bytes list option \<Rightarrow> parser" where
  "parseNumericFull offset sz divider type subtype isSigned invalidValues m =
     (if canAccess m offset sz
      then bindR (record_at sz (\<lambda>d. d) (m_data m) (offset - unat (m_offset m)))
             (\<lambda>d. Inr [numericValue type subtype d sz divider isSigned invalidValues])
      else Inr [])"

text \<open>The default arguments of \<open>parseNumeric\<close>: signed, no invalid patterns.\<close>

definition parseNumeric :: "nat \<Rightarrow> nat \<Rightarrow> int \<Rightarrow> ems_type \<Rightarrow> sub_type \<Rightarrow> parser" where
  "parseNumeric offset sz divider type subtype =
     parseNumericFull offset sz divider type subtype True None"

definition INVALID_TEMPERATURE_VALUES :: "bytes list" where
  "INVALID_TEMPERATURE_VALUES = [[0x7d, 0x00], [0x83, 0x00]]"

definition parseInteger :: "nat \<Rightarrow> nat \<Rightarrow> ems_type \<Rightarrow> sub_type \<Rightarrow> parser" where
  "parseInteger offset sz type subtype =
     parseNumericFull offset sz 0 type subtype False None"

definition parseTemperature :: "nat \<Rightarrow> ems_type \<Rightarrow> sub_type \<Rightarrow> parser" where
  "parseTemperature offset type subtype =
     parseNumericFull offset 2 10 type subtype True (Some INVALID_TEMPERATURE_VALUES)"

definition parseBool :: "nat \<Rightarrow> nat \<Rightarrow> ems_type \<Rightarrow> sub_type \<Rightarrow> parser" where
  "parseBool offset b type subtype m =
     (if canAccess m offset 1
      then bindR (record_at 1 hd (m_data m) (offset - unat (m_offset m)))
             (\<lambda>x. Inr [boolValue type subtype x b])
      else Inr [])"

section \<open>The telegrams\<close>

definition parseUI800SystemParameterMessage :: parser where
  "parseUI800SystemParameterMessage = run_steps
     [parseNumeric 10 1 1 (NumT MinTemp) RC,
      parseEnum 9 (EnumT GebaeudeArt) RC,
      parseBool 8 1 (BoolT ATDaempfung) RC]"

definition parseUI800HKParameterMessage :: parser where
  "parseUI800HKParameterMessage = run_steps
     [parseNumeric 2 1 1 (NumT RaumOffset) HK1,
      parseNumeric 5 1 1 (NumT AuslegungsTemp) HK1,
      parseNumeric 6 1 1 (NumT SchwelleSommerWinter) HK1,
      parseEnum 7 (BoolT Sommerbetriebsart) HK1]"

definition parseWartungstermin :: parser where
  "parseWartungstermin m =
     (if canAccess m 2 sizeof_DateRecord
      then bindR (record_at sizeof_DateRecord date_decode (m_data m) (2 - unat (m_offset m)))
             (\<lambda>r. Inr [dateValue (OtherT Wartungstermin) Kessel r])
      else Inr [])"

definition parseUBA2MaintenanceSettingsMessage :: parser where
  "parseUBA2MaintenanceSettingsMessage = run_steps
     [parseEnum 0 (EnumT Wartungsmeldungen) Kessel,
      parseInteger 1 1 (IntT HektoStundenVorWartung) Kessel,
      parseInteger 5 1 (IntT MonateVorWartung) Kessel,
      parseWartungstermin]"

definition parseUI800WWConfiguration :: parser where
  "parseUI800WWConfiguration = run_steps
     [parseEnum 2 (EnumT Betriebsart) WW,
      parseEnum 3 (EnumT Betriebsart) Zirkulation,
      parseNumeric 10 1 1 (NumT Extra15Mins) WW,
      parseBool 11 0 (NumT ExtraActive) WW]"

definition parseUI800WWStatusData :: parser where
  "parseUI800WWStatusData = run_steps
     [parseNumeric 4 2 1 (NumT ExtraRemainingMins) WW,
      parseEnum 8 (EnumT Betriebszustand) WW]"

definition parseUI800ZPStatusData :: parser where
  "parseUI800ZPStatusData = run_steps [parseEnum 0 (EnumT Betriebszustand) Zirkulation]"

definition parseUI800HKConfiguration :: parser where
  "parseUI800HKConfiguration = run_steps
     [parseEnum 21 (EnumT Betriebsart) HK1,
      parseNumericFull 8 1 2 (NumT TemporaryTemp) HK1 False (Some INVALID_TEMPERATURE_VALUES),
      parseNumeric 22 1 2 (NumT ManualTemp) HK1,
      parseBool 23 0 (NumT BoostActive) HK1,
      parseNumeric 24 1 1 (NumT BoostHours) HK1,
      parseNumeric 25 1 2 (NumT BoostTemp) HK1,
      parseNumeric 4 1 2 (NumT NachtTemp) HK1,
      parseNumeric 2 1 2 (NumT TagTemp) HK1]"

definition parseUI800HKStatusData :: parser where
  "parseUI800HKStatusData = run_steps
     [parseNumeric 41 2 1 (NumT BoostRemainingMins) HK1,
      parseEnum 10 (EnumT Betriebszustand) HK1,
      parseBool 2 4 (BoolT Sommerbetrieb) HK1]"

text \<open>
  The error telegrams read \<open>m_data\<close> without subtracting the offset.  One round of the loop
  handles the \<open>i\<close>-th of three fault records.
\<close>

definition parseErrorCode :: "nat \<Rightarrow> parser" where
  "parseErrorCode i m =
     (if canAccess m (5 + i * 7) 3
      then bindR (vec_index (m_data m) (5 + i * 7)) (\<lambda>a.
           bindR (vec_index (m_data m) (6 + i * 7)) (\<lambda>b.
           bindR (vec_index (m_data m) (7 + i * 7)) (\<lambda>c.
           Inr (if a OR b OR c \<noteq> 0
                then [stringValue (OtherT StoerungsCode) NoSub (map char_of_byte [a, b, c])]
                else []))))
      else Inr [])"

definition parseErrorNumber :: "nat \<Rightarrow> parser" where
  "parseErrorNumber i m =
     (if canAccess m (8 + i * 7) 2
      then bindR (vec_index (m_data m) (8 + i * 7)) (\<lambda>a.
           bindR (vec_index (m_data m) (9 + i * 7)) (\<lambda>b.
           Inr (if a OR b \<noteq> 0
                then [stringValue (OtherT StoerungsNummer) NoSub
                        (dec_of_nat (unat a * 256 + unat b))]
                else [])))
      else Inr [])"

definition parseStoerung :: parser where
  "parseStoerung m =
     bindR (vec_index (m_data m) 0) (\<lambda>b.
       if b = 0x08 then parseBool 7 4 (BoolT Stoerung) Kessel m
       else if b = 0x10 then parseBool 7 4 (BoolT Stoerung) RC m
       else Inr [])"

definition parseUI800ErrorMessage :: parser where
  "parseUI800ErrorMessage m =
     bindR (parseStoerung m) (\<lambda>vs.
     bindR (run_steps [parseErrorCode 0, parseErrorNumber 0, parseErrorCode 1, parseErrorNumber 1,
                       parseErrorCode 2, parseErrorNumber 2] m) (\<lambda>errs.
     Inr (vs @ (if errs = []
                then [stringValue (OtherT StoerungsCode) NoSub ''OK'',
                      stringValue (OtherT StoerungsNummer) NoSub ''0'']
                else errs))))"

definition parseUBA2ErrorMessage :: parser where
  "parseUBA2ErrorMessage = parseUI800ErrorMessage"

definition parseFehlerCode :: parser where
  "parseFehlerCode m =
     (if canAccess m 4 2
      then bindR (vec_index (m_data m) 4) (\<lambda>a. bindR (vec_index (m_data m) 5) (\<lambda>b.
           Inr [stringValue (OtherT FehlerCode) NoSub (dec_of_nat (unat a * 256 + unat b)),
                stringValue (OtherT ServiceCode) NoSub ''--'']))
      else Inr [])"

definition parseFlammeAktiv :: parser where
  "parseFlammeAktiv m =
     (if canAccess m 19 2
      then bindR (vec_index (m_data m) 19) (\<lambda>a. bindR (vec_index (m_data m) 20) (\<lambda>b.
           Inr [boolValue (BoolT FlammeAktiv) NoSub (if 5 < unat a * 256 + unat b then 1 else 0) 0]))
      else Inr [])"

definition parseUBA2MonitorMessage :: parser where
  "parseUBA2MonitorMessage = run_steps
     [parseNumeric 6 1 1 (NumT SollTemp) Kessel,
      parseTemperature 7 (NumT IstTemp) Kessel,
      parseTemperature 13 (NumT IstTemp) Waermetauscher,
      parseTemperature 17 (NumT IstTemp) Ruecklauf,
      parseNumeric 19 2 10 (NumT Flammenstrom) NoSub,
      parseNumericFull 21 1 10 (NumT Systemdruck) NoSub False None,
      parseInteger 40 1 (NumT IstModulation) Brenner,
      parseInteger 41 1 (NumT SollModulation) Brenner,
      parseFehlerCode,
      parseFlammeAktiv]"

definition parseUBA2MonitorMessage2 :: parser where
  "parseUBA2MonitorMessage2 = run_steps
     [parseInteger 25 1 (NumT IstModulation) KesselPumpe,
      parseBool 26 5 (BoolT DreiWegeVentilAufWW) NoSub,
      parseBool 2 7 (BoolT ZirkulationAktiv) NoSub]"

definition parseUBA2OutdoorMessage :: parser where
  "parseUBA2OutdoorMessage = run_steps [parseTemperature 0 (NumT IstTemp) Aussen]"

definition parseUBA2WWMonitorMessage :: parser where
  "parseUBA2WWMonitorMessage = run_steps
     [parseNumeric 0 1 1 (NumT SollTemp) WW,
      parseTemperature 1 (NumT IstTemp) WW]"

definition parseUBA2WWMonitorMessage2 :: parser where
  "parseUBA2WWMonitorMessage2 = run_steps []"

definition parseUBA2WWParameterMessage :: parser where
  "parseUBA2WWParameterMessage = run_steps
     [parseNumeric 6 1 1 (NumT KomfortTemp) WW,
      parseNumeric 11 1 1 (NumT ZirkProStunde) Zirkulation,
      parseNumeric 16 1 1 (NumT ExtraTemp) WW,
      parseNumeric 18 1 1 (NumT ReduzierteTemp) WW]"

definition parseRCTimeMessage :: parser where
  "parseRCTimeMessage m =
     (if canAccess m 0 sizeof_SystemTimeRecord
      then bindR (record_at sizeof_SystemTimeRecord system_time_decode (m_data m) 0)
             (\<lambda>r. Inr [systemTimeValue (OtherT SystemZeit) NoSub r])
      else Inr [])"

section \<open>Dispatch\<close>

text \<open>
  The two nested switches: \<open>None\<close> is a telegram that is not handled.
\<close>

definition dispatch :: "u8 \<Rightarrow> u16 \<Rightarrow> parser option" where
  "dispatch source type =
     (if source = addressUBA2 then
        (if type = 0x15 then Some parseUBA2MaintenanceSettingsMessage
         else if type = 0xd1 then Some parseUBA2OutdoorMessage
         else if type = 0xe4 then Some parseUBA2MonitorMessage
         else if type = 0xe5 then Some parseUBA2MonitorMessage2
         else if type = 0xe9 then Some parseUBA2WWMonitorMessage
         else if type = 0xea then Some parseUBA2WWParameterMessage
         else if type = 0x2d then Some parseUBA2WWMonitorMessage2
         else if type = 0xbf then Some parseUBA2ErrorMessage
         else None)
      else if source = addressUI800 then
        (if type = 0x06 then Some parseRCTimeMessage
         else if type = 0xbf then Some parseUI800ErrorMessage
         else if type = 0x01f5 then Some parseUI800WWConfiguration
         else if type = 0x021d then Some parseUI800WWStatusData
         else if type = 0x00e7 then Some parseUI800ZPStatusData
         else if type = 0x0140 then Some parseUI800SystemParameterMessage
         else if type = 0x01b9 then Some parseUI800HKConfiguration
         else if type = 0x01a5 then Some parseUI800HKStatusData
         else if type = 0x01af then Some parseUI800HKParameterMessage
         else None)
      else None)"

definition handle :: parser where
  "handle m =
     (if \<not> m_hasHandler m then Inr []
      else if m_source m = 0 \<and> m_dest m = 0 \<and> m_type m = 0 then Inr []
      else case dispatch (m_source m) (getType m) of None \<Rightarrow> Inr [] | Some p \<Rightarrow> p m)"

lemmas telegram_defs =
  parseUI800SystemParameterMessage_def parseUI800HKParameterMessage_def
  parseUBA2MaintenanceSettingsMessage_def parseUI800WWConfiguration_def
  parseUI800WWStatusData_def parseUI800ZPStatusData_def parseUI800HKConfiguration_def
  parseUI800HKStatusData_def parseUBA2MonitorMessage_def parseUBA2MonitorMessage2_def
  parseUBA2OutdoorMessage_def parseUBA2WWMonitorMessage_def parseUBA2WWMonitorMessage2_def
  parseUBA2WWParameterMessage_def

lemmas numeric_parser_defs = parseNumeric_def parseInteger_def parseTemperature_def

section \<open>No reading of the bounds-checked helpers leaves the payload\<close>

definition no_fault :: "parser \<Rightarrow> ems_message \<Rightarrow> bool" where
  "no_fault p m \<longleftrightarrow> (\<exists>vs. p m = Inr vs)"

lemma canAccess_bound:
  "canAccess m offset sz \<Longrightarrow> offset - unat (m_offset m) + sz \<le> length (m_data m)"
  by (auto simp: canAccess_def)

lemma parseEnum_safe [parser_safe]: "no_fault (parseEnum offset t s) m"
  by (auto simp: no_fault_def parseEnum_def dest: canAccess_bound)

lemma parseNumericFull_safe [parser_safe]:
  "0 < sz \<Longrightarrow> no_fault (parseNumericFull offset sz dv t s sg iv) m"
  by (auto simp: no_fault_def parseNumericFull_def dest: canAccess_bound)

lemma parseBool_safe [parser_safe]: "no_fault (parseBool offset b t s) m"
  by (auto simp: no_fault_def parseBool_def dest: canAccess_bound)

lemma parseWartungstermin_safe [parser_safe]: "no_fault parseWartungstermin m"
  by (auto simp: no_fault_def parseWartungstermin_def sizeof_defs dest: canAccess_bound)

lemma parseRCTimeMessage_safe [parser_safe]: "no_fault parseRCTimeMessage m"
  by (auto simp: no_fault_def parseRCTimeMessage_def sizeof_defs canAccess_def)

lemma run_steps_safe [parser_safe]:
  "list_all (\<lambda>p. no_fault p m) ps \<Longrightarrow> no_fault (run_steps ps) m"
  using run_steps_total [of ps m] by (auto simp: no_fault_def list_all_iff)

lemma telegrams_safe [parser_safe]:
  "no_fault parseUI800SystemParameterMessage m" "no_fault parseUI800HKParameterMessage m"
  "no_fault parseUBA2MaintenanceSettingsMessage m" "no_fault parseUI800WWConfiguration m"
  "no_fault parseUI800WWStatusData m" "no_fault parseUI800ZPStatusData m"
  "no_fault parseUI800HKConfiguration m" "no_fault parseUI800HKStatusData m"
  "no_fault parseUBA2MonitorMessage2 m" "no_fault parseUBA2OutdoorMessage m"
  "no_fault parseUBA2WWMonitorMessage m" "no_fault parseUBA2WWMonitorMessage2 m"
  "no_fault parseUBA2WWParameterMessage m"
  by (simp_all add: telegram_defs numeric_parser_defs parser_safe)

text \<open>The readings that index \<open>m_data\<close> without the offset.\<close>

lemma parseFehlerCode_safe:
  "no_fault parseFehlerCode m \<longleftrightarrow> (canAccess m 4 2 \<longrightarrow> 6 \<le> length (m_data m))"
  by (auto simp: no_fault_def parseFehlerCode_def vec_index_def bindR_Inr_iff)

lemma parseFlammeAktiv_safe:
  "no_fault parseFlammeAktiv m \<longleftrightarrow> (canAccess m 19 2 \<longrightarrow> 21 \<le> length (m_data m))"
  by (auto simp: no_fault_def parseFlammeAktiv_def vec_index_def bindR_Inr_iff)

lemma parseErrorCode_safe:
  "no_fault (parseErrorCode i) m \<longleftrightarrow> (canAccess m (5 + i * 7) 3 \<longrightarrow> 8 + i * 7 \<le> length (m_data m))"
  by (auto simp: no_fault_def parseErrorCode_def vec_index_def bindR_Inr_iff)

lemma parseErrorNumber_safe:
  "no_fault (parseErrorNumber i) m \<longleftrightarrow> (canAccess m (8 + i * 7) 2 \<longrightarrow> 10 + i * 7 \<le> length (m_data m))"
  by (auto simp: no_fault_def parseErrorNumber_def vec_index_def bindR_Inr_iff)

lemma run_steps_fault_iff:
  "no_fault (run_steps ps) m \<longleftrightarrow> list_all (\<lambda>p. no_fault p m) ps"
proof
  assume "no_fault (run_steps ps) m"
  then obtain vs where "run_steps ps m = Inr vs" by (auto simp: no_fault_def)
  then show "list_all (\<lambda>p. no_fault p m) ps"
    by (induction ps arbitrary: vs) (auto simp: bindR_Inr_iff no_fault_def)
qed (rule run_steps_safe)

lemma monitor_safe_iff:
  "no_fault parseUBA2MonitorMessage m \<longleftrightarrow>
     (canAccess m 4 2 \<longrightarrow> 6 \<le> length (m_data m)) \<and> (canAccess m 19 2 \<longrightarrow> 21 \<le> length (m_data m))"
  by (simp add: parseUBA2MonitorMessage_def run_steps_fault_iff numeric_parser_defs parser_safe
      parseFehlerCode_safe parseFlammeAktiv_safe)

lemma parseStoerung_safe: "no_fault parseStoerung m \<longleftrightarrow> m_data m \<noteq> []"
  using parseBool_safe [of 7 4 "BoolT Stoerung"]
  by (auto simp: no_fault_def parseStoerung_def vec_index_def)

lemma error_message_fault_iff:
  "no_fault parseUI800ErrorMessage m \<longleftrightarrow> m_data m \<noteq> [] \<and>
     list_all (\<lambda>i. no_fault (parseErrorCode i) m \<and> no_fault (parseErrorNumber i) m) [0, 1, 2]"
proof -
  let ?ps = "[parseErrorCode 0, parseErrorNumber 0, parseErrorCode 1, parseErrorNumber 1,
    parseErrorCode 2, parseErrorNumber 2]"
  have "no_fault parseUI800ErrorMessage m \<longleftrightarrow> no_fault parseStoerung m \<and> no_fault (run_steps ?ps) m"
    unfolding no_fault_def parseUI800ErrorMessage_def
    by (cases "parseStoerung m"; cases "run_steps ?ps m") (simp_all del: run_steps.simps)
  then show ?thesis
    by (auto simp: parseStoerung_safe run_steps_fault_iff)
qed

lemma error_message_safe:
  assumes "m_offset m = 0" and "m_data m \<noteq> []"
  shows "no_fault parseUI800ErrorMessage m"
  using assms
  by (simp add: error_message_fault_iff parseErrorCode_safe parseErrorNumber_safe canAccess_def)

lemma monitor_message_safe:
  "m_offset m = 0 \<Longrightarrow> no_fault parseUBA2MonitorMessage m"
  by (simp add: monitor_safe_iff canAccess_def)

section \<open>Every emitted reading has the alternative its type stands for\<close>

text \<open>
  The specification: the alternative of the variant that consumers may expect for a type.  The
  mixer control (\<open>Mischersteuerung\<close>) is a value type that no telegram yields.
\<close>

fun expected_reading :: "ems_type \<Rightarrow> reading_type" where
  "expected_reading (NumT t) =
     (if t = BoostActive \<or> t = ExtraActive then Boolean
      else if t = IstModulation \<or> t = SollModulation then Integer else Numeric)"
| "expected_reading (IntT _) = Integer"
| "expected_reading (BoolT t) = (if t = Sommerbetriebsart then Enumeration else Boolean)"
| "expected_reading (EnumT _) = Enumeration"
| "expected_reading (OtherT t) =
     (if t = Wartungstermin then Date else if t = SystemZeit then SystemTime else Formatted)"

definition good_value :: "ems_value \<Rightarrow> bool" where
  "good_value v \<longleftrightarrow> ems_value_wf v \<and> v_readingType v = expected_reading (v_type v)
     \<and> v_type v \<noteq> NumT Mischersteuerung"

definition well_typed :: "parser \<Rightarrow> bool" where
  "well_typed p \<longleftrightarrow> (\<forall>m vs. p m = Inr vs \<longrightarrow> list_all good_value vs)"

named_theorems typed_parser "parsers whose readings are well typed"

lemma run_steps_typed [typed_parser]: "list_all well_typed ps \<Longrightarrow> well_typed (run_steps ps)"
  by (fastforce simp: well_typed_def list_all_iff dest: run_steps_set)

lemma parseEnum_typed [typed_parser]:
  "expected_reading t = Enumeration \<Longrightarrow> well_typed (parseEnum offset t s)"
  by (auto simp: well_typed_def parseEnum_def bindR_Inr_iff good_value_def split: if_splits)

lemma parseNumericFull_typed [typed_parser]:
  "expected_reading t = (if dv = 0 then Integer else Numeric) \<Longrightarrow> t \<noteq> NumT Mischersteuerung \<Longrightarrow>
     well_typed (parseNumericFull offset sz dv t s sg iv)"
  by (auto simp: well_typed_def parseNumericFull_def bindR_Inr_iff good_value_def split: if_splits)

lemma parseBool_typed [typed_parser]:
  "expected_reading t = Boolean \<Longrightarrow> well_typed (parseBool offset b t s)"
  by (auto simp: well_typed_def parseBool_def bindR_Inr_iff good_value_def split: if_splits)

lemma special_typed [typed_parser]:
  "well_typed parseWartungstermin" "well_typed parseRCTimeMessage" "well_typed parseFehlerCode"
  "well_typed parseFlammeAktiv" "well_typed (parseErrorCode i)" "well_typed (parseErrorNumber i)"
  by (auto simp: well_typed_def parseWartungstermin_def parseRCTimeMessage_def parseFehlerCode_def
      parseFlammeAktiv_def parseErrorCode_def parseErrorNumber_def bindR_Inr_iff good_value_def
      split: if_splits)

lemma telegrams_typed [typed_parser]:
  "well_typed parseUI800SystemParameterMessage" "well_typed parseUI800HKParameterMessage"
  "well_typed parseUBA2MaintenanceSettingsMessage" "well_typed parseUI800WWConfiguration"
  "well_typed parseUI800WWStatusData" "well_typed parseUI800ZPStatusData"
  "well_typed parseUI800HKConfiguration" "well_typed parseUI800HKStatusData"
  "well_typed parseUBA2MonitorMessage" "well_typed parseUBA2MonitorMessage2"
  "well_typed parseUBA2OutdoorMessage" "well_typed parseUBA2WWMonitorMessage"
  "well_typed parseUBA2WWMonitorMessage2" "well_typed parseUBA2WWParameterMessage"
  by (simp_all add: telegram_defs numeric_parser_defs typed_parser)

lemma parseStoerung_typed [typed_parser]: "well_typed parseStoerung"
  using parseBool_typed [of "BoolT Stoerung" 7 4]
  by (auto simp: well_typed_def parseStoerung_def bindR_Inr_iff split: if_splits)

lemma parseUI800ErrorMessage_typed [typed_parser]: "well_typed parseUI800ErrorMessage"
proof -
  let ?ps = "[parseErrorCode 0, parseErrorNumber 0, parseErrorCode 1, parseErrorNumber 1,
    parseErrorCode 2, parseErrorNumber 2]"
  have "well_typed (run_steps ?ps)" by (simp add: typed_parser del: run_steps.simps)
  with parseStoerung_typed show ?thesis
    unfolding well_typed_def parseUI800ErrorMessage_def
    by (auto simp: bindR_Inr_iff good_value_def simp del: run_steps.simps)
qed

lemma handle_good:
  assumes "handle m = Inr vs" and "v \<in> set vs"
  shows "good_value v"
proof -
  have "well_typed p" if "dispatch (m_source m) (getType m) = Some p" for p
    using that by (auto simp: dispatch_def typed_parser parseUBA2ErrorMessage_def split: if_splits)
  with assms show ?thesis
    by (auto simp: handle_def well_typed_def list_all_iff split: if_splits option.splits)
qed

section \<open>The two constructors are inverse on the wire\<close>

lemma dest_bits [simp]:
  "(dest OR 0x80) AND 0x80 \<noteq> (0::u8)" "(dest AND 0x7f) AND 0x80 = (0::u8)"
proof -
  have "bit ((dest OR 0x80) AND (0x80::u8)) 7" by (simp add: bit_simps)
  then show "(dest OR 0x80) AND 0x80 \<noteq> (0::u8)" by force
  show "(dest AND 0x7f) AND 0x80 = (0::u8)"
    by (intro byte_eqI) (simp_all add: bit_simps)
qed

lemma join_bytes [simp]: "push_bit 8 (ucast (high_byte x)) OR ucast (low_byte x) = x"
  unfolding low_byte_def high_byte_def low_mask
  by (rule bit_word_eqI) (auto simp: bit_simps)

lemma classic_type:
  assumes "type < (0xf0::u16)"
  shows "\<not> 0xf0 \<le> (ucast type :: u8)" and "ucast (ucast type :: u8) = type"
proof -
  have "unat type < 240" using assms by (simp add: word_less_nat_alt)
  then have u: "unat (ucast type :: u8) = unat type"
    by (simp add: unsigned_ucast_eq take_bit_nat_eq_self)
  then show "\<not> 0xf0 \<le> (ucast type :: u8)"
    using \<open>unat type < 240\<close> by (simp add: word_le_nat_alt)
  show "ucast (ucast type :: u8) = type"
    using u by (metis unat_ucast_u8 word_unat_eq_iff)
qed

section \<open>Properties\<close>



lemma handle_outdoor_example:
  "handle (receivedMessage [0x88, 0, 0xd1, 0, 0, 215]) =
     Inr [numericValue (NumT IstTemp) Aussen [0, 215] 2 10 True (Some INVALID_TEMPERATURE_VALUES)]"
  by (simp add: receivedMessage_def handle_def dispatch_def getType_def address_defs telegram_defs
      parseTemperature_def parseNumericFull_def canAccess_def)

text \<open>
  C22: every reading a telegram yields stores the alternative of the variant that its reading type
  names, and that alternative is a fixed function of the value type, so the consumers that pick
  \<open>getValue<T>\<close> by type or by reading type never hit another alternative.
\<close>

theorem handle_well_typed:
  assumes "handle m = Inr vs" and "v \<in> set vs"
  shows "ems_value_wf v \<and> v_readingType v = expected_reading (v_type v)"
  using handle_good [OF assms] by (simp add: good_value_def)

lemma handle_well_typed_witness:
  "expected_reading (NumT IstTemp) = Numeric \<and> ems_value_wf
     (numericValue (NumT IstTemp) Aussen [0, 215] 2 10 True (Some INVALID_TEMPERATURE_VALUES))"
  using handle_well_typed [OF handle_outdoor_example] by simp

text \<open>
  C33: for the monitor telegram of the boiler the condition is exact: it faults iff it covers the
  bytes 4 and 5 (or 19 and 20) of the record while its payload, indexed from 0, is too short.
\<close>

theorem monitor_fault_iff:
  assumes "m_hasHandler m" and "m_source m = addressUBA2" and "getType m = 0xe4"
  shows "(\<exists>vs. handle m = Inr vs) \<longleftrightarrow>
     (canAccess m 4 2 \<longrightarrow> 6 \<le> length (m_data m)) \<and> (canAccess m 19 2 \<longrightarrow> 21 \<le> length (m_data m))"
proof -
  have "m_source m \<noteq> 0" using assms(2) by (simp add: address_defs)
  then have "handle m = parseUBA2MonitorMessage m"
    using assms by (simp add: handle_def dispatch_def)
  then show ?thesis using monitor_safe_iff [of m] by (simp add: no_fault_def)
qed

lemma monitor_fault_iff_witness:
  "\<not> (\<exists>vs. handle (receivedMessage [0x88, 0x0b, 0xe4, 4, 1, 2]) = Inr vs)"
  using monitor_fault_iff [of "receivedMessage [0x88, 0x0b, 0xe4, 4, 1, 2]"]
  by (simp add: receivedMessage_def getType_def address_defs canAccess_def)

text \<open>
  C20: what \<open>getSendData\<close> writes, the receiving constructor reads back: type, offset and payload
  survive for every 16-bit type, read or write.
\<close>

theorem send_receive_roundtrip:
  assumes "0xf0 \<le> type \<longrightarrow> data \<noteq> [] \<and> (expectResponse \<longrightarrow> length data = 1)"
  shows "\<exists>bs m. getSendData (sendMessage_ctor dest type offset data expectResponse) False = Inr bs
      \<and> m = receivedMessage bs \<and> m_source m = addressPC
      \<and> m_dest m = (if expectResponse then dest OR 0x80 else dest AND 0x7f)
      \<and> getType m = type \<and> m_offset m = offset \<and> m_data m = data"
proof (cases "type < 0xf0")
  case True
  then show ?thesis
    by (simp add: getSendData_def sendMessage_ctor_def receivedMessage_def getType_def
        classic_type Let_def not_le)
next
  case False
  then have t: "(type < 0xf0) = False" "(0xf0 \<le> type) = True" "type \<noteq> 0" and "data \<noteq> []"
    using assms by auto
  then obtain d ds where d: "data = d # ds" by (cases data) auto
  have "expectResponse \<Longrightarrow> ds = []" using assms d t by simp
  then show ?thesis
    by (cases expectResponse)
      (simp_all add: t d getSendData_def sendMessage_ctor_def receivedMessage_def getType_def
        Let_def)
qed

lemma send_receive_roundtrip_witness:
  "\<exists>bs. getSendData (sendMessage_ctor 0x90 0x01b9 21 [2] False) False = Inr bs
     \<and> getType (receivedMessage bs) = 0x01b9 \<and> m_data (receivedMessage bs) = [2]"
  using send_receive_roundtrip [of "0x01b9" "[2]" False "0x90" 21] by auto

text \<open>
  a temperature is the big-endian two's complement 16-bit field over ten; it is marked invalid
  exactly for the patterns 0x8000, 0x7d00 and 0x8300.
\<close>

theorem parseTemperature_decodes:
  assumes "canAccess m offset 2"
  defines "raw \<equiv> take 2 (drop (offset - unat (m_offset m)) (m_data m))"
  shows "\<exists>v. parseTemperature offset t s m = Inr [v] \<and> v_type v = t \<and> v_subType v = s
      \<and> v_value v = FloatReading (float_div (float_of_int (signed_be raw)) (float_of_int 10))
      \<and> v_isValid v = (raw \<notin> {[0x80, 0], [0x7d, 0], [0x83, 0]})"
proof -
  have b: "offset - unat (m_offset m) + 2 \<le> length (m_data m)"
    using assms(1) by (rule canAccess_bound)
  have len: "length raw = 2" using b by (simp add: raw_def)
  then obtain x y where raw: "raw = [x, y]"
    by (auto simp: numeral_2_eq_2 length_Suc_conv)
  have v: "sint (fst (numeric_decode raw 2 True)) = signed_be raw"
    using len numeric_decode_signed [of 2 raw] by simp
  have valid: "snd (numeric_decode raw 2 True) \<longleftrightarrow> raw \<noteq> [0x80, 0]"
    using len numeric_decode_signed_valid [of 2 raw] by (simp add: raw be_nat_pair_eq)
  have match: "matches_invalid (Some INVALID_TEMPERATURE_VALUES) raw 2 \<longleftrightarrow> raw \<in> {[0x7d, 0], [0x83, 0]}"
    by (auto simp: matches_invalid_def INVALID_TEMPERATURE_VALUES_def raw)
  have "parseTemperature offset t s m =
      Inr [numericValue t s raw 2 10 True (Some INVALID_TEMPERATURE_VALUES)]"
    using assms(1) b by (simp add: parseTemperature_def parseNumericFull_def raw_def)
  then show ?thesis
    using v valid match by (auto simp: numericValue_def Let_def split: prod.splits)
qed

lemma parseTemperature_decodes_witness:
  "\<exists>v. parseTemperature 0 (NumT IstTemp) Aussen (receivedMessage [0x88, 0, 0xd1, 0, 0xff, 0xce]) = Inr [v]
     \<and> v_value v = FloatReading (float_div (float_of_int (- 50)) (float_of_int 10)) \<and> v_isValid v"
proof -
  let ?m = "receivedMessage [0x88, 0, 0xd1, 0, 0xff, 0xce]"
  have "canAccess ?m 0 2" by (simp add: receivedMessage_def canAccess_def)
  moreover have "signed_be [0xff, 0xce] = - 50" by (simp add: signed_be_def be_nat_def)
  ultimately show ?thesis
    using parseTemperature_decodes [of ?m 0 "NumT IstTemp" Aussen]
    by (auto simp: receivedMessage_def)
qed

end
