(* ===== verification/IoHandler.thy ===== *)
theory IoHandler
  imports EmsMessage
begin

text \<open>
  The byte stream from the bus (\<open>IoHandler.cpp\<close>) and the frames written to it
  (\<open>SendingSerialHandler.cpp\<close>, \<open>TcpHandler.cpp\<close>).  The receiver is the four-state machine of
  \<open>readComplete\<close>; what a complete frame makes it do is the list of events \<open>telegram_events\<close>: the
  readings passed to the value callbacks, then the telegram itself when it is addressed to us.
  \<open>m_pos\<close> and \<open>m_length\<close> are \<open>size_t\<close> counters bounded by the size of a vector in memory and
  are natural numbers here.
\<close>

unbundle bit_operations_syntax

section \<open>The receiver\<close>

datatype rx_state = Syncing | Length | Data | Checksum

record io_handler =
  io_active :: bool
  io_stopped :: bool
  rx_state :: rx_state
  rx_pos :: nat
  rx_length :: nat
  rx_checkSum :: u8
  rx_data :: bytes

datatype io_event = Values "ems_value list" | PcMessage ems_message

definition io_init :: io_handler where
  "io_init = \<lparr>io_active = True, io_stopped = False, rx_state = Syncing, rx_pos = 0,
     rx_length = 0, rx_checkSum = 0, rx_data = []\<rparr>"

definition telegram_events :: "bytes \<Rightarrow> io_event list result" where
  "telegram_events data =
     (let message = receivedMessage data
      in bindR (handle message) (\<lambda>vs.
           Inr (Values vs # (if m_dest message OR 0x80 = addressPC then [PcMessage message] else []))))"

definition rx_byte :: "io_handler \<Rightarrow> u8 \<Rightarrow> (io_handler \<times> io_event list) result" where
  "rx_byte s dataByte =
     (case rx_state s of
        Syncing \<Rightarrow>
          Inr (if rx_pos s = 0 \<and> dataByte = 0xaa then s\<lparr>rx_pos := 1\<rparr>
               else if rx_pos s = 1 \<and> dataByte = 0x55 then s\<lparr>rx_state := Length, rx_pos := 0\<rparr>
               else s\<lparr>rx_pos := 0\<rparr>, [])
      | Length \<Rightarrow>
          Inr (s\<lparr>rx_state := Data, rx_pos := 0, rx_length := unat dataByte, rx_checkSum := 0\<rparr>, [])
      | Data \<Rightarrow>
          (let s' = s\<lparr>rx_data := rx_data s @ [dataByte], rx_checkSum := rx_checkSum s XOR dataByte,
                      rx_pos := rx_pos s + 1\<rparr>
           in Inr (if rx_pos s' = rx_length s' then s'\<lparr>rx_state := Checksum\<rparr> else s', []))
      | Checksum \<Rightarrow>
          (let s' = s\<lparr>rx_data := [], rx_state := Syncing, rx_pos := 0\<rparr>
           in if rx_checkSum s = dataByte
              then bindR (telegram_events (rx_data s)) (\<lambda>es. Inr (s', es))
              else Inr (s', [])))"

fun rx_bytes :: "io_handler \<Rightarrow> bytes \<Rightarrow> (io_handler \<times> io_event list) result" where
  "rx_bytes s [] = Inr (s, [])"
| "rx_bytes s (b # bs) =
     bindR (rx_byte s b) (\<lambda>(s', es). bindR (rx_bytes s' bs) (\<lambda>(s'', fs). Inr (s'', es @ fs)))"

definition doClose :: "io_handler \<Rightarrow> io_handler" where
  "doClose s = s\<lparr>io_active := False, io_stopped := True\<rparr>"

text \<open>\<open>None\<close> is a failed read; otherwise the bytes the read delivered.\<close>

definition readComplete :: "io_handler \<Rightarrow> bytes option \<Rightarrow> (io_handler \<times> io_event list) result" where
  "readComplete s outcome =
     (case outcome of None \<Rightarrow> Inr (doClose s, []) | Some bs \<Rightarrow> rx_bytes s bs)"

section \<open>Writing to the bus\<close>

definition serial_frame :: "bytes \<Rightarrow> bytes" where
  "serial_frame sendData = [0xaa, 0x55, of_nat (length sendData)] @ sendData @ [xor_sum sendData]"

text \<open>\<open>SendingSerialHandler::sendMessageImpl\<close>: the bytes written, none on a closed handler.\<close>

definition serial_sendMessageImpl :: "io_handler \<Rightarrow> ems_message \<Rightarrow> bytes result" where
  "serial_sendMessageImpl s msg =
     bindR (getSendData msg False) (\<lambda>sendData.
       Inr (if io_active s then serial_frame sendData else []))"

text \<open>\<open>TcpHandler::sendMessageImpl\<close>: the gateway adds the sender and the framing.\<close>

definition tcp_sendMessageImpl :: "ems_message \<Rightarrow> bytes result" where
  "tcp_sendMessageImpl msg = getSendData msg True"

section \<open>The link contract\<close>

text \<open>Input that arrives in several reads.\<close>

fun run_chunks :: "('s \<Rightarrow> bytes \<Rightarrow> ('s \<times> 'e list) result) \<Rightarrow> 's \<Rightarrow> bytes list \<Rightarrow>
    ('s \<times> 'e list) result" where
  "run_chunks f s [] = Inr (s, [])"
| "run_chunks f s (c # cs) =
     bindR (f s c) (\<lambda>(s', es). bindR (run_chunks f s' cs) (\<lambda>(s'', fs). Inr (s'', es @ fs)))"

text \<open>
  What a link layer promises its clients: bytes can be fed in pieces, and a frame fed to an idle
  receiver delivers its payload and leaves the receiver idle.
\<close>

locale frame_link =
  fixes feed :: "'s \<Rightarrow> bytes \<Rightarrow> ('s \<times> 'e list) result"
    and frame :: "bytes \<Rightarrow> bytes"
    and idle :: "'s \<Rightarrow> bool"
    and sendable :: "bytes \<Rightarrow> bool"
    and deliver :: "bytes \<Rightarrow> 'e list result"
  assumes feed_Nil: "feed s [] = Inr (s, [])"
    and feed_append: "feed s (xs @ ys) =
      bindR (feed s xs) (\<lambda>(s', es). bindR (feed s' ys) (\<lambda>(s'', fs). Inr (s'', es @ fs)))"
    and feed_frame: "idle s \<Longrightarrow> sendable d \<Longrightarrow> deliver d = Inr es \<Longrightarrow>
      \<exists>s'. feed s (frame d) = Inr (s', es) \<and> idle s'"
begin

lemma feed_frames:
  "idle s \<Longrightarrow> list_all sendable ds \<Longrightarrow> list_all2 (\<lambda>d es. deliver d = Inr es) ds ess \<Longrightarrow>
     \<exists>s'. feed s (concat (map frame ds)) = Inr (s', concat ess) \<and> idle s'"
proof (induction ds arbitrary: s ess)
  case Nil
  then show ?case by (simp add: feed_Nil)
next
  case (Cons d ds)
  then obtain es ess' where ess: "ess = es # ess'" "deliver d = Inr es"
    "list_all2 (\<lambda>d es. deliver d = Inr es) ds ess'"
    by (auto simp: list_all2_Cons1)
  have d: "sendable d" "list_all sendable ds" using Cons.prems(2) by simp_all
  obtain s1 where s1: "feed s (frame d) = Inr (s1, es)" "idle s1"
    using feed_frame [OF Cons.prems(1) d(1) ess(2)] by blast
  obtain s2 where "feed s1 (concat (map frame ds)) = Inr (s2, concat ess')" "idle s2"
    using Cons.IH [OF s1(2) d(2) ess(3)] by blast
  with s1 ess show ?case
    using feed_append [of s "frame d" "concat (map frame ds)"] by simp
qed

text \<open>How a stream is cut into reads does not matter.\<close>

lemma run_chunks_concat: "run_chunks feed s cs = feed s (concat cs)"
proof (induction cs arbitrary: s)
  case Nil
  then show ?case by (simp add: feed_Nil)
next
  case (Cons c cs)
  then show ?case using feed_append [of s c "concat cs"] by simp
qed

end

section \<open>The receiver implements the link\<close>

lemma rx_bytes_append:
  "rx_bytes s (xs @ ys) =
     bindR (rx_bytes s xs) (\<lambda>(s', es). bindR (rx_bytes s' ys) (\<lambda>(s'', fs). Inr (s'', es @ fs)))"
proof (induction xs arbitrary: s)
  case Nil
  have "(\<lambda>(s'', fs). Inr (s'', [] @ fs)) = Inr" by auto
  then show ?case by simp
next
  case (Cons x xs)
  show ?case
  proof (cases "rx_byte s x")
    case (Inr r)
    then show ?thesis
      by (cases r; cases "rx_bytes (fst r) xs") (auto simp: Cons.IH bindR_assoc case_prod_beta')
  qed simp
qed

definition rx_idle :: "io_handler \<Rightarrow> bool" where
  "rx_idle s \<longleftrightarrow> rx_state s = Syncing \<and> rx_pos s = 0 \<and> rx_data s = []"

definition rx_sendable :: "bytes \<Rightarrow> bool" where
  "rx_sendable d \<longleftrightarrow> 0 < length d \<and> length d < 256"

text \<open>Payload bytes are collected until their number reaches the announced length.\<close>

lemma rx_collect:
  assumes "rx_state s = Data" and "rx_pos s = length (rx_data s)"
    and "length (rx_data s) + length d \<le> rx_length s" and "length (rx_data s) < rx_length s"
  shows "rx_bytes s d = Inr (s\<lparr>rx_data := rx_data s @ d,
      rx_checkSum := rx_checkSum s XOR xor_sum d, rx_pos := rx_pos s + length d,
      rx_state := (if length (rx_data s) + length d = rx_length s then Checksum else Data)\<rparr>, [])"
  using assms
proof (induction d arbitrary: s)
  case Nil
  then show ?case by simp
next
  case (Cons b d)
  let ?s = "s\<lparr>rx_data := rx_data s @ [b], rx_checkSum := rx_checkSum s XOR b,
    rx_pos := rx_pos s + 1\<rparr>"
  show ?case
  proof (cases "length (rx_data s) + 1 = rx_length s")
    case True
    with Cons.prems(3) have "length d = 0" unfolding list.size by linarith
    with True Cons.prems show ?thesis by (simp add: rx_byte_def Let_def)
  next
    case False
    then have "rx_byte s b = Inr (?s, [])"
      using Cons.prems by (simp add: rx_byte_def Let_def)
    moreover have "rx_bytes ?s d = Inr (?s\<lparr>rx_data := rx_data ?s @ d,
      rx_checkSum := rx_checkSum ?s XOR xor_sum d, rx_pos := rx_pos ?s + length d,
      rx_state := (if length (rx_data ?s) + length d = rx_length ?s then Checksum else Data)\<rparr>, [])"
      using Cons.prems False by (intro Cons.IH) auto
    ultimately show ?thesis by (simp add: xor.assoc)
  qed
qed

text \<open>With an announced length of 0 the counter never meets it.\<close>

lemma rx_collect_forever:
  "rx_state s = Data \<Longrightarrow> rx_length s = 0 \<Longrightarrow>
     \<exists>s'. rx_bytes s bs = Inr (s', []) \<and> rx_state s' = Data \<and> rx_data s' = rx_data s @ bs
       \<and> rx_length s' = 0"
proof (induction bs arbitrary: s)
  case Nil
  then show ?case by simp
next
  case (Cons b bs)
  let ?s = "s\<lparr>rx_data := rx_data s @ [b], rx_checkSum := rx_checkSum s XOR b,
    rx_pos := rx_pos s + 1\<rparr>"
  have "rx_byte s b = Inr (?s, [])" using Cons.prems by (simp add: rx_byte_def)
  with Cons.IH [of ?s] Cons.prems show ?case by auto
qed

text \<open>The three bytes before the payload.\<close>

lemma rx_header:
  assumes "rx_idle s"
  shows "rx_bytes s [0xaa, 0x55, len] =
     Inr (s\<lparr>rx_state := Data, rx_pos := 0, rx_length := unat len, rx_checkSum := 0\<rparr>, [])"
  using assms by (simp add: rx_idle_def rx_byte_def)

lemma rx_until_checksum:
  assumes "rx_idle s" and "rx_sendable d"
  shows "rx_bytes s ([0xaa, 0x55, of_nat (length d)] @ d) =
     Inr (s\<lparr>rx_state := Checksum, rx_pos := length d, rx_length := length d,
            rx_checkSum := xor_sum d, rx_data := d\<rparr>, [])"
proof -
  have len: "unat (of_nat (length d) :: u8) = length d"
    using assms(2) by (simp add: rx_sendable_def unat_of_nat take_bit_nat_eq_self)
  let ?s = "s\<lparr>rx_state := Data, rx_pos := 0, rx_length := length d, rx_checkSum := 0\<rparr>"
  have "rx_bytes ?s d = Inr (?s\<lparr>rx_data := d, rx_checkSum := xor_sum d, rx_pos := length d,
      rx_state := Checksum\<rparr>, [])"
    using rx_collect [of ?s d] assms by (simp add: rx_idle_def rx_sendable_def)
  then show ?thesis
    using rx_bytes_append [of s "[0xaa, 0x55, of_nat (length d)]" d] rx_header [OF assms(1)] len
    by simp
qed

lemma rx_frame:
  assumes "rx_idle s" and "rx_sendable d" and "telegram_events d = Inr es"
  shows "\<exists>s'. rx_bytes s (serial_frame d) = Inr (s', es) \<and> rx_idle s'"
proof -
  have "serial_frame d = ([0xaa, 0x55, of_nat (length d)] @ d) @ [xor_sum d]"
    by (simp add: serial_frame_def)
  then have "rx_bytes s (serial_frame d) = rx_bytes (s\<lparr>rx_state := Checksum, rx_pos := length d,
      rx_length := length d, rx_checkSum := xor_sum d, rx_data := d\<rparr>) [xor_sum d]"
    using rx_until_checksum [OF assms(1,2)] by (simp only: rx_bytes_append bindR_simps) simp
  then show ?thesis
    using assms(3) by (simp add: rx_byte_def rx_idle_def)
qed

interpretation serial_link: frame_link rx_bytes serial_frame rx_idle rx_sendable telegram_events
  by unfold_locales (simp_all add: rx_bytes_append rx_frame)

section \<open>What the receiver has seen\<close>

text \<open>
  The invariant relates the state to the bytes \<open>c\<close> consumed since the start: they end with the
  part of a frame that the state stands for.
\<close>

definition rx_inv :: "bytes \<Rightarrow> io_handler \<Rightarrow> bool" where
  "rx_inv c s \<longleftrightarrow>
     (case rx_state s of
        Syncing \<Rightarrow> rx_data s = [] \<and> (rx_pos s = 0 \<or> rx_pos s = 1 \<and> (\<exists>pre. c = pre @ [0xaa]))
      | Length \<Rightarrow> rx_data s = [] \<and> (\<exists>pre. c = pre @ [0xaa, 0x55])
      | Data \<Rightarrow> rx_pos s = length (rx_data s) \<and> rx_checkSum s = xor_sum (rx_data s)
          \<and> (rx_length s = 0 \<or> length (rx_data s) < rx_length s) \<and> rx_length s < 256
          \<and> (\<exists>pre. c = pre @ [0xaa, 0x55, of_nat (rx_length s)] @ rx_data s)
      | Checksum \<Rightarrow> rx_checkSum s = xor_sum (rx_data s) \<and> rx_sendable (rx_data s)
          \<and> (\<exists>pre. c = pre @ [0xaa, 0x55, of_nat (length (rx_data s))] @ rx_data s))"

lemma rx_inv_init: "rx_inv [] io_init"
  by (simp add: rx_inv_def io_init_def)

lemma rx_byte_inv:
  assumes "rx_inv c s" and "rx_byte s b = Inr (s', es)"
  shows "rx_inv (c @ [b]) s'"
proof (cases "rx_state s")
  case Data
  then show ?thesis
    using assms by (auto simp: rx_inv_def rx_byte_def rx_sendable_def xor_simps Let_def split: if_splits)
qed (use assms in \<open>auto simp: rx_inv_def rx_byte_def bindR_Inr_iff Let_def unat_u8 split: if_splits\<close>)

text \<open>Events come only from the last byte of a well-formed frame.\<close>

lemma rx_byte_events:
  assumes "rx_inv c s" and "rx_byte s b = Inr (s', es)" and "es \<noteq> []"
  shows "\<exists>pre d. c @ [b] = pre @ serial_frame d \<and> rx_sendable d \<and> telegram_events d = Inr es"
proof -
  have st: "rx_state s = Checksum"
    using assms(2,3) by (auto simp: rx_byte_def Let_def split: rx_state.splits if_splits)
  with assms(2,3) have "rx_checkSum s = b" "telegram_events (rx_data s) = Inr es"
    by (auto simp: rx_byte_def Let_def bindR_Inr_iff split: if_splits)
  moreover from st assms(1) obtain pre where
    "c = pre @ [0xaa, 0x55, of_nat (length (rx_data s))] @ rx_data s"
    "rx_checkSum s = xor_sum (rx_data s)" "rx_sendable (rx_data s)"
    by (auto simp: rx_inv_def)
  ultimately show ?thesis
    by (intro exI [of _ pre] exI [of _ "rx_data s"]) (simp add: serial_frame_def)
qed

lemma rx_bytes_inv:
  "rx_inv c s \<Longrightarrow> rx_bytes s bs = Inr (s', es) \<Longrightarrow> rx_inv (c @ bs) s'"
proof (induction bs arbitrary: c s es)
  case Nil
  then show ?case by simp
next
  case (Cons b bs)
  from Cons.prems(2) obtain s1 e1 e2 where
    1: "rx_byte s b = Inr (s1, e1)" and 2: "rx_bytes s1 bs = Inr (s', e2)"
    by (auto simp: bindR_Inr_iff)
  show ?case
    using Cons.IH [OF rx_byte_inv [OF Cons.prems(1) 1] 2] by simp
qed

lemma rx_bytes_events:
  "rx_inv c s \<Longrightarrow> rx_bytes s bs = Inr (s', es) \<Longrightarrow> e \<in> set es \<Longrightarrow>
     \<exists>pre d post fs. c @ bs = pre @ serial_frame d @ post \<and> rx_sendable d
       \<and> telegram_events d = Inr fs \<and> e \<in> set fs"
proof (induction bs arbitrary: c s es)
  case Nil
  then show ?case by simp
next
  case (Cons b bs)
  from Cons.prems(2) obtain s1 e1 e2 where
    1: "rx_byte s b = Inr (s1, e1)" and 2: "rx_bytes s1 bs = Inr (s', e2)" and es: "es = e1 @ e2"
    by (auto simp: bindR_Inr_iff)
  show ?case
  proof (cases "e \<in> set e1")
    case True
    then obtain pre d where "c @ [b] = pre @ serial_frame d" "rx_sendable d" "telegram_events d = Inr e1"
      using rx_byte_events [OF Cons.prems(1) 1] by fastforce
    with True show ?thesis
      by (metis append.assoc append_Cons append_Nil)
  next
    case False
    then have "e \<in> set e2" using Cons.prems(3) es by simp
    from Cons.IH [OF rx_byte_inv [OF Cons.prems(1) 1] 2 this] show ?thesis by simp
  qed
qed

lemma blocked_receiver:
  assumes "rx_idle s"
  shows "\<exists>s'. rx_bytes s ([0xaa, 0x55, 0] @ bs) = Inr (s', []) \<and> rx_state s' = Data
      \<and> rx_data s' = bs \<and> rx_length s' = 0"
proof -
  let ?s = "s\<lparr>rx_state := Data, rx_pos := 0, rx_length := 0, rx_checkSum := 0\<rparr>"
  have "rx_bytes s ([0xaa, 0x55, 0] @ bs) = rx_bytes ?s bs"
    using rx_header [OF assms, of 0] by (simp only: rx_bytes_append bindR_simps) simp
  then show ?thesis
    using rx_collect_forever [of ?s bs] assms by (simp add: rx_idle_def)
qed

text \<open>Interpreting bytes neither closes the handler nor stops its loop.\<close>

lemma rx_byte_loop: "rx_byte s b = Inr (s', es) \<Longrightarrow> io_active s' = io_active s \<and> io_stopped s' = io_stopped s"
  by (auto simp: rx_byte_def Let_def bindR_Inr_iff split: rx_state.splits if_splits)

lemma rx_bytes_loop: "rx_bytes s bs = Inr (s', es) \<Longrightarrow> io_active s' = io_active s \<and> io_stopped s' = io_stopped s"
  by (induction bs arbitrary: s es) (auto simp: bindR_Inr_iff dest!: rx_byte_loop)

section \<open>Properties\<close>

text \<open>
  C1: whatever bytes arrive, cut into reads in whatever way, an event is raised only for a frame
  that stands complete in the stream: preamble, length, that many payload bytes, and a checksum
  that is their XOR.
\<close>

theorem receiver_only_valid_frames:
  assumes "run_chunks rx_bytes io_init chunks = Inr (s, es)" and "e \<in> set es"
  shows "\<exists>pre d post fs. concat chunks = pre @ serial_frame d @ post \<and> 0 < length d
      \<and> length d < 256 \<and> telegram_events d = Inr fs \<and> e \<in> set fs"
  using assms rx_bytes_events [OF rx_inv_init, of "concat chunks" s es e]
  by (auto simp: serial_link.run_chunks_concat rx_sendable_def)

text \<open>A boiler telegram with an outdoor temperature of 21.5 degrees, in two reads.\<close>

definition outdoor_telegram :: bytes where
  "outdoor_telegram = [0x88, 0, 0xd1, 0, 0, 215]"

lemma outdoor_events:
  "telegram_events outdoor_telegram =
     Inr [Values [numericValue (NumT IstTemp) Aussen [0, 215] 2 10 True
       (Some INVALID_TEMPERATURE_VALUES)]]"
proof -
  have "m_dest (receivedMessage outdoor_telegram) = 0"
    by (simp add: receivedMessage_def outdoor_telegram_def)
  then show ?thesis
    using handle_outdoor_example
    by (simp add: telegram_events_def outdoor_telegram_def Let_def address_defs)
qed

lemma rx_idle_init: "rx_idle io_init"
  by (simp add: rx_idle_def io_init_def)

lemma outdoor_sendable: "rx_sendable outdoor_telegram"
  by (simp add: rx_sendable_def outdoor_telegram_def)

lemma receiver_only_valid_frames_witness:
  "\<exists>e pre d post. concat [serial_frame outdoor_telegram] = pre @ serial_frame d @ post
     \<and> 0 < length d \<and> (\<exists>fs. telegram_events d = Inr fs \<and> e \<in> set fs)"
proof -
  obtain s' where "rx_bytes io_init (serial_frame outdoor_telegram) = Inr (s',
    [Values [numericValue (NumT IstTemp) Aussen [0, 215] 2 10 True (Some INVALID_TEMPERATURE_VALUES)]])"
    using rx_frame [OF rx_idle_init outdoor_sendable outdoor_events] by blast
  then have "run_chunks rx_bytes io_init [serial_frame outdoor_telegram] = Inr (s',
    [Values [numericValue (NumT IstTemp) Aussen [0, 215] 2 10 True (Some INVALID_TEMPERATURE_VALUES)]])"
    by simp
  from receiver_only_valid_frames [OF this] show ?thesis by fastforce
qed

text \<open>
  C2: a sequence of frames written by the serial sender, read in any chunks, delivers exactly
  the events of its telegrams in order, and the receiver is idle again.
\<close>

theorem receiver_delivers_frames:
  assumes "rx_idle s" and "list_all rx_sendable ds"
    and "list_all2 (\<lambda>d es. telegram_events d = Inr es) ds ess"
    and "concat chunks = concat (map serial_frame ds)"
  shows "\<exists>s'. run_chunks rx_bytes s chunks = Inr (s', concat ess) \<and> rx_idle s'"
  using serial_link.feed_frames [OF assms(1-3)] assms(4)
  by (simp add: serial_link.run_chunks_concat)

lemma receiver_delivers_frames_witness:
  "\<exists>s' vs. run_chunks rx_bytes io_init
       [take 5 (serial_frame outdoor_telegram), drop 5 (serial_frame outdoor_telegram)]
     = Inr (s', [Values vs]) \<and> rx_idle s'"
proof -
  have "list_all2 (\<lambda>d es. telegram_events d = Inr es) [outdoor_telegram]
    [[Values [numericValue (NumT IstTemp) Aussen [0, 215] 2 10 True (Some INVALID_TEMPERATURE_VALUES)]]]"
    using outdoor_events by simp
  from receiver_delivers_frames [OF rx_idle_init _ this, of
      "[take 5 (serial_frame outdoor_telegram), drop 5 (serial_frame outdoor_telegram)]"]
  show ?thesis using outdoor_sendable by fastforce
qed

text \<open>
  a frame in which one payload byte was altered is dropped without any event, and the
  receiver is ready for the next frame.
\<close>

theorem receiver_drops_corrupted:
  assumes "rx_idle s" and "rx_sendable d" and "i < length d" and "b \<noteq> d ! i"
  shows "\<exists>s'. rx_bytes s ([0xaa, 0x55, of_nat (length d)] @ d[i := b] @ [xor_sum d]) = Inr (s', [])
      \<and> rx_idle s'"
proof -
  let ?d = "d[i := b]"
  have d: "rx_sendable ?d" "length ?d = length d" using assms(2) by (simp_all add: rx_sendable_def)
  have neq: "xor_sum ?d \<noteq> xor_sum d" using xor_sum_update [OF assms(3)] assms(4) by blast
  let ?s = "s\<lparr>rx_state := Checksum, rx_pos := length d, rx_length := length d,
    rx_checkSum := xor_sum ?d, rx_data := ?d\<rparr>"
  have "rx_bytes s ([0xaa, 0x55, of_nat (length d)] @ ?d) = Inr (?s, [])"
    using rx_until_checksum [OF assms(1) d(1)] by (simp only: d(2))
  then have "rx_bytes s (([0xaa, 0x55, of_nat (length d)] @ ?d) @ [xor_sum d]) =
      rx_bytes ?s [xor_sum d]"
    by (simp only: rx_bytes_append bindR_simps) simp
  then show ?thesis
    using neq by (simp add: rx_byte_def rx_idle_def)
qed

lemma receiver_drops_corrupted_witness:
  "\<exists>s'. rx_bytes io_init ([0xaa, 0x55, 6] @ [0x88, 0, 0xd1, 0, 0, 216]
     @ [xor_sum [0x88, 0, 0xd1, 0, 0, 215]]) = Inr (s', []) \<and> rx_idle s'"
  using receiver_drops_corrupted [OF rx_idle_init outdoor_sendable, of 5 216]
  by (simp add: outdoor_telegram_def)

text \<open>
  a frame whose length byte is 0 blocks the receiver for good: all bytes after it are stored
  as payload, none is ever interpreted.
\<close>

theorem receiver_zero_length_blocks:
  assumes "rx_idle s"
  shows "\<exists>s'. rx_bytes s ([0xaa, 0x55, 0] @ bs) = Inr (s', []) \<and> rx_state s' = Data
      \<and> rx_data s' = bs \<and> rx_length s' = 0"
  using assms by (rule blocked_receiver)

lemma receiver_zero_length_blocks_witness:
  "\<exists>s'. rx_bytes io_init ([0xaa, 0x55, 0] @ serial_frame outdoor_telegram) = Inr (s', [])
     \<and> rx_data s' = serial_frame outdoor_telegram"
  using receiver_zero_length_blocks [OF rx_idle_init, of "serial_frame outdoor_telegram"] by auto

text \<open>
  a stray byte 0xaa directly before a frame makes the receiver miss the frame (here one
  without further bytes 0xaa), because the second 0xaa resets the search.
\<close>

theorem receiver_misses_after_stray_preamble:
  assumes "rx_idle s" and "0xaa \<notin> set (drop 2 (serial_frame d))"
  shows "\<exists>s'. rx_bytes s (0xaa # serial_frame d) = Inr (s', []) \<and> rx_idle s'"
proof -
  have skip: "rx_idle s \<Longrightarrow> 0xaa \<notin> set bs \<Longrightarrow> \<exists>s'. rx_bytes s bs = Inr (s', []) \<and> rx_idle s'" for s bs
    by (induction bs arbitrary: s) (auto simp: rx_byte_def rx_idle_def)
  have "rx_bytes s [0xaa, 0xaa, 0x55] = Inr (s\<lparr>rx_pos := 0\<rparr>, [])"
    using assms(1) by (simp add: rx_byte_def rx_idle_def)
  moreover have "0xaa # serial_frame d = [0xaa, 0xaa, 0x55] @ drop 2 (serial_frame d)"
    by (simp add: serial_frame_def)
  moreover have "rx_idle (s\<lparr>rx_pos := 0\<rparr>)" using assms(1) by (simp add: rx_idle_def)
  ultimately show ?thesis
    using skip [OF _ assms(2)] by (simp only: rx_bytes_append bindR_simps) auto
qed

lemma receiver_misses_after_stray_preamble_witness:
  "\<exists>s'. rx_bytes io_init (0xaa # serial_frame outdoor_telegram) = Inr (s', []) \<and> rx_idle s'"
  using receiver_misses_after_stray_preamble [OF rx_idle_init, of outdoor_telegram]
  by (simp add: serial_frame_def outdoor_telegram_def)

end
