(* ===== verification/Framer.thy ===== *)
theory Framer
  imports IoHandler "HOL-Library.Sublist"
begin

text \<open>
  The bus interface (\<open>framer/main.c\<close>): an AVR that receives the characters of the EMS bus, checks
  the CRC of each telegram and sends the telegrams to the collector as frames, through a ring
  buffer that the receive interrupt fills and the main loop empties.  Registers of the hardware
  are replaced by the characters with their frame error flag, by the bytes given to the UART, and
  by the state of the LEDs.  The arrays and positions are those of the program; \<open>ring\<close> is the queue
  they stand for.
\<close>

unbundle bit_operations_syntax

section \<open>State\<close>

definition RECV_BUF_SIZE :: nat where "RECV_BUF_SIZE = 64"
definition TRANSMIT_BUF_SIZE :: nat where "TRANSMIT_BUF_SIZE = 250"

datatype led = NoLed | PacketLed | FaultLed

record framer =
  recv_buffer :: bytes
  recv_pos :: u8
  recv_valid :: bool
  tx_buffer :: bytes
  tx_write_pos :: u8
  tx_read_pos :: u8
  led_on :: led
  led_timer :: "u16 option"

definition framer_init :: framer where
  "framer_init = \<lparr>recv_buffer = replicate RECV_BUF_SIZE 0, recv_pos = 0, recv_valid = False,
     tx_buffer = replicate TRANSMIT_BUF_SIZE 0, tx_write_pos = 0, tx_read_pos = 0,
     led_on = NoLed, led_timer = None\<rparr>"

section \<open>Operations\<close>

definition crc_step :: "u8 \<Rightarrow> u8 \<Rightarrow> u8" where
  "crc_step crc b =
     (let (crc, d) = (if crc AND 0x80 \<noteq> 0 then (crc XOR 0xc, 1) else (crc, 0))
      in (((push_bit 1 crc) AND 0xfe) OR d) XOR b)"

definition calc_checksum :: "bytes \<Rightarrow> u8 \<Rightarrow> u8" where
  "calc_checksum buffer len = fold (\<lambda>b crc. crc_step crc b) (take (unat len) buffer) 0"

definition wrap_pos :: "u8 \<Rightarrow> u8" where
  "wrap_pos pos = (if of_nat TRANSMIT_BUF_SIZE \<le> pos then 0 else pos)"

definition copy_to_tx_buffer :: "u8 \<Rightarrow> framer \<Rightarrow> framer" where
  "copy_to_tx_buffer data s =
     s\<lparr>tx_buffer := (tx_buffer s)[unat (tx_write_pos s) := data], tx_write_pos := wrap_pos (tx_write_pos s + 1)\<rparr>"

definition start_tx_frame :: "framer \<Rightarrow> framer" where
  "start_tx_frame s = copy_to_tx_buffer 0x55 (copy_to_tx_buffer 0xaa s)"

definition add_tx_data :: "bytes \<Rightarrow> u8 \<Rightarrow> framer \<Rightarrow> framer" where
  "add_tx_data data len s =
     (case fold (\<lambda>b (s, csum). (copy_to_tx_buffer b s, csum XOR b)) (take (unat len) data)
             (copy_to_tx_buffer len s, 0) of
        (s', csum) \<Rightarrow> copy_to_tx_buffer csum s')"

definition enough_tx_space :: "u8 \<Rightarrow> framer \<Rightarrow> bool" where
  "enough_tx_space needed s =
     (let needed = needed + 5;
          space = (if tx_read_pos s \<le> tx_write_pos s
                   then of_nat TRANSMIT_BUF_SIZE - (tx_write_pos s - tx_read_pos s)
                   else tx_read_pos s - tx_write_pos s)
      in needed \<le> space)"

definition enable_led :: "bool \<Rightarrow> framer \<Rightarrow> framer" where
  "enable_led fault s = s\<lparr>led_on := (if fault then FaultLed else PacketLed),
     led_timer := Some (push_bit 3 (if fault then 200 else 100))\<rparr>"

definition led_timeout :: "framer \<Rightarrow> framer" where
  "led_timeout s = s\<lparr>led_on := NoLed, led_timer := None\<rparr>"

definition end_of_frame :: "framer \<Rightarrow> framer" where
  "end_of_frame s =
     (if 1 < recv_pos s
      then (let s1 = s\<lparr>recv_pos := recv_pos s - 1\<rparr>;
                crc = calc_checksum (recv_buffer s1) (recv_pos s1)
            in if crc = recv_buffer s1 ! unat (recv_pos s1)
               then (if enough_tx_space (recv_pos s1) s1
                     then enable_led False (add_tx_data (recv_buffer s1) (recv_pos s1) (start_tx_frame s1))
                     else s1)
               else enable_led True s1)
      else s)"

text \<open>A character of the UART is its frame error flag and its data.\<close>

type_synonym uart_char = "bool \<times> u8"

definition receive_char :: "uart_char \<Rightarrow> framer \<Rightarrow> framer" where
  "receive_char c s =
     (case c of (frame_error, data) \<Rightarrow>
        let s1 = (if recv_valid s
                  then if frame_error then end_of_frame s
                       else if unat (recv_pos s) < RECV_BUF_SIZE
                       then s\<lparr>recv_buffer := (recv_buffer s)[unat (recv_pos s) := data],
                              recv_pos := recv_pos s + 1\<rparr>
                       else s
                  else s)
        in if frame_error then s1\<lparr>recv_pos := 0, recv_valid := True\<rparr> else s1)"

text \<open>
  The receive interrupt takes all characters that are there.  The main loop is cut where an
  interrupt can come between: its test, the write to the UART, and the advance of the position.
\<close>

definition uart_isr :: "uart_char list \<Rightarrow> framer \<Rightarrow> framer" where
  "uart_isr cs s = fold receive_char cs s"

datatype main_pc = Test | Write | Advance

fun main_step :: "framer \<times> main_pc \<Rightarrow> (framer \<times> main_pc) \<times> bytes" where
  "main_step (s, Test) = ((s, if tx_write_pos s \<noteq> tx_read_pos s then Write else Test), [])"
| "main_step (s, Write) = ((s, Advance), [tx_buffer s ! unat (tx_read_pos s)])"
| "main_step (s, Advance) = ((s\<lparr>tx_read_pos := wrap_pos (tx_read_pos s + 1)\<rparr>, Test), [])"

text \<open>All interleavings: the characters received and the bytes sent so far.\<close>

inductive framer_run :: "uart_char list \<Rightarrow> bytes \<Rightarrow> framer \<times> main_pc \<Rightarrow> bool" where
  power_on: "framer_run [] [] (framer_init, Test)"
| receive_interrupt: "framer_run cs out (s, pc) \<Longrightarrow> framer_run (cs @ cs') out (uart_isr cs' s, pc)"
| timer_interrupt: "framer_run cs out (s, pc) \<Longrightarrow> framer_run cs out (led_timeout s, pc)"
| main_loop: "framer_run cs out st \<Longrightarrow> main_step st = (st', sent) \<Longrightarrow> framer_run cs (out @ sent) st'"

section \<open>The ring buffer is a queue\<close>

text \<open>Arithmetic of positions in a ring of \<open>n\<close> places.\<close>

definition distance_in :: "nat \<Rightarrow> nat \<Rightarrow> nat \<Rightarrow> nat" where
  "distance_in n r w = (w + n - r) mod n"

lemma distance_cases:
  "w < n \<Longrightarrow> r < n \<Longrightarrow> distance_in n r w = (if r \<le> w then w - r else w + n - r)"
proof (cases "r \<le> w")
  case True
  moreover assume "w < n" "r < n"
  moreover from True have "w + n - r = n + (w - r)" by simp
  ultimately show ?thesis unfolding distance_in_def by (simp only: mod_add_self1) simp
qed (simp add: distance_in_def)

lemma distance_end: "w < n \<Longrightarrow> r < n \<Longrightarrow> (r + distance_in n r w) mod n = w"
  by (simp add: distance_cases)

lemma distance_below: "w < n \<Longrightarrow> r < n \<Longrightarrow> i < distance_in n r w \<Longrightarrow> (r + i) mod n \<noteq> w"
  by (cases "r + i < n") (auto simp: distance_cases le_mod_geq split: if_splits)

lemma distance_grow:
  "w < n \<Longrightarrow> r < n \<Longrightarrow> distance_in n r w < n - 1 \<Longrightarrow> distance_in n r ((w + 1) mod n) = distance_in n r w + 1"
  by (cases "w + 1 = n") (auto simp: distance_cases split: if_splits)

lemma distance_shrink:
  "w < n \<Longrightarrow> r < n \<Longrightarrow> 0 < distance_in n r w \<Longrightarrow> distance_in n r w = Suc (distance_in n ((r + 1) mod n) w)"
  by (cases "r + 1 = n") (auto simp: distance_cases split: if_splits)

definition ring_length :: "framer \<Rightarrow> nat" where
  "ring_length s = distance_in TRANSMIT_BUF_SIZE (unat (tx_read_pos s)) (unat (tx_write_pos s))"

definition ring :: "framer \<Rightarrow> bytes" where
  "ring s = map (\<lambda>i. tx_buffer s ! ((unat (tx_read_pos s) + i) mod TRANSMIT_BUF_SIZE)) [0 ..< ring_length s]"

definition framer_ok :: "framer \<Rightarrow> bool" where
  "framer_ok s \<longleftrightarrow> length (recv_buffer s) = RECV_BUF_SIZE \<and> unat (recv_pos s) \<le> RECV_BUF_SIZE
     \<and> length (tx_buffer s) = TRANSMIT_BUF_SIZE \<and> unat (tx_write_pos s) < TRANSMIT_BUF_SIZE
     \<and> unat (tx_read_pos s) < TRANSMIT_BUF_SIZE"

lemmas sizes = RECV_BUF_SIZE_def TRANSMIT_BUF_SIZE_def

lemma unat_wrap_pos:
  assumes "unat pos < TRANSMIT_BUF_SIZE"
  shows "unat (wrap_pos (pos + 1)) = (unat pos + 1) mod TRANSMIT_BUF_SIZE"
proof -
  have "unat (pos + 1) = unat pos + 1"
    using assms by (simp add: unat_word_ariths sizes)
  moreover have "(unat pos + 1) mod TRANSMIT_BUF_SIZE = (if unat pos + 1 = TRANSMIT_BUF_SIZE then 0 else unat pos + 1)"
    using assms by simp
  ultimately show ?thesis
    using assms by (simp add: wrap_pos_def word_le_nat_alt sizes)
qed

lemma length_ring [simp]: "length (ring s) = ring_length s"
  by (simp add: ring_def)

lemma ring_length_less: "ring_length s < TRANSMIT_BUF_SIZE"
  by (simp add: ring_length_def distance_in_def sizes)

text \<open>The contract the receive interrupt needs of its queue.\<close>

locale byte_queue =
  fixes put :: "u8 \<Rightarrow> 's \<Rightarrow> 's"
    and contents :: "'s \<Rightarrow> bytes"
    and ok :: "'s \<Rightarrow> bool"
    and capacity :: nat
  assumes put_contents: "ok s \<Longrightarrow> length (contents s) < capacity \<Longrightarrow> contents (put b s) = contents s @ [b]"
    and put_ok: "ok s \<Longrightarrow> ok (put b s)"
begin

lemma put_all:
  "ok s \<Longrightarrow> length (contents s) + length bs \<le> capacity \<Longrightarrow>
     contents (fold put bs s) = contents s @ bs \<and> ok (fold put bs s)"
proof (induction bs arbitrary: s)
  case (Cons b bs)
  then show ?case
    using put_contents [of s b] put_ok [of s b] by simp
qed simp

end

lemma ring_put:
  assumes "framer_ok s" and "length (ring s) < TRANSMIT_BUF_SIZE - 1"
  shows "ring (copy_to_tx_buffer b s) = ring s @ [b]"
proof -
  let ?w = "unat (tx_write_pos s)" and ?r = "unat (tx_read_pos s)" and ?n = TRANSMIT_BUF_SIZE
  have b: "?w < ?n" "?r < ?n" "length (tx_buffer s) = ?n" and l: "ring_length s < ?n - 1"
    using assms by (simp_all add: framer_ok_def)
  have len: "ring_length (copy_to_tx_buffer b s) = ring_length s + 1"
    using distance_grow [OF b(1,2)] l unat_wrap_pos [OF b(1)]
    by (simp add: ring_length_def copy_to_tx_buffer_def)
  have "map (\<lambda>i. (tx_buffer s)[?w := b] ! ((?r + i) mod ?n)) [0 ..< ring_length s] = ring s"
    unfolding ring_def using distance_below [OF b(1,2)]
    by (intro map_cong refl nth_list_update_neq) (metis atLeastLessThan_iff ring_length_def set_upt)
  then show ?thesis
    using len distance_end [OF b(1,2)] b by (simp add: ring_def ring_length_def copy_to_tx_buffer_def)
qed

lemma copy_ok: "framer_ok s \<Longrightarrow> framer_ok (copy_to_tx_buffer b s)"
  by (simp add: framer_ok_def copy_to_tx_buffer_def unat_wrap_pos sizes)

interpretation tx_queue: byte_queue copy_to_tx_buffer ring framer_ok "TRANSMIT_BUF_SIZE - 1"
  by unfold_locales (simp_all add: ring_put copy_ok del: length_ring)

lemma ring_advance:
  assumes "framer_ok s" and "ring s \<noteq> []"
  shows "ring (s\<lparr>tx_read_pos := wrap_pos (tx_read_pos s + 1)\<rparr>) = tl (ring s)"
    and "hd (ring s) = tx_buffer s ! unat (tx_read_pos s)"
    and "framer_ok (s\<lparr>tx_read_pos := wrap_pos (tx_read_pos s + 1)\<rparr>)"
proof -
  let ?w = "unat (tx_write_pos s)" and ?r = "unat (tx_read_pos s)" and ?n = TRANSMIT_BUF_SIZE
  let ?s = "s\<lparr>tx_read_pos := wrap_pos (tx_read_pos s + 1)\<rparr>"
  have b: "?w < ?n" "?r < ?n" and l: "0 < ring_length s"
    using assms by (auto simp: framer_ok_def ring_def)
  have len: "ring_length s = Suc (ring_length ?s)"
    using distance_shrink [OF b(1,2)] l unat_wrap_pos [OF b(2)] by (simp add: ring_length_def)
  have i: "((?r + 1) mod ?n + i) mod ?n = (?r + Suc i) mod ?n" for i
    by (simp add: mod_simps)
  have "ring s = tx_buffer s ! (?r mod ?n) #
      map (\<lambda>i. tx_buffer s ! ((?r + Suc i) mod ?n)) [0 ..< ring_length ?s]"
    unfolding ring_def len by (simp add: upt_conv_Cons map_Suc_upt [symmetric] del: upt_Suc)
  then show "ring ?s = tl (ring s)" "hd (ring s) = tx_buffer s ! ?r"
    using b(2) unat_wrap_pos [OF b(2)] i by (simp_all add: ring_def)
  show "framer_ok ?s"
    using assms(1) by (simp add: framer_ok_def unat_wrap_pos sizes)
qed

lemma ring_empty_iff: "framer_ok s \<Longrightarrow> ring s = [] \<longleftrightarrow> tx_write_pos s = tx_read_pos s"
  by (auto simp: ring_def ring_length_def distance_cases framer_ok_def word_le_nat_alt word_unat_eq_iff split: if_splits)

section \<open>The interrupt refines a queue of frames\<close>

text \<open>
  The specification: the bytes since the last frame error, none before the first, and the queue of
  bytes for the collector.  A frame error ends a telegram, which is queued as a frame when its CRC
  is right and there is room.
\<close>

definition crc :: "bytes \<Rightarrow> u8" where
  "crc d = fold (\<lambda>b c. crc_step c b) d 0"

definition bus_telegram :: "bytes \<Rightarrow> bool" where
  "bus_telegram bs \<longleftrightarrow> 1 < length bs \<and> crc (butlast bs) = last bs"

type_synonym framer_spec = "bytes option \<times> bytes"

definition spec_receive :: "uart_char \<Rightarrow> framer_spec \<Rightarrow> framer_spec" where
  "spec_receive c q =
     (case (c, q) of
        ((frame_error, data), (None, out)) \<Rightarrow> (if frame_error then Some [] else None, out)
      | ((frame_error, data), (Some bs, out)) \<Rightarrow>
          if frame_error
          then (Some [], if bus_telegram bs \<and> length out + length (serial_frame (butlast bs)) < TRANSMIT_BUF_SIZE
                         then out @ serial_frame (butlast bs) else out)
          else (Some (if length bs < RECV_BUF_SIZE then bs @ [data] else bs), out))"

definition framer_abs :: "framer \<Rightarrow> framer_spec" where
  "framer_abs s = (if recv_valid s then Some (take (unat (recv_pos s)) (recv_buffer s)) else None, ring s)"

lemma frame_length: "length (serial_frame d) = length d + 4"
  by (simp add: serial_frame_def)

lemma fold_with_checksum:
  "fold (\<lambda>b (s, c). (copy_to_tx_buffer b s, c XOR b)) bs (s, a) = (fold copy_to_tx_buffer bs s, a XOR xor_sum bs)"
  by (induction bs arbitrary: s a) (simp_all add: xor.assoc)

lemma send_frame_fold:
  assumes "unat len \<le> length buffer"
  shows "add_tx_data buffer len (start_tx_frame s) = fold copy_to_tx_buffer (serial_frame (take (unat len) buffer)) s"
  using assms by (simp add: add_tx_data_def start_tx_frame_def fold_with_checksum serial_frame_def min_absorb2)

lemma led_frame [simp]:
  "ring (enable_led f s) = ring s" "framer_ok (enable_led f s) = framer_ok s"
  "ring (led_timeout s) = ring s" "framer_ok (led_timeout s) = framer_ok s"
  "recv_valid (enable_led f s) = recv_valid s" "recv_valid (led_timeout s) = recv_valid s"
  "recv_pos (led_timeout s) = recv_pos s" "recv_buffer (led_timeout s) = recv_buffer s"
  by (simp_all add: enable_led_def led_timeout_def ring_def ring_length_def framer_ok_def)

lemma recv_frame [simp]:
  "ring (s\<lparr>recv_pos := p\<rparr>) = ring s" "ring (s\<lparr>recv_valid := v\<rparr>) = ring s" "ring (s\<lparr>recv_buffer := b\<rparr>) = ring s"
  "framer_ok (s\<lparr>recv_valid := v\<rparr>) = framer_ok s"
  by (simp_all add: ring_def ring_length_def framer_ok_def)

lemma enough_tx_space_iff:
  assumes "framer_ok s" and "unat needed \<le> RECV_BUF_SIZE"
  shows "enough_tx_space needed s \<longleftrightarrow> length (ring s) + (unat needed + 5) \<le> TRANSMIT_BUF_SIZE"
proof -
  have "unat (needed + 5) = unat needed + 5"
    using assms(2) by (simp add: unat_word_ariths sizes)
  moreover have "unat (tx_write_pos s) < 250" "unat (tx_read_pos s) < 250"
    using assms(1) by (simp_all add: framer_ok_def sizes)
  moreover have "unat (250 - (tx_write_pos s - tx_read_pos s)) = 250 - (unat (tx_write_pos s) - unat (tx_read_pos s))"
    if "tx_read_pos s \<le> tx_write_pos s"
  proof -
    have w: "unat (tx_write_pos s - tx_read_pos s) = unat (tx_write_pos s) - unat (tx_read_pos s)"
      using that by (rule unat_sub)
    then have "tx_write_pos s - tx_read_pos s \<le> 250"
      using assms(1) by (auto simp: word_le_nat_alt framer_ok_def sizes)
    from unat_sub [OF this] w show ?thesis by simp
  qed
  ultimately show ?thesis
    by (auto simp: enough_tx_space_def Let_def word_le_nat_alt ring_length_def distance_cases sizes unat_sub)
qed

lemma end_of_frame_refines:
  assumes ok: "framer_ok s" and v: "recv_valid s"
  shows "ring (end_of_frame s) = snd (spec_receive (True, d) (framer_abs s))"
    and "framer_ok (end_of_frame s)"
proof -
  let ?bs = "take (unat (recv_pos s)) (recv_buffer s)"
  have l: "length ?bs = unat (recv_pos s)" "unat (recv_pos s) \<le> RECV_BUF_SIZE"
    using ok by (simp_all add: framer_ok_def)
  have "ring (end_of_frame s) = snd (spec_receive (True, d) (framer_abs s)) \<and> framer_ok (end_of_frame s)"
  proof (cases "1 < unat (recv_pos s)")
    case False
    then show ?thesis
      using v ok l by (simp add: end_of_frame_def word_less_nat_alt spec_receive_def framer_abs_def bus_telegram_def)
  next
    case True
    let ?s = "s\<lparr>recv_pos := recv_pos s - 1\<rparr>" and ?d = "butlast ?bs"
    have p: "unat (recv_pos s - 1) = unat (recv_pos s) - 1"
      using True by (simp add: unat_sub word_le_nat_alt)
    have d: "take (unat (recv_pos s - 1)) (recv_buffer s) = ?d" "recv_buffer s ! unat (recv_pos s - 1) = last ?bs"
      "length ?d = unat (recv_pos s) - 1"
      using True ok p butlast_take [of "unat (recv_pos s)" "recv_buffer s"] last_conv_nth [of ?bs]
      by (cases "recv_buffer s = []"; auto simp: framer_ok_def sizes)+
    have ok': "framer_ok ?s" using ok p by (auto simp: framer_ok_def intro: le_trans [OF diff_le_self])
    have c: "calc_checksum (recv_buffer s) (recv_pos s - 1) = crc ?d"
      by (simp add: calc_checksum_def crc_def d(1))
    have t: "bus_telegram ?bs \<longleftrightarrow> crc ?d = recv_buffer s ! unat (recv_pos s - 1)"
      using True l by (simp add: bus_telegram_def d(2))
    have e: "enough_tx_space (recv_pos s - 1) ?s \<longleftrightarrow> length (ring s) + length (serial_frame ?d) < TRANSMIT_BUF_SIZE"
      using enough_tx_space_iff [OF ok', of "recv_pos s - 1"] p l True by (simp add: frame_length d(3)) linarith
    have "unat (recv_pos s) - 1 \<le> length (recv_buffer s)"
      using ok by (auto simp: framer_ok_def)
    then have a: "add_tx_data (recv_buffer s) (recv_pos s - 1) (start_tx_frame ?s) = fold copy_to_tx_buffer (serial_frame ?d) ?s"
      using send_frame_fold [of "recv_pos s - 1" "recv_buffer s" ?s] d(1) p by simp
    have q: "length (ring s) + length (serial_frame ?d) < TRANSMIT_BUF_SIZE \<Longrightarrow>
        ring (fold copy_to_tx_buffer (serial_frame ?d) ?s) = ring s @ serial_frame ?d
        \<and> framer_ok (fold copy_to_tx_buffer (serial_frame ?d) ?s)"
      using tx_queue.put_all [OF ok', of "serial_frame ?d"] by simp
    show ?thesis
      using True v ok' q unfolding end_of_frame_def Let_def
      by (simp add: word_less_nat_alt spec_receive_def framer_abs_def t [symmetric] c e a)
  qed
  then show "ring (end_of_frame s) = snd (spec_receive (True, d) (framer_abs s))" "framer_ok (end_of_frame s)"
    by simp_all
qed

lemma receive_refines:
  assumes ok: "framer_ok s"
  shows "framer_abs (receive_char c s) = spec_receive c (framer_abs s)" and "framer_ok (receive_char c s)"
proof -
  obtain fe d where c: "c = (fe, d)" by (cases c)
  have sp: "spec_receive (True, d) (framer_abs s) = (Some [], snd (spec_receive (True, d) (framer_abs s)))"
    by (simp add: spec_receive_def framer_abs_def)
  have r: "unat (recv_pos s + 1) = unat (recv_pos s) + 1" if "unat (recv_pos s) < RECV_BUF_SIZE"
    using that by (simp add: unat_word_ariths sizes)
  have "framer_abs (receive_char c s) = spec_receive c (framer_abs s) \<and> framer_ok (receive_char c s)"
  proof (cases fe)
    case True
    show ?thesis
    proof (cases "recv_valid s")
      case v: True
      have "framer_ok (end_of_frame s\<lparr>recv_pos := 0\<rparr>)"
        using end_of_frame_refines(2) [OF ok v] by (simp add: framer_ok_def)
      then show ?thesis
        using c True v sp end_of_frame_refines(1) [OF ok v, of d]
        by (simp add: receive_char_def framer_abs_def [of "_\<lparr>recv_valid := _\<rparr>"])
    next
      case False
      then show ?thesis
        using c True ok by (simp add: receive_char_def framer_abs_def spec_receive_def) (simp add: framer_ok_def)
    qed
  next
    case False
    then show ?thesis
      using c ok r by (auto simp: receive_char_def framer_abs_def spec_receive_def framer_ok_def take_Suc_conv_app_nth)
  qed
  then show "framer_abs (receive_char c s) = spec_receive c (framer_abs s)" "framer_ok (receive_char c s)"
    by simp_all
qed

lemma isr_refines:
  "framer_ok s \<Longrightarrow> framer_abs (uart_isr cs s) = fold spec_receive cs (framer_abs s) \<and> framer_ok (uart_isr cs s)"
  unfolding uart_isr_def by (induction cs arbitrary: s) (simp_all add: receive_refines)

lemma framer_ok_init: "framer_ok framer_init" and ring_init: "ring framer_init = []"
  by (simp_all add: framer_ok_def framer_init_def ring_def ring_length_def distance_in_def sizes)

section \<open>What the collector gets\<close>

text \<open>The telegrams in a stream of characters; a telegram is cut off at the size of the buffer.\<close>

fun telegrams_from :: "bytes option \<Rightarrow> uart_char list \<Rightarrow> bytes list" where
  "telegrams_from cur [] = []"
| "telegrams_from None ((fe, b) # cs) = telegrams_from (if fe then Some [] else None) cs"
| "telegrams_from (Some bs) ((fe, b) # cs) =
     (if fe then (if bus_telegram bs then [butlast bs] else []) @ telegrams_from (Some []) cs
      else telegrams_from (Some (if length bs < RECV_BUF_SIZE then bs @ [b] else bs)) cs)"

definition bus_telegrams :: "uart_char list \<Rightarrow> bytes list" where
  "bus_telegrams cs = telegrams_from None cs"

lemma butlast_nonempty: "Suc 0 < length bs \<Longrightarrow> butlast bs \<noteq> []"
  by (cases bs) auto

lemma telegrams_from_sizes:
  "d \<in> set (telegrams_from cur cs) \<Longrightarrow> (\<And>bs. cur = Some bs \<Longrightarrow> length bs \<le> RECV_BUF_SIZE) \<Longrightarrow>
     0 < length d \<and> length d < RECV_BUF_SIZE"
  by (induction cur cs rule: telegrams_from.induct)
    (auto simp: bus_telegram_def sizes butlast_nonempty split: if_splits)

lemma telegram_sizes: "d \<in> set (bus_telegrams cs) \<Longrightarrow> rx_sendable d"
  using telegrams_from_sizes [of d None cs] by (simp add: bus_telegrams_def rx_sendable_def sizes)

text \<open>The current telegram does not depend on the queue.\<close>

fun current_from :: "bytes option \<Rightarrow> uart_char list \<Rightarrow> bytes option" where
  "current_from cur [] = cur"
| "current_from cur (c # cs) = current_from (fst (spec_receive c (cur, []))) cs"

lemma spec_receive_fst: "fst (spec_receive c (cur, q)) = fst (spec_receive c (cur, q'))"
  by (auto simp: spec_receive_def split: prod.splits option.splits)

lemma telegrams_from_Cons:
  "telegrams_from cur (c # cs) = telegrams_from cur [c] @ telegrams_from (current_from cur [c]) cs"
  by (cases c; cases cur) (auto simp: spec_receive_def)

lemma current_from_append: "current_from cur (cs @ cs') = current_from (current_from cur cs) cs'"
  by (induction cs arbitrary: cur) simp_all

lemma telegrams_from_append:
  "telegrams_from cur (cs @ cs') = telegrams_from cur cs @ telegrams_from (current_from cur cs) cs'"
proof (induction cs arbitrary: cur)
  case (Cons c cs)
  have "telegrams_from cur ((c # cs) @ cs') = telegrams_from cur [c] @ telegrams_from (current_from cur [c]) (cs @ cs')"
    by (simp only: append_Cons telegrams_from_Cons [of cur c "cs @ cs'"])
  then show ?case
    using Cons.IH [of "current_from cur [c]"] telegrams_from_Cons [of cur c cs] by simp
qed simp

text \<open>One interrupt queues frames of some of the telegrams that end in it, of all when they fit.\<close>

definition frames :: "bytes list \<Rightarrow> bytes" where
  "frames ds = concat (map serial_frame ds)"

lemma frames_simps [simp]: "frames [] = []" "frames (d # ds) = serial_frame d @ frames ds"
  "frames (ds @ es) = frames ds @ frames es"
  by (simp_all add: frames_def)

lemma spec_receive_queue:
  "\<exists>ds. fold spec_receive cs (cur, q) = (current_from cur cs, q @ frames ds) \<and> subseq ds (telegrams_from cur cs)
     \<and> (length q + length (frames (telegrams_from cur cs)) < TRANSMIT_BUF_SIZE \<longrightarrow> ds = telegrams_from cur cs)"
proof (induction cs arbitrary: cur q)
  case Nil
  show ?case by (intro exI [of _ "[]"]) simp
next
  case (Cons c cs)
  obtain ds where ds: "spec_receive c (cur, q) = (current_from cur [c], q @ frames ds)"
    "subseq ds (telegrams_from cur [c])"
    "length q + length (frames (telegrams_from cur [c])) < TRANSMIT_BUF_SIZE \<Longrightarrow> ds = telegrams_from cur [c]"
  proof (cases "\<exists>bs b. c = (True, b) \<and> cur = Some bs \<and> bus_telegram bs
      \<and> length q + length (serial_frame (butlast bs)) < TRANSMIT_BUF_SIZE")
    case True
    then obtain bs b where "c = (True, b)" "cur = Some bs" "bus_telegram bs"
      "length q + length (serial_frame (butlast bs)) < TRANSMIT_BUF_SIZE" by blast
    then show ?thesis by (intro that [of "[butlast bs]"]) (simp_all add: spec_receive_def)
  next
    case False
    then show ?thesis
      by (intro that [of "[]"]; cases c; cases cur) (auto simp: spec_receive_def)
  qed
  obtain es where es: "fold spec_receive cs (current_from cur [c], q @ frames ds) =
      (current_from (current_from cur [c]) cs, (q @ frames ds) @ frames es)"
    "subseq es (telegrams_from (current_from cur [c]) cs)"
    "length (q @ frames ds) + length (frames (telegrams_from (current_from cur [c]) cs)) < TRANSMIT_BUF_SIZE \<Longrightarrow>
       es = telegrams_from (current_from cur [c]) cs"
    using Cons.IH by blast
  have "fold spec_receive (c # cs) (cur, q) = (current_from cur (c # cs), q @ frames (ds @ es))"
    using ds(1) es(1) by simp
  moreover have "subseq (ds @ es) (telegrams_from cur (c # cs))"
    unfolding telegrams_from_Cons [of cur c cs] by (rule list_emb_append_mono [OF ds(2) es(2)])
  moreover have "ds @ es = telegrams_from cur (c # cs)"
    if "length q + length (frames (telegrams_from cur (c # cs))) < TRANSMIT_BUF_SIZE"
    using that ds(3) es(3) unfolding telegrams_from_Cons [of cur c cs] by simp
  ultimately show ?case by blast
qed

text \<open>What is still to be sent: between the write and the advance the first byte is out already.\<close>

definition unsent :: "framer \<times> main_pc \<Rightarrow> bytes" where
  "unsent st = (case st of (s, pc) \<Rightarrow> if pc = Advance then tl (ring s) else ring s)"

definition run_inv :: "uart_char list \<Rightarrow> bytes \<Rightarrow> framer \<times> main_pc \<Rightarrow> bytes list \<Rightarrow> bool" where
  "run_inv cs out st ds \<longleftrightarrow>
     (case st of (s, pc) \<Rightarrow> framer_ok s \<and> fst (framer_abs s) = current_from None cs
        \<and> (pc \<noteq> Test \<longrightarrow> ring s \<noteq> []) \<and> (pc = Advance \<longrightarrow> out \<noteq> []) \<and> out @ unsent st = frames ds \<and> subseq ds (bus_telegrams cs)
        \<and> (length (frames (bus_telegrams cs)) < TRANSMIT_BUF_SIZE \<longrightarrow> ds = bus_telegrams cs))"

lemma main_step_inv:
  assumes "run_inv cs out st ds" and "main_step st = (st', sent)"
  shows "run_inv cs (out @ sent) st' ds"
proof -
  obtain s pc where st: "st = (s, pc)" by (cases st)
  show ?thesis
  proof (cases pc)
    case Test
    then show ?thesis
      using assms st ring_empty_iff [of s] by (auto simp: run_inv_def unsent_def)
  next
    case Write
    then have ne: "framer_ok s" "ring s \<noteq> []" using assms(1) st by (simp_all add: run_inv_def)
    then have "tx_buffer s ! unat (tx_read_pos s) # tl (ring s) = ring s"
      using ring_advance(2) [OF ne] by (metis list.collapse)
    then show ?thesis
      using assms st Write by (auto simp: run_inv_def unsent_def)
  next
    case Advance
    then have ne: "framer_ok s" "ring s \<noteq> []" using assms(1) st by (simp_all add: run_inv_def)
    then show ?thesis
      using assms st Advance ring_advance(1,3) [OF ne] by (auto simp: run_inv_def unsent_def framer_abs_def)
  qed
qed

lemma isr_inv:
  assumes inv: "run_inv cs out (s, pc) ds"
  shows "\<exists>ds'. run_inv (cs @ cs') out (uart_isr cs' s, pc) ds'"
proof -
  let ?cur = "current_from None cs"
  have ok: "framer_ok s" and a: "framer_abs s = (?cur, ring s)"
    using inv by (auto simp: run_inv_def framer_abs_def)
  obtain es where es: "fold spec_receive cs' (?cur, ring s) = (current_from ?cur cs', ring s @ frames es)"
    "subseq es (telegrams_from ?cur cs')"
    "length (ring s) + length (frames (telegrams_from ?cur cs')) < TRANSMIT_BUF_SIZE \<Longrightarrow> es = telegrams_from ?cur cs'"
    using spec_receive_queue by blast
  have s': "framer_abs (uart_isr cs' s) = (current_from ?cur cs', ring s @ frames es)" "framer_ok (uart_isr cs' s)"
    using isr_refines [OF ok, of cs'] a es(1) by simp_all
  have r: "ring (uart_isr cs' s) = ring s @ frames es"
    using s'(1) by (simp add: framer_abs_def)
  have all: "telegrams_from None (cs @ cs') = bus_telegrams cs @ telegrams_from ?cur cs'"
    by (simp add: telegrams_from_append bus_telegrams_def)
  have out: "out @ unsent (uart_isr cs' s, pc) = frames (ds @ es)"
    using inv r by (auto simp: run_inv_def unsent_def)
  have room: "ds @ es = bus_telegrams cs @ telegrams_from ?cur cs'"
    if total: "length (frames (bus_telegrams cs @ telegrams_from ?cur cs')) < TRANSMIT_BUF_SIZE"
  proof -
    have ds: "ds = bus_telegrams cs" using total inv by (auto simp: run_inv_def)
    have "length out + length (unsent (s, pc)) = length (frames ds)" "pc = Advance \<Longrightarrow> out \<noteq> []"
      using inv by (auto simp: run_inv_def simp flip: length_append)
    then have "length (ring s) \<le> length (frames ds)"
      by (cases "pc = Advance"; cases out) (simp_all add: unsent_def)
    then show ?thesis using total es(3) ds by simp
  qed
  have "run_inv (cs @ cs') out (uart_isr cs' s, pc) (ds @ es)"
    unfolding run_inv_def prod.case
    using inv out s' r room es(2) all
    by (auto simp: run_inv_def current_from_append framer_abs_def bus_telegrams_def intro: list_emb_append_mono)
  then show ?thesis ..
qed

lemma framer_run_inv: "framer_run cs out st \<Longrightarrow> \<exists>ds. run_inv cs out st ds"
proof (induction rule: framer_run.induct)
  case power_on
  then show ?case
    using framer_ok_init ring_init
    by (intro exI [of _ "[]"]) (simp add: run_inv_def unsent_def bus_telegrams_def framer_abs_def framer_init_def)
next
  case (receive_interrupt cs out s pc cs')
  then show ?case using isr_inv by blast
next
  case (timer_interrupt cs out s pc)
  then obtain ds where "run_inv cs out (s, pc) ds" by blast
  then have "run_inv cs out (led_timeout s, pc) ds"
    by (auto simp: run_inv_def unsent_def framer_abs_def)
  then show ?case ..
next
  case (main_loop cs out st st' sent)
  then show ?case using main_step_inv by blast
qed

text \<open>The main loop alone.\<close>

primrec main_steps :: "nat \<Rightarrow> framer \<times> main_pc \<Rightarrow> (framer \<times> main_pc) \<times> bytes" where
  "main_steps 0 st = (st, [])"
| "main_steps (Suc n) st =
     (case main_step st of (st', sent) \<Rightarrow> (case main_steps n st' of (st'', sent') \<Rightarrow> (st'', sent @ sent')))"

lemma main_loop_sends:
  "framer_ok s \<Longrightarrow> \<exists>s'. main_steps (3 * length (ring s)) (s, Test) = ((s', Test), ring s)
     \<and> ring s' = [] \<and> framer_ok s'"
proof (induction "length (ring s)" arbitrary: s)
  case 0
  then have "ring s = []" by (simp del: length_ring)
  then show ?case using 0 by (intro exI [of _ s]) simp
next
  case (Suc n)
  let ?s = "s\<lparr>tx_read_pos := wrap_pos (tx_read_pos s + 1)\<rparr>"
  have ne: "ring s \<noteq> []" using Suc.hyps(2) by (auto simp del: length_ring)
  have r: "n = length (ring ?s)" "framer_ok ?s" "ring s = tx_buffer s ! unat (tx_read_pos s) # ring ?s"
    using ring_advance [OF Suc.prems ne] Suc.hyps(2) ne
    by (simp_all del: length_ring) (metis list.collapse)
  obtain s' where s': "main_steps (3 * n) (?s, Test) = ((s', Test), ring ?s)" "ring s' = []" "framer_ok s'"
    using Suc.hyps(1) [OF r(1,2)] r(1) by auto
  have three: "3 * length (ring s) = Suc (Suc (Suc (3 * n)))"
    using Suc.hyps(2) by simp
  have "tx_write_pos s \<noteq> tx_read_pos s" using ring_empty_iff [OF Suc.prems] ne by simp
  then have "main_steps (3 * length (ring s)) (s, Test) = ((s', Test), ring s)"
    unfolding three using s'(1) r(3) by simp
  then show ?case using s' by blast
qed

section \<open>The CRC\<close>

text \<open>
  A step multiplies by x modulo x^8 + x^4 + x^3 + 1 and adds the byte, so it is injective in the
  checksum and in the byte.
\<close>

lemma and_top_bit: "c AND 0x80 \<noteq> 0 \<longleftrightarrow> bit c 7" for c :: u8
proof -
  have "c AND 0x80 = (if bit c 7 then 0x80 else 0)"
    by (rule byte_eqI) (auto simp: bit_simps)
  then show ?thesis by simp
qed

lemma bit_twice: "bit (c * 2) n \<longleftrightarrow> n \<noteq> 0 \<and> n < 8 \<and> bit c (n - 1)" for c :: u8
  using bit_double_iff [of c n] by (auto simp: mult.commute [of c] possible_bit_def)

lemma crc_step_bits:
  "bit (crc_step c b) 0 = (bit c 7 \<noteq> bit b 0)" "bit (crc_step c b) 1 = (bit c 0 \<noteq> bit b 1)"
  "bit (crc_step c b) 2 = (bit c 1 \<noteq> bit b 2)" "bit (crc_step c b) 3 = ((bit c 2 \<noteq> bit c 7) \<noteq> bit b 3)"
  "bit (crc_step c b) 4 = ((bit c 3 \<noteq> bit c 7) \<noteq> bit b 4)" "bit (crc_step c b) 5 = (bit c 4 \<noteq> bit b 5)"
  "bit (crc_step c b) 6 = (bit c 5 \<noteq> bit b 6)" "bit (crc_step c b) 7 = (bit c 6 \<noteq> bit b 7)"
  unfolding crc_step_def Let_def and_top_bit
  by (simp_all add: bit_twice bit_and_iff bit_or_iff bit_xor_iff)

lemma crc_step_inject: "crc_step c b = crc_step c' b \<Longrightarrow> c = c'"
proof -
  assume e: "crc_step c b = crc_step c' b"
  note bits = crc_step_bits [of c b, unfolded e crc_step_bits [of c' b]]
  from bits(1) have 7: "bit c 7 = bit c' 7" by blast
  moreover from bits(2,3) have "bit c 0 = bit c' 0" "bit c 1 = bit c' 1" by blast+
  moreover from bits(4,5) 7 have "bit c 2 = bit c' 2" "bit c 3 = bit c' 3" by blast+
  moreover from bits(6-8) have "bit c 4 = bit c' 4" "bit c 5 = bit c' 5" "bit c 6 = bit c' 6" by blast+
  ultimately show ?thesis by (intro byte_eqI)
qed

lemma crc_step_inject_byte: "crc_step c b = crc_step c b' \<Longrightarrow> b = b'"
  by (simp add: crc_step_def case_prod_beta xor_simps)

lemma crc_append: "crc (as @ bs) = fold (\<lambda>b c. crc_step c b) bs (crc as)"
  by (simp add: crc_def)

lemma crc_fold_inject:
  "fold (\<lambda>b c. crc_step c b) bs c = fold (\<lambda>b c. crc_step c b) bs c' \<Longrightarrow> c = c'"
  by (induction bs arbitrary: c c') (auto dest: crc_step_inject)

lemma bus_telegram_snoc: "bus_telegram (d @ [x]) \<longleftrightarrow> d \<noteq> [] \<and> crc d = x"
  by (simp add: bus_telegram_def)

text \<open>Two telegrams that differ in one place are not both right.\<close>

lemma crc_distance:
  assumes t: "bus_telegram (as @ x # bs)" and "x \<noteq> y"
  shows "\<not> bus_telegram (as @ y # bs)"
proof (cases bs rule: rev_cases)
  case Nil
  then show ?thesis using assms by (auto simp: bus_telegram_snoc)
next
  case (snoc bs' z)
  have "crc (as @ x # bs') \<noteq> crc (as @ y # bs')"
    using assms(2) by (auto simp: crc_append dest!: crc_fold_inject crc_step_inject_byte)
  then show ?thesis
    using t snoc bus_telegram_snoc [of "as @ x # bs'" z] bus_telegram_snoc [of "as @ y # bs'" z] by auto
qed

text \<open>When all is sent, the receiver of the collector makes of the bytes what the telegrams stand for.\<close>

lemma sent_telegrams:
  assumes inv: "run_inv cs out (s, pc) ds" and sent: "tx_write_pos s = tx_read_pos s"
    and events: "\<And>d. d \<in> set (bus_telegrams cs) \<Longrightarrow> telegram_events d = Inr (ev d)"
  shows "\<exists>h. subseq ds (bus_telegrams cs)
     \<and> (length (frames (bus_telegrams cs)) < TRANSMIT_BUF_SIZE \<longrightarrow> ds = bus_telegrams cs)
     \<and> rx_bytes io_init out = Inr (h, concat (map ev ds)) \<and> rx_idle h"
proof -
  have out: "out = frames ds" and sub: "subseq ds (bus_telegrams cs)"
    and all: "length (frames (bus_telegrams cs)) < TRANSMIT_BUF_SIZE \<longrightarrow> ds = bus_telegrams cs"
    using inv sent ring_empty_iff [of s] by (auto simp: run_inv_def unsent_def)
  have mem: "d \<in> set (bus_telegrams cs)" if "d \<in> set ds" for d
    using list_emb_set [OF sub that] by blast
  have "list_all rx_sendable ds"
    using mem telegram_sizes by (auto simp: list_all_iff)
  moreover have "list_all2 (\<lambda>d es. telegram_events d = Inr es) ds (map ev ds)"
    using mem events by (auto simp: list_all2_map2 list_all2_same)
  ultimately obtain h where "rx_bytes io_init (frames ds) = Inr (h, concat (map ev ds))" "rx_idle h"
    using serial_link.feed_frames [OF rx_idle_init] unfolding frames_def by blast
  then show ?thesis using out sub all by auto
qed

section \<open>Properties\<close>

text \<open>
  C4: the receive interrupt refines the queue of frames: on the arrays, positions and 8-bit
  arithmetic of the program every character has the effect the specification gives it, no index
  leaves its array, and the ring buffer is never overrun.
\<close>

theorem framer_refines_queue:
  assumes "framer_ok s"
  shows "framer_abs (receive_char c s) = spec_receive c (framer_abs s) \<and> framer_ok (receive_char c s)"
  using receive_refines [OF assms] by blast

lemma framer_refines_queue_witness:
  "framer_abs (receive_char (True, 0) framer_init) = (Some [], [])"
  using framer_refines_queue [OF framer_ok_init, of "(True, 0)"]
  by (simp add: framer_abs_def ring_init spec_receive_def) (simp add: framer_init_def)

text \<open>
  C3: from the bus to the collector.  In every interleaving of the interrupts and the main loop
  the bytes sent and still queued are the frames of some of the telegrams with a right CRC, in
  order; once all is sent, the receiver of the collector reads exactly these telegrams, however
  the stream is cut.  No telegram is lost as long as their frames fit into the buffer together.
\<close>

theorem bus_to_collector:
  assumes run: "framer_run cs out (s, pc)" and sent: "tx_write_pos s = tx_read_pos s"
    and events: "\<And>d. d \<in> set (bus_telegrams cs) \<Longrightarrow> telegram_events d = Inr (ev d)"
    and chunks: "concat chunks = out"
  shows "\<exists>ds h. subseq ds (bus_telegrams cs)
     \<and> (length (frames (bus_telegrams cs)) < TRANSMIT_BUF_SIZE \<longrightarrow> ds = bus_telegrams cs)
     \<and> run_chunks rx_bytes io_init chunks = Inr (h, concat (map ev ds)) \<and> rx_idle h"
proof -
  obtain ds where "run_inv cs out (s, pc) ds" using framer_run_inv [OF run] ..
  from sent_telegrams [OF this sent events] show ?thesis
    using chunks by (auto simp: serial_link.run_chunks_concat)
qed

lemma main_steps_run:
  "main_steps n st = (st', sent) \<Longrightarrow> framer_run cs out st \<Longrightarrow> framer_run cs (out @ sent) st'"
proof (induction n arbitrary: st out sent)
  case (Suc n)
  then obtain st1 a b where "main_step st = (st1, a)" "main_steps n st1 = (st', b)" "sent = a @ b"
    by (auto split: prod.splits)
  then show ?case
    using Suc.IH [OF _ main_loop [OF Suc.prems(2)]] by fastforce
qed simp

text \<open>The outdoor telegram on the bus, between two breaks.\<close>

definition outdoor_chars :: "uart_char list" where
  "outdoor_chars = [(True, 0)] @ map (Pair False) (outdoor_telegram @ [crc outdoor_telegram]) @ [(True, 0)]"

lemma outdoor_bus: "bus_telegrams outdoor_chars = [outdoor_telegram]"
  by code_simp

lemma outdoor_run:
  "\<exists>s. framer_run outdoor_chars (serial_frame outdoor_telegram) (s, Test) \<and> tx_write_pos s = tx_read_pos s"
proof -
  have run: "framer_run ([] @ outdoor_chars) [] (uart_isr outdoor_chars framer_init, Test)"
    by (rule receive_interrupt [OF power_on])
  let ?s = "uart_isr outdoor_chars framer_init"
  have ok: "framer_ok ?s" using isr_refines [OF framer_ok_init] by blast
  obtain s where s: "main_steps (3 * length (ring ?s)) (?s, Test) = ((s, Test), ring ?s)" "ring s = []" "framer_ok s"
    using main_loop_sends [OF ok] by blast
  have all: "framer_run outdoor_chars (ring ?s) (s, Test)"
    using main_steps_run [OF s(1) run] by simp
  obtain ds where "run_inv outdoor_chars (ring ?s) (s, Test) ds" using framer_run_inv [OF all] ..
  then have "ring ?s = serial_frame outdoor_telegram"
    using s(2) by (simp add: run_inv_def unsent_def outdoor_bus frame_length sizes)
      (simp add: outdoor_telegram_def)
  then show ?thesis using all s(2,3) ring_empty_iff by auto
qed

lemma bus_to_collector_witness:
  "\<exists>h vs. run_chunks rx_bytes io_init [serial_frame outdoor_telegram] = Inr (h, [Values vs]) \<and> rx_idle h"
proof -
  let ?ev = "\<lambda>d :: bytes. [Values [numericValue (NumT IstTemp) Aussen [0, 215] 2 10 True
    (Some INVALID_TEMPERATURE_VALUES)]]"
  obtain s where "framer_run outdoor_chars (serial_frame outdoor_telegram) (s, Test)" "tx_write_pos s = tx_read_pos s"
    using outdoor_run by blast
  from bus_to_collector [OF this, of ?ev "[serial_frame outdoor_telegram]"] show ?thesis
    using outdoor_events by (simp add: outdoor_bus frame_length sizes) (auto simp: outdoor_telegram_def)
qed

text \<open>
  C28: the CRC detects every error in a single byte: of two sequences that differ in one place, the
  CRC byte included, at most one is accepted, so a damaged telegram leads to no frame.
\<close>

theorem crc_detects_byte_error:
  assumes "bus_telegram (as @ x # bs)" and "x \<noteq> y" and "length (as @ x # bs) \<le> RECV_BUF_SIZE"
  shows "bus_telegrams ((True, p) # map (Pair False) (as @ x # bs) @ [(True, q)]) = [butlast (as @ x # bs)]
    \<and> bus_telegrams ((True, p) # map (Pair False) (as @ y # bs) @ [(True, q)]) = []"
proof -
  have collect: "telegrams_from (Some cur) (map (Pair False) ds @ cs) = telegrams_from (Some (cur @ ds)) cs"
    if "length (cur @ ds) \<le> RECV_BUF_SIZE" for cur ds cs
    using that by (induction ds arbitrary: cur) auto
  then have "bus_telegrams ((True, p) # map (Pair False) ds @ [(True, q)]) = (if bus_telegram ds then [butlast ds] else [])"
    if "length ds \<le> RECV_BUF_SIZE" for ds
    using collect [of "[]" ds "[(True, q)]"] that by (simp add: bus_telegrams_def)
  from this [of "as @ x # bs"] this [of "as @ y # bs"] show ?thesis
    using assms crc_distance by simp
qed

lemma crc_detects_byte_error_witness:
  "bus_telegrams ((True, 0) # map (Pair False) ([0x88] @ 0x10 # [crc [0x88, 0x11]]) @ [(True, 0)]) = []"
proof -
  have t: "bus_telegram ([0x88] @ 0x11 # [crc [0x88, 0x11]])"
    by (simp add: bus_telegram_def)
  show ?thesis
    using crc_detects_byte_error [OF t, of "0x10" 0 0] by (simp add: sizes)
qed

text \<open>
  C32: the main loop empties the buffer when no interrupt comes: three of its steps per byte send
  all that is queued, in order, and leave the positions equal.
\<close>

theorem main_loop_drains:
  assumes "framer_ok s"
  shows "\<exists>s'. main_steps (3 * length (ring s)) (s, Test) = ((s', Test), ring s) \<and> tx_write_pos s' = tx_read_pos s'"
  using main_loop_sends [OF assms] ring_empty_iff by blast

lemma main_loop_drains_witness:
  "\<exists>s'. main_steps 6 (start_tx_frame framer_init, Test) = ((s', Test), [0xaa, 0x55]) \<and> tx_write_pos s' = tx_read_pos s'"
proof -
  have "ring (start_tx_frame framer_init) = [0xaa, 0x55]" "framer_ok (start_tx_frame framer_init)"
    using tx_queue.put_all [OF framer_ok_init, of "[0xaa, 0x55]"]
    by (simp_all add: start_tx_frame_def ring_init sizes del: length_ring)
  then show ?thesis using main_loop_drains [of "start_tx_frame framer_init"] by (simp del: length_ring)
qed

end
