(* ===== verification/RecordText.thy ===== *)
theory RecordText
  imports EmsProto
begin

text \<open>
  The text of the wire records (\<open>ApiCommandParser::buildRecordResponse\<close>, one overload per record)
  and the parser of dates (\<open>parseHolidayEntry\<close>).  \<open>boost::lexical_cast\<close> is not part of the
  repository: it is the parameter \<open>lexical_cast\<close>, \<open>None\<close> standing for \<open>bad_lexical_cast\<close>.
\<close>

section \<open>Records as text\<close>

definition format_date_time :: "date_time_record \<Rightarrow> string" where
  "format_date_time t =
     (if dt_valid t
      then fmt_0d 4 (2000 + unat (dt_year t)) @ ''-'' @ fmt_0d 2 (unat (dt_month t)) @ ''-''
         @ fmt_0d 2 (unat (dt_day t)) @ '' '' @ fmt_0d 2 (unat (dt_hour t)) @ '':''
         @ fmt_0d 2 (unat (dt_minute t))
      else ''xxxx-xx-xx xx:xx'')"

definition buildRecordResponse_ErrorRecord :: "error_record \<Rightarrow> string" where
  "buildRecordResponse_ErrorRecord record =
     (if er_ascii record ! 0 = 0 then []
      else format_date_time (er_time record) @ '' '' @ fmt_0x 2 (unat (er_source record)) @ '' ''
         @ [char_of_byte (er_ascii record ! 0), char_of_byte (er_ascii record ! 1)] @ '' ''
         @ fmt_d (unat (BE16_TO_CPU (er_code_be16 record))) @ '' ''
         @ fmt_d (unat (BE16_TO_CPU (er_duration_be16 record))))"

definition buildRecordResponse_ErrorRecord2 :: "error_record2 \<Rightarrow> string" where
  "buildRecordResponse_ErrorRecord2 record =
     (if e2_ascii record ! 0 = 0 then []
      else format_date_time (e2_start record) @ '' - '' @ format_date_time (e2_end record) @ '' ''
         @ fmt_0x 2 (unat (e2_source record)) @ '' ''
         @ [char_of_byte (e2_ascii record ! 0), char_of_byte (e2_ascii record ! 1),
            char_of_byte (e2_ascii record ! 2)] @ '' ''
         @ fmt_d (unat (BE16_TO_CPU (e2_code_be16 record))) @ '' '')"

definition buildRecordResponse_ErrorRecordShort :: "error_record_short \<Rightarrow> string" where
  "buildRecordResponse_ErrorRecordShort record =
     (if es_ascii record ! 0 = 0 then []
      else [char_of_byte (es_ascii record ! 0), char_of_byte (es_ascii record ! 1),
            char_of_byte (es_ascii record ! 2)] @ '' ''
         @ fmt_d (unat (BE16_TO_CPU (es_code_be16 record))) @ '' '')"

definition dayNames :: "string list" where
  "dayNames = [''monday'', ''tuesday'', ''wednesday'', ''thursday'', ''friday'', ''saturday'',
     ''sunday'']"

text \<open>\<open>dayNames\<close> has seven entries and \<open>day / 2\<close> can be 7.\<close>

definition buildRecordResponse_ScheduleEntry :: "schedule_entry \<Rightarrow> string result" where
  "buildRecordResponse_ScheduleEntry entry =
     (if 0x90 \<le> se_time entry then Inr []
      else bindR (vec_index dayNames (unat (se_day entry) div 2)) (\<lambda>day.
        let minutes = unat (se_time entry) * 10
        in Inr (day @ '' '' @ fmt_0d 2 (minutes div 60) @ '':'' @ fmt_0d 2 (minutes mod 60) @ '' ''
             @ (if se_on entry \<noteq> 0 then ''on'' else ''off''))))"

definition format_holiday :: "holiday_entry \<Rightarrow> string" where
  "format_holiday entry =
     fmt_0d 4 (2000 + unat (h_year entry)) @ ''-'' @ fmt_0d 2 (unat (h_month entry)) @ ''-''
       @ fmt_0d 2 (unat (h_day entry))"

definition buildRecordResponse_HolidayEntry :: "string \<Rightarrow> holiday_entry \<Rightarrow> string" where
  "buildRecordResponse_HolidayEntry type entry = type @ '' '' @ format_holiday entry"

section \<open>Dates and switch points from text\<close>

definition parseHolidayEntry :: "(string \<Rightarrow> nat option) \<Rightarrow> string \<Rightarrow> holiday_entry option" where
  "parseHolidayEntry lexical_cast str =
     (case find_from (CHR ''-'') 0 str of None \<Rightarrow> None
      | Some pos \<Rightarrow>
        (case find_from (CHR ''-'') (pos + 1) str of None \<Rightarrow> None
         | Some pos2 \<Rightarrow>
           (case (lexical_cast (substr 0 pos str), lexical_cast (substr (pos + 1) (pos2 - pos - 1) str),
                  lexical_cast (drop (pos2 + 1) str)) of
              (Some year, Some month, Some day) \<Rightarrow>
                (if year < 2000 \<or> 2100 < year \<or> month < 1 \<or> 12 < month \<or> day < 1 \<or> 31 < day
                 then None
                 else Some \<lparr>h_day = of_nat day, h_month = of_nat month, h_year = of_nat (year - 2000)\<rparr>)
            | _ \<Rightarrow> None)))"

text \<open>
  \<open>parseScheduleEntry\<close> after its tokens were read: the day, and time and mode when both were there.
\<close>

fun index_of :: "'a \<Rightarrow> 'a list \<Rightarrow> nat option" where
  "index_of x [] = None"
| "index_of x (y # ys) = (if x = y then Some 0 else map_option Suc (index_of x ys))"

definition parseScheduleEntry ::
    "(string \<Rightarrow> nat option) \<Rightarrow> string \<Rightarrow> (string \<times> string) option \<Rightarrow> schedule_entry option" where
  "parseScheduleEntry lexical_cast day time_mode =
     (if day = ''unset'' then Some \<lparr>se_on = 7, se_day = 0xe, se_time = 0x90\<rparr>
      else case time_mode of None \<Rightarrow> None
      | Some (time, mode) \<Rightarrow>
        if mode \<noteq> ''on'' \<and> mode \<noteq> ''off'' then None
        else (case (index_of day dayNames, find_from (CHR '':'') 0 time) of
            (Some i, Some pos) \<Rightarrow>
              (case (lexical_cast (substr 0 pos time), lexical_cast (drop (pos + 1) time)) of
                 (Some hours, Some minutes) \<Rightarrow>
                   (if 23 < hours \<or> 60 \<le> minutes \<or> minutes mod 10 \<noteq> 0 then None
                    else Some \<lparr>se_on = (if mode = ''on'' then 1 else 0), se_day = 2 * of_nat i,
                               se_time = of_nat ((hours * 60 + minutes) div 10)\<rparr>)
               | _ \<Rightarrow> None)
          | _ \<Rightarrow> None))"

section \<open>Numbers with leading zeros\<close>

text \<open>The documented behaviour of \<open>lexical_cast\<close> the date parser relies on.\<close>

definition reads_decimals :: "(string \<Rightarrow> nat option) \<Rightarrow> bool" where
  "reads_decimals lexical_cast \<longleftrightarrow>
     (\<forall>s. s \<noteq> [] \<and> list_all is_digit s \<and> nat_of_dec s < 2 ^ 32 \<longrightarrow> lexical_cast s = Some (nat_of_dec s))"

lemma nat_of_dec_zeros: "nat_of_dec (replicate k (CHR ''0'') @ s) = nat_of_dec s"
  unfolding nat_of_dec_def by (induction k) (simp_all add: digit_value_def)

lemma fmt_0d_number:
  assumes "reads_decimals lexical_cast" and "n < 2 ^ 32"
  shows "lexical_cast (fmt_0d w n) = Some n"
proof -
  have "fmt_0d w n \<noteq> []" by (simp add: fmt_0d_def pad_left_def)
  moreover have "list_all is_digit (fmt_0d w n)"
    using dec_of_nat_digits [of _ n]
    by (auto simp: fmt_0d_def pad_left_def list_all_iff is_digit_def)
  moreover have "nat_of_dec (fmt_0d w n) = n"
    by (simp add: fmt_0d_def pad_left_def nat_of_dec_zeros)
  ultimately show ?thesis using assms by (simp add: reads_decimals_def)
qed

lemma fmt_0d_no_char: "\<not> is_digit c \<Longrightarrow> c \<notin> set (fmt_0d w n)"
  using dec_of_nat_digits [of c n] by (auto simp: fmt_0d_def pad_left_def is_digit_def)

lemma find_second:
  assumes "c \<notin> set xs" and "c \<notin> set ys"
  shows "find_from c 0 (xs @ c # ys @ c # zs) = Some (length xs)"
    and "find_from c (length xs + 1) (xs @ c # ys @ c # zs) = Some (length xs + 1 + length ys)"
  using assms by (simp_all add: find_from_def find_char_append)

lemma parse_format_holiday:
  assumes cast: "reads_decimals lexical_cast"
    and year: "unat (h_year e) \<le> 100" and month: "1 \<le> unat (h_month e)" "unat (h_month e) \<le> 12"
    and day: "1 \<le> unat (h_day e)" "unat (h_day e) \<le> 31"
  shows "parseHolidayEntry lexical_cast (format_holiday e) = Some e"
proof -
  let ?y = "fmt_0d 4 (2000 + unat (h_year e))" and ?m = "fmt_0d 2 (unat (h_month e))"
    and ?d = "fmt_0d 2 (unat (h_day e))"
  have s: "format_holiday e = ?y @ CHR ''-'' # ?m @ CHR ''-'' # ?d"
    by (simp add: format_holiday_def)
  have nd: "\<not> is_digit (CHR ''-'')" by (simp add: is_digit_def)
  note f = find_second [OF fmt_0d_no_char [OF nd] fmt_0d_no_char [OF nd], of 4 _ 2]
  have "lexical_cast ?y = Some (2000 + unat (h_year e))" "lexical_cast ?m = Some (unat (h_month e))"
    "lexical_cast ?d = Some (unat (h_day e))"
    using year month day by (simp_all add: fmt_0d_number [OF cast])
  then show ?thesis
    using year month day unfolding parseHolidayEntry_def s f(1) option.case f(2)
    by (simp add: substr_def)
qed

text \<open>
  a maintenance or holiday date that is written out is parsed back to the same entry, for every
  date the parser can accept.
\<close>

theorem holiday_roundtrip:
  assumes cast: "reads_decimals lexical_cast"
    and year: "unat (h_year e) \<le> 100" and month: "1 \<le> unat (h_month e)" "unat (h_month e) \<le> 12"
    and day: "1 \<le> unat (h_day e)" "unat (h_day e) \<le> 31"
  shows "parseHolidayEntry lexical_cast (format_holiday e) = Some e"
  using assms by (rule parse_format_holiday)

lemma reads_decimals_example:
  "reads_decimals (\<lambda>s. if s \<noteq> [] \<and> list_all is_digit s \<and> nat_of_dec s < 2 ^ 32 then Some (nat_of_dec s)
     else None)"
  by (simp add: reads_decimals_def)

lemma holiday_roundtrip_witness:
  "\<exists>cast. reads_decimals cast \<and>
     parseHolidayEntry cast (format_holiday \<lparr>h_day = 1, h_month = 12, h_year = 23\<rparr>)
       = Some \<lparr>h_day = 1, h_month = 12, h_year = 23\<rparr>"
  using holiday_roundtrip [OF reads_decimals_example, of "\<lparr>h_day = 1, h_month = 12, h_year = 23\<rparr>"]
    reads_decimals_example by (intro exI conjI) simp_all

lemma parse_holiday_range:
  assumes "parseHolidayEntry lexical_cast str = Some e"
  shows "unat (h_year e) \<le> 100 \<and> unat (h_month e) \<in> {1..12} \<and> unat (h_day e) \<in> {1..31}"
proof -
  have u: "unat (of_nat n :: u8) = n" if "n < 256" for n
    using that by (simp add: unat_of_nat take_bit_nat_eq_self)
  show ?thesis
    using assms
    by (auto simp: parseHolidayEntry_def u simp del: of_nat_diff split: option.splits if_splits)
qed

text \<open>
  a date that is accepted lies within 2000 to 2100, month and day in their ranges, so no field
  is truncated when it is stored in a byte.
\<close>

theorem parseHolidayEntry_bounds:
  assumes "parseHolidayEntry lexical_cast str = Some e"
  shows "unat (h_year e) \<le> 100 \<and> unat (h_month e) \<in> {1..12} \<and> unat (h_day e) \<in> {1..31}"
  using assms by (rule parse_holiday_range)

lemma parseHolidayEntry_bounds_witness:
  "unat (h_year \<lparr>h_day = 1, h_month = 12, h_year = 23\<rparr>) \<le> 100"
  using parseHolidayEntry_bounds [OF parse_format_holiday [OF reads_decimals_example,
    of "\<lparr>h_day = 1, h_month = 12, h_year = 23\<rparr>"]] by simp

end
