(* ===== verification/IStream.thy ===== *)
theory IStream
  imports Float32
begin

text \<open>
  The formatted input of \<open>std::istream\<close> that the command parser uses: \<open>>>\<close> into a string, an
  \<open>unsigned int\<close>, a \<open>bool\<close> and a \<open>float\<close>, the state bits \<open>eofbit\<close> and \<open>failbit\<close>, and
  \<open>std::getline\<close> as it is used to drop the rest of a line.  Integers follow the standard library
  of the compiler: with \<open>basefield\<close> cleared a prefix selects base 8 or 16, a sign is accepted
  also for unsigned types (and negates modulo 2^32), an overflow sets \<open>failbit\<close>.  A variable that
  a failed extraction leaves alone is not used by the code; the model returns 0 or the empty
  string for it.
\<close>

record istream =
  is_rest :: string
  is_eof :: bool
  is_fail :: bool
  is_base0 :: bool

definition stream_of :: "string \<Rightarrow> istream" where
  "stream_of s = \<lparr>is_rest = s, is_eof = False, is_fail = False, is_base0 = False\<rparr>"

definition is_space :: "char \<Rightarrow> bool" where
  "is_space c \<longleftrightarrow> of_char c = (32::nat) \<or> (9 \<le> (of_char c :: nat) \<and> of_char c \<le> (13::nat))"

text \<open>The sentry of a formatted extraction: skips white space, fails at the end.\<close>

definition sentry :: "istream \<Rightarrow> bool \<times> istream" where
  "sentry s =
     (if is_eof s \<or> is_fail s then (False, s\<lparr>is_fail := True\<rparr>)
      else let r = dropWhile is_space (is_rest s)
           in if r = [] then (False, s\<lparr>is_rest := [], is_eof := True, is_fail := True\<rparr>)
              else (True, s\<lparr>is_rest := r\<rparr>))"

definition read_string :: "istream \<Rightarrow> string \<times> istream" where
  "read_string s =
     (case sentry s of
        (False, s') \<Rightarrow> ([], s')
      | (True, s') \<Rightarrow>
          (let r = dropWhile (\<lambda>c. \<not> is_space c) (is_rest s')
           in (takeWhile (\<lambda>c. \<not> is_space c) (is_rest s'), s'\<lparr>is_rest := r, is_eof := (r = [])\<rparr>)))"

section \<open>Integers\<close>

fun take_sign :: "string \<Rightarrow> bool \<times> string" where
  "take_sign [] = (False, [])"
| "take_sign (c # cs) =
     (if c = CHR ''-'' then (True, cs) else if c = CHR ''+'' then (False, cs) else (False, c # cs))"

text \<open>The base, whether a zero was already read, and the rest.\<close>

fun take_prefix :: "bool \<Rightarrow> string \<Rightarrow> nat \<times> bool \<times> string" where
  "take_prefix True (c # cs) =
     (if c = CHR ''0''
      then (case cs of
              x # cs' \<Rightarrow> if x = CHR ''x'' \<or> x = CHR ''X'' then (16, False, cs') else (8, True, cs)
            | [] \<Rightarrow> (8, True, cs))
      else (10, False, c # cs))"
| "take_prefix _ cs = (10, False, cs)"

definition digit_in :: "nat \<Rightarrow> char \<Rightarrow> nat option" where
  "digit_in base c =
     (let k = of_char c;
          d = (if 48 \<le> k \<and> k \<le> 57 then k - 48 else if 97 \<le> k \<and> k \<le> 102 then k - 87
               else if 65 \<le> k \<and> k \<le> 70 then k - 55 else 99)
      in if d < base then Some d else None)"

fun take_digits :: "nat \<Rightarrow> string \<Rightarrow> nat list \<times> string" where
  "take_digits base [] = ([], [])"
| "take_digits base (c # cs) =
     (case digit_in base c of
        None \<Rightarrow> ([], c # cs)
      | Some d \<Rightarrow> (case take_digits base cs of (ds, r) \<Rightarrow> (d # ds, r)))"

definition digits_value :: "nat \<Rightarrow> nat list \<Rightarrow> nat" where
  "digits_value base ds = fold (\<lambda>d n. base * n + d) ds 0"

text \<open>Sign and magnitude, \<open>None\<close> when there is no digit, and the rest.\<close>

definition extract_int :: "bool \<Rightarrow> string \<Rightarrow> (bool \<times> nat) option \<times> string" where
  "extract_int base0 s =
     (let (neg, s1) = take_sign s; (base, zero, s2) = take_prefix base0 s1;
          (ds, s3) = take_digits base s2
      in (if ds = [] \<and> \<not> zero then None else Some (neg, digits_value base ds), s3))"

definition read_unsigned :: "istream \<Rightarrow> nat \<times> istream" where
  "read_unsigned s =
     (case sentry s of
        (False, s') \<Rightarrow> (0, s')
      | (True, s') \<Rightarrow>
          (case extract_int (is_base0 s') (is_rest s') of (v, r) \<Rightarrow>
             (let s'' = s'\<lparr>is_rest := r, is_eof := (r = [])\<rparr>
              in case v of
                   None \<Rightarrow> (0, s''\<lparr>is_fail := True\<rparr>)
                 | Some (neg, n) \<Rightarrow>
                     (if 2 ^ 32 - 1 < n then (2 ^ 32 - 1, s''\<lparr>is_fail := True\<rparr>)
                      else (if neg then (2 ^ 32 - n) mod 2 ^ 32 else n, s'')))))"

text \<open>A \<open>bool\<close> is read as a \<open>long\<close>, of which only 0 and 1 are accepted.\<close>

definition read_bool :: "istream \<Rightarrow> bool \<times> istream" where
  "read_bool s =
     (case sentry s of
        (False, s') \<Rightarrow> (False, s')
      | (True, s') \<Rightarrow>
          (case extract_int (is_base0 s') (is_rest s') of (v, r) \<Rightarrow>
             (let s'' = s'\<lparr>is_rest := r, is_eof := (r = [])\<rparr>
              in case v of
                   None \<Rightarrow> (False, s''\<lparr>is_fail := True\<rparr>)
                 | Some (neg, n) \<Rightarrow>
                     (if n = 0 then (False, s'')
                      else if n = 1 \<and> \<not> neg then (True, s'')
                      else (True, s''\<lparr>is_fail := True\<rparr>)))))"

section \<open>Floating point numbers\<close>

text \<open>
  Sign, digits before and after the point, and the exponent of a number: \<open>None\<close> when the
  characters that were taken do not form one.
\<close>

definition extract_float :: "string \<Rightarrow> (bool \<times> string \<times> string \<times> bool \<times> nat) option \<times> string" where
  "extract_float s =
     (let (neg, s1) = take_sign s;
          ip = takeWhile is_digit s1; s2 = dropWhile is_digit s1;
          (fp, s3) = (case s2 of
              c # cs \<Rightarrow> if c = CHR ''.'' then (takeWhile is_digit cs, dropWhile is_digit cs) else ([], s2)
            | [] \<Rightarrow> ([], s2))
      in case s3 of
           c # cs \<Rightarrow>
             if ip @ fp \<noteq> [] \<and> (c = CHR ''e'' \<or> c = CHR ''E'')
             then (let (eneg, s4) = take_sign cs; ed = takeWhile is_digit s4
                   in (if ed = [] then None else Some (neg, ip, fp, eneg, nat_of_dec ed),
                       dropWhile is_digit s4))
             else (if ip @ fp = [] then None else Some (neg, ip, fp, False, 0), s3)
         | [] \<Rightarrow> (if ip @ fp = [] then None else Some (neg, ip, fp, False, 0), s3))"

definition float_of_decimal :: "bool \<Rightarrow> string \<Rightarrow> string \<Rightarrow> bool \<Rightarrow> nat \<Rightarrow> float32" where
  "float_of_decimal neg ip fp eneg e =
     (let n = nat_of_dec (ip @ fp); up = (if eneg then 0 else e);
          down = length fp + (if eneg then e else 0)
      in float_of_quotient neg (n * 10 ^ up) (10 ^ down))"

definition float_overflow :: "float32 \<Rightarrow> bool" where
  "float_overflow x \<longleftrightarrow> significand x \<noteq> 0 \<and> 104 < exponent x"

definition read_float :: "istream \<Rightarrow> float32 \<times> istream" where
  "read_float s =
     (case sentry s of
        (False, s') \<Rightarrow> (Flt 0 0, s')
      | (True, s') \<Rightarrow>
          (case extract_float (is_rest s') of (v, r) \<Rightarrow>
             (let s'' = s'\<lparr>is_rest := r, is_eof := (r = [])\<rparr>
              in case v of
                   None \<Rightarrow> (Flt 0 0, s''\<lparr>is_fail := True\<rparr>)
                 | Some (neg, ip, fp, eneg, e) \<Rightarrow>
                     (let x = float_of_decimal neg ip fp eneg e
                      in if float_overflow x then (Flt 0 0, s''\<lparr>is_fail := True\<rparr>) else (x, s'')))))"

section \<open>Whole streams\<close>

text \<open>How much a stream still holds, in a measure that each extraction lowers.\<close>

definition stream_left :: "istream \<Rightarrow> nat" where
  "stream_left s = (if is_fail s then 0 else if is_eof s then 1 else 2 + length (is_rest s))"

lemma read_string_left:
  assumes "\<not> is_fail s"
  shows "stream_left (snd (read_string s)) < stream_left s"
proof (cases "is_eof s \<or> dropWhile is_space (is_rest s) = []")
  case True
  then show ?thesis using assms by (auto simp: stream_left_def read_string_def sentry_def Let_def)
next
  case False
  let ?r = "dropWhile is_space (is_rest s)"
  have "\<not> is_space (hd ?r)" using False hd_dropWhile [of is_space "is_rest s"] by blast
  then have "length (dropWhile (\<lambda>c. \<not> is_space c) ?r) < length ?r"
    using False by (cases ?r) (auto intro: le_imp_less_Suc length_dropWhile_le)
  moreover have "length ?r \<le> length (is_rest s)" by (rule length_dropWhile_le)
  ultimately show ?thesis
    using False assms by (auto simp: stream_left_def read_string_def sentry_def Let_def simp del: dropWhile_eq_Nil_conv)
qed

text \<open>\<open>while (request) { request >> token; ... }\<close>: the tokens it sees, the last one empty.\<close>

function read_tokens :: "istream \<Rightarrow> string list \<times> istream" where
  "read_tokens s =
     (if is_fail s then ([], s)
      else (case read_string s of (t, s') \<Rightarrow> (case read_tokens s' of (ts, s'') \<Rightarrow> (t # ts, s''))))"
  by pat_completeness auto
termination
  by (relation "measure stream_left") (simp, metis in_measure read_string_left snd_conv)

declare read_tokens.simps [simp del]

definition clear_bits :: "istream \<Rightarrow> istream" where
  "clear_bits s = s\<lparr>is_eof := False, is_fail := False\<rparr>"

text \<open>\<open>std::getline\<close>: the rest of the line, without its end.\<close>

definition drop_line :: "istream \<Rightarrow> istream" where
  "drop_line s =
     (let r = dropWhile (\<lambda>c. c \<noteq> CHR ''\<newline>'') (is_rest s) in s\<lparr>is_rest := drop 1 r\<rparr>)"

section \<open>Reading what was written\<close>

definition ends_token :: "string \<Rightarrow> bool" where
  "ends_token r \<longleftrightarrow> r = [] \<or> is_space (hd r)"

lemma sentry_ok:
  assumes "\<not> is_eof s" "\<not> is_fail s" "is_rest s = sp @ c # r" "list_all is_space sp" "\<not> is_space c"
  shows "sentry s = (True, s\<lparr>is_rest := c # r\<rparr>)"
proof -
  have "dropWhile is_space (sp @ c # r) = c # r"
    using assms(4,5) by (induction sp) simp_all
  then show ?thesis using assms by (simp add: sentry_def)
qed

lemma read_string_token:
  assumes "\<not> is_eof s" "\<not> is_fail s" "is_rest s = sp @ t @ r" "list_all is_space sp"
    "list_all (\<lambda>c. \<not> is_space c) t" "t \<noteq> []" "ends_token r"
  shows "read_string s = (t, s\<lparr>is_rest := r, is_eof := (r = [])\<rparr>)"
proof -
  obtain c t' where t: "t = c # t'" using assms(6) by (cases t) auto
  have "sentry s = (True, s\<lparr>is_rest := t @ r\<rparr>)"
    using sentry_ok [of s sp c "t' @ r"] assms t by simp
  moreover have "takeWhile (\<lambda>c. \<not> is_space c) (t @ r) = t"
    "dropWhile (\<lambda>c. \<not> is_space c) (t @ r) = r"
    using assms(5,7) by (cases r; auto simp: ends_token_def list_all_iff)+
  ultimately show ?thesis by (simp add: read_string_def Let_def del: dropWhile_eq_Nil_conv)
qed

lemma digit_in_digit: "is_digit c \<Longrightarrow> digit_in 10 c = Some (digit_value c)"
  by (auto simp: digit_in_def is_digit_def digit_value_def Let_def)

lemma space_no_digit: "is_space c \<Longrightarrow> base \<le> 16 \<Longrightarrow> digit_in base c = None"
  by (auto simp: digit_in_def is_space_def Let_def)

lemma take_digits_dec:
  assumes "list_all is_digit t" and "ends_token r"
  shows "take_digits 10 (t @ r) = (map digit_value t, r)"
  using assms(1)
proof (induction t)
  case Nil
  then show ?case using assms(2) by (cases r) (simp_all add: ends_token_def space_no_digit)
next
  case (Cons c t)
  then show ?case by (simp add: digit_in_digit)
qed

lemma digits_value_dec: "digits_value 10 (map digit_value t) = nat_of_dec t"
  by (simp add: digits_value_def nat_of_dec_def fold_map comp_def)

lemma hd_dec_of_nat: "0 < n \<Longrightarrow> hd (dec_of_nat n) \<noteq> CHR ''0''"
proof (induction n rule: dec_of_nat.induct)
  case (1 n)
  show ?case
  proof (cases "n < 10")
    case True
    have "digit_char n \<noteq> digit_char 0"
    proof
      assume "digit_char n = digit_char 0"
      then have "digit_value (digit_char n) = digit_value (digit_char 0)" by simp
      then show False using True 1(2) by simp
    qed
    then show ?thesis using True by (simp add: text_simps digit_char_0)
  next
    case False
    then have "hd (dec_of_nat (n div 10)) \<noteq> CHR ''0''" using 1 by simp
    with False show ?thesis by (simp add: text_simps)
  qed
qed

lemma digit_no_sign: "is_digit c \<Longrightarrow> c \<noteq> CHR ''-'' \<and> c \<noteq> CHR ''+''"
  by (auto simp: is_digit_def)

lemma digit_no_space: "is_digit c \<Longrightarrow> \<not> is_space c"
  by (auto simp: is_digit_def is_space_def)

lemma extract_int_dec:
  assumes "ends_token r"
  shows "extract_int base0 (dec_of_nat n @ r) = (Some (False, n), r)"
proof -
  obtain c t where t: "dec_of_nat n = c # t" using dec_of_nat_nonempty [of n] by (cases "dec_of_nat n") auto
  have digits: "list_all is_digit (c # t)"
    using dec_of_nat_digits [of _ n] t by (auto simp: list_all_iff)
  have sign: "take_sign (dec_of_nat n @ r) = (False, dec_of_nat n @ r)"
    using digits digit_no_sign [of c] by (simp add: t)
  have val: "nat_of_dec (c # t) = n" using nat_of_dec_of_nat [of n] t by simp
  have ten: "take_digits 10 (dec_of_nat n @ r) = (map digit_value (c # t), r)"
    using take_digits_dec [OF digits assms] t by simp
  show ?thesis
  proof (cases "base0 \<and> n = 0")
    case True
    then have t0: "dec_of_nat 0 = [CHR ''0'']" by (simp add: text_simps digit_char_0)
    have "take_digits 8 r = ([], r)"
      using assms by (cases r) (simp_all add: ends_token_def space_no_digit)
    moreover have "take_prefix True (CHR ''0'' # r) = (8, True, r)"
      using assms by (cases r) (auto simp: ends_token_def is_space_def)
    moreover have "take_sign (CHR ''0'' # r) = (False, CHR ''0'' # r)" by simp
    ultimately show ?thesis using True
      by (simp add: extract_int_def t0 digits_value_def del: take_sign.simps take_prefix.simps)
  next
    case False
    have "take_prefix base0 (dec_of_nat n @ r) = (10, False, dec_of_nat n @ r)"
      using False hd_dec_of_nat [of n] by (cases base0) (auto simp: t)
    with sign ten show ?thesis
      using digits_value_dec [of "c # t"] val by (simp add: extract_int_def)
  qed
qed

lemma read_unsigned_dec:
  assumes "\<not> is_eof s" "\<not> is_fail s" "is_rest s = sp @ dec_of_nat n @ r" "list_all is_space sp"
    "ends_token r" "n < 2 ^ 32"
  shows "read_unsigned s = (n, s\<lparr>is_rest := r, is_eof := (r = [])\<rparr>)"
proof -
  obtain c t where t: "dec_of_nat n = c # t" using dec_of_nat_nonempty [of n] by (cases "dec_of_nat n") auto
  have "\<not> is_space c" using dec_of_nat_digits [of c n] digit_no_space t by simp
  then have "sentry s = (True, s\<lparr>is_rest := dec_of_nat n @ r\<rparr>)"
    using sentry_ok [of s sp c "t @ r"] assms t by simp
  then show ?thesis
    using extract_int_dec [OF assms(5)] assms(6) by (simp add: read_unsigned_def Let_def)
qed

end
