(* ===== verification/Utf.thy ===== *)
theory Utf
  imports Prelude
begin

text \<open>
  \<open>std::wstring_convert<std::codecvt_utf8_utf16<char16_t>, char16_t>\<close>, which the contact
  information commands use: UTF-8 to UTF-16 and back.  \<open>None\<close> stands for the \<open>std::range_error\<close> that
  the conversions throw on ill-formed input.  As in the standard library of the compiler a high
  surrogate at the very end only stops the conversion to UTF-8.
\<close>

section \<open>UTF-8 to UTF-16\<close>

definition cont :: "nat \<Rightarrow> bool" where
  "cont c \<longleftrightarrow> 128 \<le> c \<and> c < 192"

text \<open>One code point and the bytes after it.\<close>

definition utf8_head :: "nat list \<Rightarrow> (nat \<times> nat list) option" where
  "utf8_head bs =
     (case bs of
        [] \<Rightarrow> None
      | c1 # r1 \<Rightarrow>
          if c1 < 128 then Some (c1, r1)
          else if c1 < 194 then None
          else if c1 < 224 then
            (case r1 of
               c2 # r \<Rightarrow> if cont c2 then Some ((c1 - 192) * 64 + (c2 - 128), r) else None
             | _ \<Rightarrow> None)
          else if c1 < 240 then
            (case r1 of
               c2 # c3 # r \<Rightarrow>
                 let c = (c1 - 224) * 4096 + (c2 - 128) * 64 + (c3 - 128)
                 in if cont c2 \<and> cont c3 \<and> 2048 \<le> c \<and> \<not> (55296 \<le> c \<and> c < 57344) then Some (c, r) else None
             | _ \<Rightarrow> None)
          else if c1 < 245 then
            (case r1 of
               c2 # c3 # c4 # r \<Rightarrow>
                 let c = (c1 - 240) * 262144 + (c2 - 128) * 4096 + (c3 - 128) * 64 + (c4 - 128)
                 in if cont c2 \<and> cont c3 \<and> cont c4 \<and> 65536 \<le> c \<and> c < 1114112 then Some (c, r) else None
             | _ \<Rightarrow> None)
          else None)"

lemma utf8_head_shorter: "utf8_head bs = Some (c, r) \<Longrightarrow> length r < length bs"
  by (auto simp: utf8_head_def Let_def split: list.splits if_splits)

function utf8_decode :: "nat list \<Rightarrow> nat list option" where
  "utf8_decode bs =
     (if bs = [] then Some []
      else case utf8_head bs of None \<Rightarrow> None
         | Some (c, r) \<Rightarrow> map_option (\<lambda>cs. c # cs) (utf8_decode r))"
  by pat_completeness auto
termination
  by (relation "measure length") (auto dest: utf8_head_shorter)

declare utf8_decode.simps [simp del]

definition utf16_units :: "nat \<Rightarrow> u16 list" where
  "utf16_units c =
     (if c < 65536 then [of_nat c]
      else [of_nat (55296 + (c - 65536) div 1024), of_nat (56320 + (c - 65536) mod 1024)])"

definition from_bytes :: "string \<Rightarrow> u16 list option" where
  "from_bytes s = map_option (\<lambda>cs. concat (map utf16_units cs)) (utf8_decode (map of_char s))"

section \<open>UTF-16 to UTF-8\<close>

definition utf8_bytes :: "nat \<Rightarrow> nat list" where
  "utf8_bytes c =
     (if c < 128 then [c]
      else if c < 2048 then [192 + c div 64, 128 + c mod 64]
      else if c < 65536 then [224 + c div 4096, 128 + c div 64 mod 64, 128 + c mod 64]
      else [240 + c div 262144, 128 + c div 4096 mod 64, 128 + c div 64 mod 64, 128 + c mod 64])"

definition high_surrogate :: "nat \<Rightarrow> bool" where
  "high_surrogate c \<longleftrightarrow> 55296 \<le> c \<and> c < 56320"

definition low_surrogate :: "nat \<Rightarrow> bool" where
  "low_surrogate c \<longleftrightarrow> 56320 \<le> c \<and> c < 57344"

fun utf16_decode :: "nat list \<Rightarrow> nat list option" where
  "utf16_decode [] = Some []"
| "utf16_decode [c] =
     (if high_surrogate c then Some [] else if low_surrogate c then None else Some [c])"
| "utf16_decode (c # d # us) =
     (if high_surrogate c
      then (if low_surrogate d
            then map_option (\<lambda>cs. (65536 + (c - 55296) * 1024 + (d - 56320)) # cs) (utf16_decode us)
            else None)
      else if low_surrogate c then None
      else map_option (\<lambda>cs. c # cs) (utf16_decode (d # us)))"

definition to_bytes :: "u16 list \<Rightarrow> string option" where
  "to_bytes us =
     map_option (\<lambda>cs. map char_of (concat (map utf8_bytes cs))) (utf16_decode (map unat us))"

section \<open>The conversions are inverse on code points\<close>

definition scalar :: "nat \<Rightarrow> bool" where
  "scalar c \<longleftrightarrow> c < 1114112 \<and> \<not> (55296 \<le> c \<and> c < 57344)"

text \<open>A number and its digits in base 64.\<close>

lemma base64_digits:
  fixes c :: nat
  shows "c div 4096 * 4096 + c div 64 mod 64 * 64 + c mod 64 = c"
    and "c div 262144 * 262144 + c div 4096 mod 64 * 4096 + c div 64 mod 64 * 64 + c mod 64 = c"
proof -
  have a: "c div 4096 = c div 64 div 64" "c div 262144 = c div 4096 div 64"
    by (simp_all flip: div_mult2_eq)
  have b: "x div 64 * 64 + x mod 64 = x" for x :: nat by simp
  show 1: "c div 4096 * 4096 + c div 64 mod 64 * 64 + c mod 64 = c"
    using b [of c] b [of "c div 64"] a(1) by linarith
  show "c div 262144 * 262144 + c div 4096 mod 64 * 4096 + c div 64 mod 64 * 64 + c mod 64 = c"
    using 1 b [of "c div 4096"] a(2) by linarith
qed

lemma utf8_head_bytes:
  assumes "scalar c"
  shows "utf8_head (utf8_bytes c @ r) = Some (c, r)"
proof -
  consider "c < 128" | "128 \<le> c" "c < 2048" | "2048 \<le> c" "c < 65536" | "65536 \<le> c" by linarith
  then show ?thesis
  proof cases
    case 2
    then have b: "c div 64 < 32" "\<not> c div 64 < 2" "c div 64 * 64 + c mod 64 = c" by auto
    then show ?thesis using 2 by (simp add: utf8_head_def utf8_bytes_def cont_def b)
  next
    case 3
    then have b: "c div 4096 < 16" by auto
    have e: "c div 4096 * 4096 + c div 64 mod 64 * 64 + c mod 64 = c" by (rule base64_digits)
    show ?thesis
      using 3 assms by (simp add: utf8_head_def utf8_bytes_def cont_def Let_def scalar_def b e)
  next
    case 4
    then have c: "c < 1114112" using assms by (simp add: scalar_def)
    then have b: "c div 262144 < 5" by auto
    have e: "c div 262144 * 262144 + c div 4096 mod 64 * 4096 + c div 64 mod 64 * 64 + c mod 64 = c"
      by (rule base64_digits)
    show ?thesis
      using 4 c by (simp add: utf8_head_def utf8_bytes_def cont_def Let_def b e)
  qed (simp add: utf8_head_def utf8_bytes_def)
qed

lemma utf8_bytes_nonempty [simp]: "utf8_bytes c \<noteq> []"
  by (simp add: utf8_bytes_def)

lemma utf8_decode_bytes:
  "list_all scalar cs \<Longrightarrow> utf8_decode (concat (map utf8_bytes cs)) = Some cs"
proof (induction cs)
  case Nil
  then show ?case by (simp add: utf8_decode.simps)
next
  case (Cons c cs)
  then show ?case
    by (subst utf8_decode.simps) (simp add: utf8_head_bytes)
qed

lemma utf8_bytes_bound: "scalar c \<Longrightarrow> b \<in> set (utf8_bytes c) \<Longrightarrow> b < 256"
proof -
  assume c: "scalar c" and b: "b \<in> set (utf8_bytes c)"
  have "c div 262144 < 5" "c < 65536 \<Longrightarrow> c div 4096 < 16" "c < 2048 \<Longrightarrow> c div 64 < 32"
    using c by (auto simp: scalar_def)
  moreover have "c mod 64 < 64" "c div 64 mod 64 < 64" "c div 4096 mod 64 < 64" by simp_all
  ultimately show "b < 256" using b by (auto simp: utf8_bytes_def split: if_splits)
qed

text \<open>UTF-16 text without surrogates survives the way through UTF-8.\<close>

lemma from_to_bytes:
  assumes "list_all (\<lambda>u. \<not> high_surrogate (unat u) \<and> \<not> low_surrogate (unat u)) us"
  shows "\<exists>s. to_bytes us = Some s \<and> from_bytes s = Some us"
proof -
  let ?cs = "map unat us"
  have dec: "utf16_decode ?cs = Some ?cs"
    using assms
  proof (induction us)
    case (Cons u us)
    then show ?case by (cases us) auto
  qed simp
  have sc: "list_all scalar ?cs"
    using assms
    by (auto simp: list_all_iff scalar_def high_surrogate_def low_surrogate_def
        intro: less_trans [OF unat_u16])
  let ?bs = "concat (map utf8_bytes ?cs)"
  have "map (of_char :: char \<Rightarrow> nat) (map char_of ?bs) = ?bs"
  proof (subst map_map, rule map_idI)
    fix b assume "b \<in> set ?bs"
    then obtain c where "scalar c" "b \<in> set (utf8_bytes c)" using sc by (auto simp: list_all_iff)
    then have "b < 256" by (rule utf8_bytes_bound)
    then show "((of_char :: char \<Rightarrow> nat) \<circ> char_of) b = b" by (simp add: of_char_of)
  qed
  moreover have "concat (map utf16_units ?cs) = us"
    using unat_u16 by (induction us) (simp_all add: utf16_units_def)
  ultimately have "from_bytes (map char_of ?bs) = Some us"
    by (simp only: from_bytes_def utf8_decode_bytes [OF sc] option.map)
  then show ?thesis by (simp only: to_bytes_def dec option.map) simp
qed

section \<open>ASCII characters are not lost\<close>

lemma utf8_head_ascii:
  "utf8_head bs = Some (c, r) \<Longrightarrow>
     length (filter (\<lambda>b. b < 128) bs) \<le> Suc (length (filter (\<lambda>b. b < 128) r))"
  by (auto simp: utf8_head_def cont_def Let_def split: list.splits if_splits)

lemma utf8_decode_ascii:
  "utf8_decode bs = Some cs \<Longrightarrow> length (filter (\<lambda>b. b < 128) bs) \<le> length cs"
proof (induction bs arbitrary: cs rule: utf8_decode.induct)
  case (1 bs)
  show ?case
  proof (cases "bs = []")
    case False
    then obtain c r cs' where h: "utf8_head bs = Some (c, r)" "utf8_decode r = Some cs'" "cs = c # cs'"
      using "1.prems" by (subst (asm) utf8_decode.simps) (auto split: option.splits)
    have "length (filter (\<lambda>b. b < 128) r) \<le> length cs'"
      using "1.IH" [OF False h(1) refl h(2)] .
    with utf8_head_ascii [OF h(1)] h(3) show ?thesis by simp
  qed simp
qed

lemma from_bytes_length:
  assumes "from_bytes s = Some us"
  shows "length (filter (\<lambda>c. (of_char c :: nat) < 128) s) \<le> length us"
proof -
  obtain cs where cs: "utf8_decode (map of_char s) = Some cs" "us = concat (map utf16_units cs)"
    using assms by (auto simp: from_bytes_def)
  have "length cs \<le> length (concat (map utf16_units cs))"
    by (induction cs) (auto simp: utf16_units_def)
  moreover have "length (filter (\<lambda>c. (of_char c :: nat) < 128) s) =
      length (filter (\<lambda>b. b < (128::nat)) (map of_char s))"
    by (simp add: filter_map comp_def)
  ultimately show ?thesis
    using utf8_decode_ascii [OF cs(1)] cs(2) by simp
qed

end
