(* ===== verification/ApiCommandParser.thy ===== *)
theory ApiCommandParser
  imports EmsMessage RecordText IStream Utf
begin

text \<open>
  The request engine of \<open>ApiCommandParser\<close> (\<open>ApiCommandParser.h\<close>, \<open>ApiCommandParser.cpp\<close>): one
  active request at a time, its retries, the assembly of a response from several telegrams and
  its output.  What the code does to its surroundings is a list of effects in order: lines given
  to the output callback, telegrams handed to the sender, and operations on the test mode timer.
  The commands themselves are in \<open>ApiCommands\<close>.
\<close>

unbundle bit_operations_syntax

section \<open>State\<close>

text \<open>The two handlers that \<open>testModeRepeater\<close> can wait with.\<close>

datatype test_wait = FirstWait | RepeatWait

datatype effect =
    Output string
  | Send ems_message
  | Aborted test_wait

text \<open>The lines among the effects.\<close>

definition lines_of :: "effect list \<Rightarrow> string list" where
  "lines_of es = concat (map (\<lambda>e. case e of Output l \<Rightarrow> [l] | _ \<Rightarrow> []) es)"

record parser =
  m_responseCounter :: nat
  m_retriesLeft :: u32
  m_activeRequest :: "ems_message option"
  m_requestResponse :: bytes
  m_requestOffset :: nat
  m_requestLength :: nat
  m_requestDestination :: u8
  m_requestType :: u16
  m_parsePosition :: nat
  m_outputRawData :: bool
  m_testMode :: "(test_wait \<times> nat) option"

text \<open>The constructor leaves the other members as they are in memory.\<close>

definition parser_init :: "parser \<Rightarrow> parser" where
  "parser_init memory = memory\<lparr>m_responseCounter := 0, m_activeRequest := None,
     m_requestResponse := [], m_parsePosition := 0, m_outputRawData := False, m_testMode := None\<rparr>"

datatype command_result = Ok | Busy | InvalidCmd | InvalidArgs

datatype tribool = Yes | No | Indeterminate

definition MaxRequestRetries :: u32 where
  "MaxRequestRetries = 5"

section \<open>Requests\<close>

text \<open>Only called with an active request.\<close>

definition sendActiveRequest :: "parser \<Rightarrow> effect list" where
  "sendActiveRequest p = (case m_activeRequest p of None \<Rightarrow> [] | Some m \<Rightarrow> [Send m])"

definition sendCommand ::
    "u8 \<Rightarrow> u16 \<Rightarrow> u8 \<Rightarrow> bytes \<Rightarrow> bool \<Rightarrow> parser \<Rightarrow> parser \<times> effect list" where
  "sendCommand dest type offset data expectResponse p =
     (let p' = p\<lparr>m_retriesLeft := MaxRequestRetries,
                 m_activeRequest := Some (sendMessage_ctor dest type offset data expectResponse)\<rparr>
      in (p', sendActiveRequest p'))"

text \<open>Asks for what is still missing; \<open>False\<close> when nothing is.\<close>

definition continueRequest :: "parser \<Rightarrow> bool \<times> parser \<times> effect list" where
  "continueRequest p =
     (let alreadyReceived = length (m_requestResponse p)
      in if m_requestLength p \<le> alreadyReceived then (False, p, [])
         else (let offset = of_nat (m_requestOffset p + alreadyReceived);
                   remaining = of_nat (m_requestLength p - alreadyReceived)
               in (True, sendCommand (m_requestDestination p) (m_requestType p) offset [remaining]
                           True p)))"

definition startRequest ::
    "u8 \<Rightarrow> u16 \<Rightarrow> nat \<Rightarrow> nat \<Rightarrow> bool \<Rightarrow> bool \<Rightarrow> parser \<Rightarrow> parser \<times> effect list" where
  "startRequest dest type offset len newRequest raw p =
     snd (continueRequest (p\<lparr>m_requestOffset := offset, m_requestLength := len,
       m_requestDestination := dest, m_requestType := type, m_requestResponse := [],
       m_parsePosition := 0, m_outputRawData := raw,
       m_responseCounter := (if newRequest then 0 else m_responseCounter p)\<rparr>))"

definition onTimeout :: "parser \<Rightarrow> bool \<times> parser \<times> effect list" where
  "onTimeout p =
     (if m_activeRequest p = None then (False, p, [])
      else (let p' = p\<lparr>m_retriesLeft := m_retriesLeft p - 1\<rparr>
            in if m_retriesLeft p' = 0 then (True, p'\<lparr>m_activeRequest := None\<rparr>, [])
               else (False, p', sendActiveRequest p')))"

section \<open>Responses\<close>

text \<open>
  \<open>loopOverResponse<T>\<close>: \<open>msgSize\<close> is \<open>sizeof(T)\<close>, \<open>build\<close> reads a record at the start of the bytes
  it is given and makes its text.
\<close>

function loopOverResponse ::
    "nat \<Rightarrow> (bytes \<Rightarrow> string) \<Rightarrow> string \<Rightarrow> parser \<Rightarrow> tribool \<times> parser \<times> effect list" where
  "loopOverResponse msgSize build prefix p =
     (if 0 < msgSize \<and> m_parsePosition p + msgSize \<le> length (m_requestResponse p)
      then (let response = build (drop (m_parsePosition p) (m_requestResponse p));
                p' = p\<lparr>m_parsePosition := m_parsePosition p + msgSize,
                       m_responseCounter := m_responseCounter p + 1\<rparr>
            in if response = [] then (Yes, p', [])
               else (case loopOverResponse msgSize build prefix p' of (r, p'', es) \<Rightarrow>
                       (r, p'', Output (prefix @ fmt_0d 2 (m_responseCounter p') @ '' '' @ response) # es)))
      else (case continueRequest p of
              (False, p', es) \<Rightarrow> (Yes, p', es)
            | (True, p', es) \<Rightarrow> (Indeterminate, p', es)))"
  by pat_completeness auto
termination
  by (relation "measure (\<lambda>(msgSize, build, prefix, p). length (m_requestResponse p) - m_parsePosition p)")
    auto

declare loopOverResponse.simps [simp del]

definition SOURCES :: "(u8 \<times> string) list" where
  "SOURCES = [(addressUBA2, ''UBA2''), (addressUI800, ''UI800''), (addressRH800, ''RH800'')]"

definition handleVersionResponse :: "parser \<Rightarrow> (tribool \<times> parser \<times> effect list) result" where
  "handleVersionResponse p =
     bindR (vec_index (m_requestResponse p) 1) (\<lambda>major.
     bindR (vec_index (m_requestResponse p) 2) (\<lambda>minor.
       let line = (\<lambda>name. [Output (name @ '' version: '' @ fmt_d (unat major) @ ''.'' @ fmt_0d 2 (unat minor))])
       in Inr (case index_of (m_requestDestination p) (map fst SOURCES) of
            None \<Rightarrow> (Yes, p, [])
          | Some index \<Rightarrow>
              (let out = line (snd (SOURCES ! index))
               in if 2 \<le> index then (Yes, p, out)
                  else (case startRequest (fst (SOURCES ! (index + 1))) 0x02 0 3 True False p of
                          (p', es) \<Rightarrow> (Indeterminate, p', out @ es))))))"

text \<open>
  Contact information: each 40 bytes are 20 characters.  \<open>buffer\<close> is not initialised, so a last
  piece shorter than 40 bytes is followed by \<open>junk\<close>.
\<close>

definition contact_units :: "bytes \<Rightarrow> u16 list" where
  "contact_units buffer =
     map (\<lambda>i. push_bit 8 (ucast (buffer ! (2 * i))) + ucast (buffer ! (2 * i + 1))) [0..<20]"

function contact_lines :: "(nat \<Rightarrow> u8) \<Rightarrow> bytes \<Rightarrow> string list result" where
  "contact_lines junk resp =
     (if resp = [] then Inr []
      else (let len = min (length resp) 40;
                buffer = take len resp @ map junk [len..<40]
            in case to_bytes (contact_units buffer) of
                 None \<Rightarrow> Inl RangeErrorThrown
               | Some s \<Rightarrow> bindR (contact_lines junk (drop 40 resp)) (\<lambda>ls. Inr (s # ls))))"
  by pat_completeness auto
termination
  by (relation "measure (\<lambda>(junk, resp). length resp)") auto

declare contact_lines.simps [simp del]

definition handleResponse ::
    "(nat \<Rightarrow> u8) \<Rightarrow> parser \<Rightarrow> (tribool \<times> parser \<times> effect list) result" where
  "handleResponse junk p =
     (let type = m_requestType p
      in if type = 0x02 then handleVersionResponse p
         else if type = 0x0137
         then (case continueRequest p of
                 (True, p', es) \<Rightarrow> Inr (Indeterminate, p', es)
               | (False, p', es) \<Rightarrow>
                   bindR (contact_lines junk (m_requestResponse p')) (\<lambda>ls.
                     Inr (Yes, p', es @ map Output ls)))
         else if type = 0xbf
         then Inr (loopOverResponse sizeof_ErrorRecordShort
                (buildRecordResponse_ErrorRecordShort \<circ> error_short_decode) '' ''
                (p\<lparr>m_parsePosition := 3\<rparr>))
         else if type = 0xc0 \<or> type = 0xc2
         then Inr (loopOverResponse sizeof_ErrorRecord2
                (buildRecordResponse_ErrorRecord2 \<circ> error2_decode)
                (if type = 0xc0 then ''R'' else ''U'') p)
         else if type \<in> {0x0015, 0x0140, 0x01a5, 0x01af, 0x01b9, 0x01f5, 0x00ea}
         then Inr (Yes, p, [])
         else Inr (No, p, []))"

definition raw_line :: "bytes \<Rightarrow> string" where
  "raw_line bs = concat (map (\<lambda>b. ''0x'' @ fmt_0x 2 (unat b) @ '' '') bs)"

definition onIncomingMessage ::
    "(nat \<Rightarrow> u8) \<Rightarrow> parser \<Rightarrow> ems_message \<Rightarrow> (tribool \<times> parser \<times> effect list) result" where
  "onIncomingMessage junk p m =
     (if m_activeRequest p = None then Inr (Indeterminate, p, [])
      else if getType m = 0xff
      then Inr (if m_offset m \<noteq> 0x04 then Yes else No, p\<lparr>m_activeRequest := None\<rparr>, [])
      else if m_source m \<noteq> m_requestDestination p \<or> getType m \<noteq> m_requestType p
        \<or> unat (m_offset m) \<noteq> length (m_requestResponse p) + m_requestOffset p
      then Inr (Indeterminate, p, [])
      else
        (let p1 = (if m_data m = [] then p\<lparr>m_requestLength := length (m_requestResponse p)\<rparr>
                   else p\<lparr>m_requestResponse := m_requestResponse p @ m_data m\<rparr>)
         in bindR
              (if m_outputRawData p1
               then Inr (case continueRequest p1 of
                      (False, p2, es) \<Rightarrow> (Yes, p2, es @ [Output (raw_line (m_requestResponse p2))])
                    | (True, p2, es) \<Rightarrow> (Indeterminate, p2, es))
               else handleResponse junk p1)
              (\<lambda>(result, p2, es).
                 Inr (result, if result = Yes then p2\<lparr>m_activeRequest := None\<rparr> else p2, es))))"

section \<open>Test mode\<close>

text \<open>
  \<open>expires_from_now\<close> and \<open>cancel\<close> abort a pending wait, whose handler then runs later with
  \<open>operation_aborted\<close>; the effect \<open>Aborted\<close> is that posted handler.
\<close>

definition abort_wait :: "parser \<Rightarrow> effect list" where
  "abort_wait p = (case m_testMode p of None \<Rightarrow> [] | Some (w, _) \<Rightarrow> [Aborted w])"

definition test_cancel :: "parser \<Rightarrow> parser \<times> effect list" where
  "test_cancel p = (p\<lparr>m_testMode := None\<rparr>, abort_wait p)"

definition test_wait_for :: "test_wait \<Rightarrow> nat \<Rightarrow> parser \<Rightarrow> parser \<times> effect list" where
  "test_wait_for w ms p = (p\<lparr>m_testMode := Some (w, ms)\<rparr>, abort_wait p)"

definition refreshTestMode :: "parser \<Rightarrow> parser \<times> effect list" where
  "refreshTestMode p =
     (case sendCommand addressUBA2 0x1d 0 [0x5a] False p of (p1, es1) \<Rightarrow>
        (case test_wait_for RepeatWait 5000 p1 of (p2, es2) \<Rightarrow> (p2, es1 @ es2)))"

text \<open>The wait handlers: the first one ignores the error code.\<close>

definition onTestWait :: "test_wait \<Rightarrow> bool \<Rightarrow> parser \<Rightarrow> parser \<times> effect list" where
  "onTestWait w aborted p =
     (case w of FirstWait \<Rightarrow> refreshTestMode p
      | RepeatWait \<Rightarrow> if aborted then (p, []) else refreshTestMode p)"

section \<open>The retry counter\<close>

text \<open>An active request has between one and five tries left.\<close>

definition parser_inv :: "parser \<Rightarrow> bool" where
  "parser_inv p \<longleftrightarrow> (m_activeRequest p \<noteq> None \<longrightarrow> 1 \<le> unat (m_retriesLeft p) \<and> unat (m_retriesLeft p) \<le> 5)"

named_theorems parser_invs "operations that keep the invariant of the parser"

lemma parser_init_inv [parser_invs]: "parser_inv (parser_init memory)"
  by (simp add: parser_inv_def parser_init_def)

lemma sendCommand_inv [parser_invs]: "parser_inv (fst (sendCommand d t off data er p))"
  by (simp add: parser_inv_def sendCommand_def Let_def MaxRequestRetries_def)

lemma continueRequest_inv [parser_invs]: "parser_inv p \<Longrightarrow> parser_inv (fst (snd (continueRequest p)))"
  by (simp add: continueRequest_def Let_def sendCommand_inv)

lemma startRequest_inv [parser_invs]:
  "parser_inv p \<Longrightarrow> parser_inv (fst (startRequest d t off len n raw p))"
  unfolding startRequest_def by (rule continueRequest_inv) (simp add: parser_inv_def)

lemma onTimeout_inv [parser_invs]:
  assumes "parser_inv p"
  shows "parser_inv (fst (snd (onTimeout p)))"
proof (cases "m_activeRequest p = None \<or> m_retriesLeft p - 1 = 0")
  case True
  then show ?thesis using assms by (auto simp: onTimeout_def parser_inv_def)
next
  case False
  then have "1 \<le> unat (m_retriesLeft p)" "unat (m_retriesLeft p) \<le> 5"
    using assms by (auto simp: parser_inv_def)
  moreover from this have "unat (m_retriesLeft p - 1) = unat (m_retriesLeft p) - 1"
    by (intro unat_minus_one) auto
  moreover have "unat (m_retriesLeft p - 1) \<noteq> 0" using False by (simp add: unat_eq_0)
  ultimately show ?thesis using False by (simp add: onTimeout_def parser_inv_def Let_def, arith)
qed

lemma loopOverResponse_inv [parser_invs]:
  "parser_inv p \<Longrightarrow> loopOverResponse n build prefix p = (r, p', es) \<Longrightarrow> parser_inv p'"
proof (induction n build prefix p arbitrary: r p' es rule: loopOverResponse.induct)
  case (1 n build prefix p)
  let ?p = "p\<lparr>m_parsePosition := m_parsePosition p + n, m_responseCounter := m_responseCounter p + 1\<rparr>"
  have p: "parser_inv ?p" using "1.prems"(1) by (simp add: parser_inv_def)
  show ?case
  proof (cases "0 < n \<and> m_parsePosition p + n \<le> length (m_requestResponse p)")
    case True
    then show ?thesis
      using "1.prems"(2) p "1.IH" [OF True refl refl _ p]
      by (subst (asm) loopOverResponse.simps) (auto simp: Let_def split: if_splits prod.splits)
  next
    case False
    then show ?thesis
      using "1.prems"(2) continueRequest_inv [OF "1.prems"(1)]
      by (subst (asm) loopOverResponse.simps) (auto split: prod.splits bool.splits)
  qed
qed

lemma handleVersionResponse_inv [parser_invs]:
  "parser_inv p \<Longrightarrow> handleVersionResponse p = Inr (r, p', es) \<Longrightarrow> parser_inv p'"
  by (auto simp: handleVersionResponse_def bindR_Inr_iff Let_def case_prod_beta
      split: option.splits if_splits intro!: startRequest_inv)

lemma handleResponse_inv [parser_invs]:
  assumes "parser_inv p" and "handleResponse junk p = Inr (r, p', es)"
  shows "parser_inv p'"
proof -
  have 1: "parser_inv (p\<lparr>m_parsePosition := 3\<rparr>)" using assms(1) by (simp add: parser_inv_def)
  show ?thesis
    using assms handleVersionResponse_inv [OF assms(1)] loopOverResponse_inv [OF 1] loopOverResponse_inv [OF assms(1)]
      continueRequest_inv [OF assms(1)]
    by (auto simp: handleResponse_def Let_def bindR_Inr_iff split: if_splits prod.splits bool.splits)
qed

lemma onIncomingMessage_inv [parser_invs]:
  assumes "parser_inv p" and "onIncomingMessage junk p m = Inr (r, p', es)"
  shows "parser_inv p'"
proof -
  define p1 where "p1 = (if m_data m = [] then p\<lparr>m_requestLength := length (m_requestResponse p)\<rparr>
                   else p\<lparr>m_requestResponse := m_requestResponse p @ m_data m\<rparr>)"
  have p1: "parser_inv p1" using assms(1) by (simp add: parser_inv_def p1_def)
  have drop: "parser_inv q \<Longrightarrow> parser_inv (q\<lparr>m_activeRequest := None\<rparr>)" for q
    by (simp add: parser_inv_def)
  show ?thesis
    using assms drop handleResponse_inv [OF p1] continueRequest_inv [OF p1]
    by (auto simp: onIncomingMessage_def Let_def bindR_Inr_iff p1_def [symmetric]
        split: if_splits prod.splits bool.splits)
qed

lemma onTestWait_inv [parser_invs]: "parser_inv p \<Longrightarrow> parser_inv (fst (onTestWait w a p))"
  using sendCommand_inv [of addressUBA2 "0x1d" 0 "[0x5a]" False p]
  by (auto simp: onTestWait_def refreshTestMode_def test_wait_for_def parser_inv_def
      split: test_wait.splits prod.splits)

text \<open>A run of timeouts without any response between them.\<close>

primrec timeouts :: "nat \<Rightarrow> parser \<Rightarrow> bool list \<times> parser \<times> effect list" where
  "timeouts 0 p = ([], p, [])"
| "timeouts (Suc n) p =
     (case onTimeout p of (r, p', es) \<Rightarrow> (case timeouts n p' of (rs, p'', fs) \<Rightarrow> (r # rs, p'', es @ fs)))"

lemma timeouts_run:
  assumes "m_activeRequest p = Some m" and "unat (m_retriesLeft p) = Suc n"
  shows "timeouts (Suc n) p =
    (replicate n False @ [True], p\<lparr>m_retriesLeft := 0, m_activeRequest := None\<rparr>, replicate n (Send m))"
  using assms
proof (induction n arbitrary: p)
  case 0
  then have "m_retriesLeft p = 1" by (simp add: word_unat_eq_iff)
  with 0 show ?case by (simp add: onTimeout_def)
next
  case (Suc n)
  let ?p = "p\<lparr>m_retriesLeft := m_retriesLeft p - 1\<rparr>"
  have "unat (m_retriesLeft p - 1) = Suc n"
    using Suc.prems(2) by (subst unat_minus_one) auto
  then have left: "unat (m_retriesLeft ?p) = Suc n" and nz: "m_retriesLeft p - 1 \<noteq> 0"
    by (auto simp: word_unat_eq_iff)
  have "onTimeout p = (False, ?p, [Send m])"
    using Suc.prems(1) nz by (simp add: onTimeout_def sendActiveRequest_def)
  then show ?case using Suc.IH [of ?p] Suc.prems(1) left by simp
qed

section \<open>Assembling a response\<close>

text \<open>
  Telegrams that answer a request one after the other: the first starts at the offset \<open>k\<close>, each
  continues where the one before ended, none is empty.
\<close>

fun answers :: "u8 \<Rightarrow> u16 \<Rightarrow> nat \<Rightarrow> ems_message list \<Rightarrow> bool" where
  "answers dest type k [] \<longleftrightarrow> True"
| "answers dest type k (m # ms) \<longleftrightarrow> m_source m = dest \<and> getType m = type \<and> unat (m_offset m) = k
     \<and> m_data m \<noteq> [] \<and> answers dest type (k + length (m_data m)) ms"

text \<open>Feeding telegrams; the results and the effects in order.\<close>

fun receive_all :: "(nat \<Rightarrow> u8) \<Rightarrow> parser \<Rightarrow> ems_message list \<Rightarrow>
    (tribool list \<times> parser \<times> effect list) result" where
  "receive_all junk p [] = Inr ([], p, [])"
| "receive_all junk p (m # ms) =
     bindR (onIncomingMessage junk p m) (\<lambda>(r, p', es).
     bindR (receive_all junk p' ms) (\<lambda>(rs, p'', fs). Inr (r # rs, p'', es @ fs)))"

fun is_send :: "effect \<Rightarrow> bool" where
  "is_send (Send _) = True" | "is_send _ = False"

lemma sendCommand_fields [simp]:
  "m_requestResponse (fst (sendCommand d t off data er p)) = m_requestResponse p"
  "m_requestOffset (fst (sendCommand d t off data er p)) = m_requestOffset p"
  "m_requestLength (fst (sendCommand d t off data er p)) = m_requestLength p"
  "m_requestDestination (fst (sendCommand d t off data er p)) = m_requestDestination p"
  "m_requestType (fst (sendCommand d t off data er p)) = m_requestType p"
  "m_outputRawData (fst (sendCommand d t off data er p)) = m_outputRawData p"
  "m_parsePosition (fst (sendCommand d t off data er p)) = m_parsePosition p"
  "m_responseCounter (fst (sendCommand d t off data er p)) = m_responseCounter p"
  "m_testMode (fst (sendCommand d t off data er p)) = m_testMode p"
  "m_activeRequest (fst (sendCommand d t off data er p)) \<noteq> None"
  "list_all is_send (snd (sendCommand d t off data er p))"
  by (simp_all add: sendCommand_def sendActiveRequest_def Let_def)

text \<open>One telegram of the answer: the last, or one after which the rest is asked for.\<close>

lemma raw_step:
  assumes "m_activeRequest p \<noteq> None" and "m_outputRawData p" and "m_requestType p \<noteq> 0xff"
    and "answers (m_requestDestination p) (m_requestType p) (m_requestOffset p + length (m_requestResponse p)) (m # ms)"
  shows "m_requestLength p \<le> length (m_requestResponse p) + length (m_data m) \<Longrightarrow>
      \<exists>p'. onIncomingMessage junk p m = Inr (Yes, p', [Output (raw_line (m_requestResponse p @ m_data m))])
        \<and> m_activeRequest p' = None"
    "length (m_requestResponse p) + length (m_data m) < m_requestLength p \<Longrightarrow>
      \<exists>p' es. onIncomingMessage junk p m = Inr (Indeterminate, p', es) \<and> list_all is_send es
        \<and> m_activeRequest p' \<noteq> None \<and> m_outputRawData p' \<and> m_requestResponse p' = m_requestResponse p @ m_data m
        \<and> m_requestOffset p' = m_requestOffset p \<and> m_requestLength p' = m_requestLength p
        \<and> m_requestDestination p' = m_requestDestination p \<and> m_requestType p' = m_requestType p"
proof -
  let ?p = "p\<lparr>m_requestResponse := m_requestResponse p @ m_data m\<rparr>"
  have "getType m \<noteq> 0xff" "m_source m = m_requestDestination p" "getType m = m_requestType p"
    "unat (m_offset m) = length (m_requestResponse p) + m_requestOffset p" "m_data m \<noteq> []"
    using assms(3,4) by auto
  then have step: "onIncomingMessage junk p m = Inr (case continueRequest ?p of
      (False, p2, es) \<Rightarrow> (Yes, p2\<lparr>m_activeRequest := None\<rparr>, es @ [Output (raw_line (m_requestResponse p2))])
    | (True, p2, es) \<Rightarrow> (Indeterminate, p2, es))"
    using assms(1,2) by (auto simp: onIncomingMessage_def Let_def split: prod.splits bool.splits)
  show "\<exists>p'. onIncomingMessage junk p m = Inr (Yes, p', [Output (raw_line (m_requestResponse p @ m_data m))])
      \<and> m_activeRequest p' = None"
    if "m_requestLength p \<le> length (m_requestResponse p) + length (m_data m)"
    using that step by (simp add: continueRequest_def)
  let ?off = "of_nat (m_requestOffset p + length (m_requestResponse ?p)) :: u8"
  let ?rem = "of_nat (m_requestLength p - length (m_requestResponse ?p)) :: u8"
  let ?q = "sendCommand (m_requestDestination p) (m_requestType p) ?off [?rem] True ?p"
  show "\<exists>p' es. onIncomingMessage junk p m = Inr (Indeterminate, p', es) \<and> list_all is_send es
      \<and> m_activeRequest p' \<noteq> None \<and> m_outputRawData p' \<and> m_requestResponse p' = m_requestResponse p @ m_data m
      \<and> m_requestOffset p' = m_requestOffset p \<and> m_requestLength p' = m_requestLength p
      \<and> m_requestDestination p' = m_requestDestination p \<and> m_requestType p' = m_requestType p"
    if "length (m_requestResponse p) + length (m_data m) < m_requestLength p"
    using that assms(2) unfolding step
    by (intro exI [of _ "fst ?q"] exI [of _ "snd ?q"]) (simp add: continueRequest_def Let_def case_prod_beta)
qed

lemma raw_response_complete:
  assumes "m_activeRequest p \<noteq> None" and "m_outputRawData p" and "m_requestType p \<noteq> 0xff"
    and "answers (m_requestDestination p) (m_requestType p)
           (m_requestOffset p + length (m_requestResponse p)) ms"
    and "ms \<noteq> []"
    and "length (m_requestResponse p) + length (concat (map m_data (butlast ms))) < m_requestLength p"
    and "m_requestLength p \<le> length (m_requestResponse p) + length (concat (map m_data ms))"
  shows "\<exists>p' es. receive_all junk p ms =
      Inr (replicate (length ms - 1) Indeterminate @ [Yes], p',
           es @ [Output (raw_line (m_requestResponse p @ concat (map m_data ms)))])
    \<and> list_all is_send es \<and> m_activeRequest p' = None"
  using assms
proof (induction ms arbitrary: p)
  case (Cons m ms)
  note step = raw_step [OF Cons.prems(1-4), of junk]
  show ?case
  proof (cases ms)
    case Nil
    then show ?thesis using step(1) Cons.prems(7) by auto
  next
    case (Cons m' ms')
    then obtain p1 es1 where 1: "onIncomingMessage junk p m = Inr (Indeterminate, p1, es1)" "list_all is_send es1"
      "m_activeRequest p1 \<noteq> None" "m_outputRawData p1" "m_requestResponse p1 = m_requestResponse p @ m_data m"
      "m_requestOffset p1 = m_requestOffset p" "m_requestLength p1 = m_requestLength p"
      "m_requestDestination p1 = m_requestDestination p" "m_requestType p1 = m_requestType p"
      using step(2) Cons.prems(6) by auto
    obtain p' es where "receive_all junk p1 ms =
        Inr (replicate (length ms - 1) Indeterminate @ [Yes], p',
             es @ [Output (raw_line (m_requestResponse p1 @ concat (map m_data ms)))])"
      "list_all is_send es" "m_activeRequest p' = None"
      using Cons.IH [OF 1(3,4)] Cons.prems(3,4,6,7) 1(5-9) Cons by (auto simp: add.assoc)
    then show ?thesis using 1(1,2,5) Cons by (intro exI [of _ p'] exI [of _ "es1 @ es"]) simp
  qed
qed simp

section \<open>Contact information\<close>

lemma utf16_be_units:
  assumes "length us = 20"
  shows "contact_units (concat (map (\<lambda>u. [high_byte u, low_byte u]) us)) = us"
proof -
  have nth: "concat (map (\<lambda>u. [high_byte u, low_byte u]) us) ! (2 * i) = high_byte (us ! i)"
    "concat (map (\<lambda>u. [high_byte u, low_byte u]) us) ! Suc (2 * i) = low_byte (us ! i)"
    if "i < length us" for i and us :: "u16 list"
    using that by (induction us arbitrary: i) (auto simp: nth_Cons' less_Suc_eq_0_disj)
  have join: "push_bit 8 (ucast (high_byte u)) + ucast (low_byte u) = u" for u :: u16
  proof -
    have "push_bit 8 (ucast (high_byte u)) AND (ucast (low_byte u) :: u16) = 0"
      by (rule bit_word_eqI) (auto simp: bit_simps dest: byte_bit_bound)
    then have "push_bit 8 (ucast (high_byte u)) + (ucast (low_byte u) :: u16) =
        push_bit 8 (ucast (high_byte u)) OR ucast (low_byte u)"
      by (simp add: disjunctive_add_eq_or)
    then show ?thesis by simp
  qed
  show ?thesis
    using assms by (intro nth_equalityI) (simp_all add: contact_units_def nth join)
qed

lemma contact_lines_full:
  assumes "list_all (\<lambda>us. length us = 20 \<and>
      list_all (\<lambda>u. \<not> high_surrogate (unat u) \<and> \<not> low_surrogate (unat u)) us) ls"
  shows "\<exists>texts. contact_lines junk (concat (map (\<lambda>us. concat (map (\<lambda>u. [high_byte u, low_byte u]) us)) ls)) = Inr texts
      \<and> map from_bytes texts = map Some ls"
  using assms
proof (induction ls)
  case Nil
  then show ?case by (subst contact_lines.simps) simp
next
  case (Cons us ls)
  let ?enc = "\<lambda>us. concat (map (\<lambda>u. [high_byte u, low_byte u]) us) :: bytes"
  have len: "length (?enc us) = 40"
  proof -
    have "length (?enc us) = 2 * length us" by (induction us) simp_all
    then show ?thesis using Cons.prems by simp
  qed
  obtain s where s: "to_bytes us = Some s" "from_bytes s = Some us"
    using Cons.prems from_to_bytes [of us] by auto
  have "contact_units (?enc us) = us" using Cons.prems utf16_be_units by simp
  moreover obtain texts where "contact_lines junk (concat (map ?enc ls)) = Inr texts"
      "map from_bytes texts = map Some ls"
    using Cons by auto
  ultimately show ?case
    using s len by (subst contact_lines.simps) (auto simp del: length_concat)
qed

section \<open>Properties\<close>

text \<open>A parser without a request, and one that reads three raw bytes; both serve as examples.\<close>

definition idle_parser :: parser where
  "idle_parser = parser_init \<lparr>m_responseCounter = 0, m_retriesLeft = 0, m_activeRequest = None,
     m_requestResponse = [], m_requestOffset = 0, m_requestLength = 0, m_requestDestination = 0,
     m_requestType = 0, m_parsePosition = 0, m_outputRawData = False, m_testMode = None\<rparr>"

definition reading_parser :: parser where
  "reading_parser = fst (startRequest 0x90 0x01b9 0 3 True True idle_parser)"

definition first_telegram :: ems_message where
  "first_telegram = receivedMessage [0x90, 0x0b, 0xff, 0, 0x01, 0xb9, 1, 2]"

definition second_telegram :: ems_message where
  "second_telegram = receivedMessage [0x90, 0x0b, 0xff, 2, 0x01, 0xb9, 3]"

lemma second_telegram_simps [simp]:
  "m_source second_telegram = 0x90" "getType second_telegram = 0x01b9" "m_offset second_telegram = 2"
  "m_data second_telegram = [3]"
  by (simp_all add: second_telegram_def receivedMessage_def getType_def)

lemma idle_parser_simps [simp]:
  "m_activeRequest idle_parser = None" "m_testMode idle_parser = None" "parser_inv idle_parser"
  by (simp_all add: idle_parser_def parser_init_def parser_inv_def)

lemma first_telegram_simps [simp]:
  "m_source first_telegram = 0x90" "getType first_telegram = 0x01b9" "m_offset first_telegram = 0"
  "m_data first_telegram = [1, 2]"
  by (simp_all add: first_telegram_def receivedMessage_def getType_def)

lemma reading_parser_simps [simp]:
  "m_activeRequest reading_parser \<noteq> None" "m_outputRawData reading_parser"
  "m_requestType reading_parser = 0x01b9" "m_requestDestination reading_parser = 0x90"
  "m_requestOffset reading_parser = 0" "m_requestResponse reading_parser = []"
  "m_requestLength reading_parser = 3" "parser_inv reading_parser"
  by (simp_all add: reading_parser_def startRequest_def continueRequest_def Let_def parser_invs)

text \<open>
  a command that is never answered is sent five times in all: four timeouts send the same
  telegram again, the fifth reports the timeout, and then no request is active.
\<close>

theorem timeouts_end_request:
  "timeouts 5 (fst (sendCommand dest type offset data expectResponse p)) =
     ([False, False, False, False, True],
      (fst (sendCommand dest type offset data expectResponse p))\<lparr>m_retriesLeft := 0, m_activeRequest := None\<rparr>,
      replicate 4 (Send (sendMessage_ctor dest type offset data expectResponse)))"
proof -
  let ?p = "fst (sendCommand dest type offset data expectResponse p)"
  have "m_activeRequest ?p = Some (sendMessage_ctor dest type offset data expectResponse)"
    "unat (m_retriesLeft ?p) = Suc 4"
    by (simp_all add: sendCommand_def Let_def MaxRequestRetries_def)
  from timeouts_run [OF this] show ?thesis by (simp add: numeral_eq_Suc)
qed

text \<open>
  C23: a raw read is answered completely: however the device cuts its answer into telegrams, each
  but the last only asks for the rest, and the last one prints all bytes in order and frees the
  parser.
\<close>

theorem raw_read_complete:
  assumes "type \<noteq> 0xff" and "0 < len"
    and "answers dest type offset ms" and "ms \<noteq> []"
    and "length (concat (map m_data (butlast ms))) < len"
    and "len \<le> length (concat (map m_data ms))"
  shows "\<exists>p' es. receive_all junk (fst (startRequest dest type offset len True True p)) ms =
      Inr (replicate (length ms - 1) Indeterminate @ [Yes], p',
           es @ [Output (raw_line (concat (map m_data ms)))])
    \<and> list_all is_send es \<and> m_activeRequest p' = None"
proof -
  let ?p = "fst (startRequest dest type offset len True True p)"
  have "m_activeRequest ?p \<noteq> None" "m_outputRawData ?p" "m_requestType ?p = type"
    "m_requestDestination ?p = dest" "m_requestOffset ?p = offset" "m_requestResponse ?p = []"
    "m_requestLength ?p = len"
    using assms(2) by (simp_all add: startRequest_def continueRequest_def Let_def)
  with raw_response_complete [of ?p ms junk] assms show ?thesis by simp
qed

lemma raw_read_complete_witness:
  "\<exists>p' es. receive_all (\<lambda>_. 0) (fst (startRequest 0x90 0x01b9 0 3 True True idle_parser))
       [first_telegram, second_telegram] =
      Inr ([Indeterminate, Yes], p', es @ [Output (raw_line [1, 2, 3])])"
  using raw_read_complete [of "0x01b9" 3 "0x90" 0
      "[first_telegram, second_telegram]" "\<lambda>_. 0" idle_parser]
  by (force simp del: receive_all.simps)

text \<open>
  a telegram that was taken as part of a raw answer is not taken a second time: its repetition,
  as after a retry that crossed the answer, changes nothing.
\<close>

theorem duplicate_ignored:
  assumes "m_outputRawData p" and "m_data m \<noteq> []" and "getType m \<noteq> 0xff"
    and "onIncomingMessage junk p m = Inr (Indeterminate, p', es)" and "p' \<noteq> p"
  shows "onIncomingMessage junk p' m = Inr (Indeterminate, p', [])"
proof -
  let ?p = "p\<lparr>m_requestResponse := m_requestResponse p @ m_data m\<rparr>"
  have c: "continueRequest ?p = (True, p', es)"
    and o: "unat (m_offset m) = length (m_requestResponse p) + m_requestOffset p"
    using assms by (auto simp: onIncomingMessage_def Let_def split: if_splits prod.splits bool.splits)
  then have "m_requestResponse p' = m_requestResponse p @ m_data m" "m_requestOffset p' = m_requestOffset p"
    by (auto simp: continueRequest_def Let_def split: if_splits dest!: arg_cong [where f = fst])
  then show ?thesis
    using o assms(2,3) by (simp add: onIncomingMessage_def)
qed

lemma duplicate_ignored_witness:
  "\<exists>p' es. onIncomingMessage (\<lambda>_. 0) reading_parser first_telegram = Inr (Indeterminate, p', es)
     \<and> onIncomingMessage (\<lambda>_. 0) p' first_telegram = Inr (Indeterminate, p', [])"
proof -
  obtain p' es where c: "continueRequest (reading_parser\<lparr>m_requestResponse := [1, 2]\<rparr>) = (True, p', es)"
    and r: "m_requestResponse p' = [1, 2]"
    by (simp add: continueRequest_def Let_def sendCommand_def)
  then have "onIncomingMessage (\<lambda>_. 0) reading_parser first_telegram = Inr (Indeterminate, p', es)"
    by (simp add: onIncomingMessage_def)
  moreover have "p' \<noteq> reading_parser" using r by auto
  ultimately show ?thesis
    using duplicate_ignored [of reading_parser first_telegram "\<lambda>_. 0" p' es] by auto
qed

text \<open>
  when the bytes wanted lie beyond offset 255 no data telegram can match any more, since the
  offset of a telegram is one byte: the request can only time out.
\<close>

theorem request_beyond_255_stalls:
  assumes "m_activeRequest p \<noteq> None" and "256 \<le> m_requestOffset p + length (m_requestResponse p)"
    and "getType m \<noteq> 0xff"
  shows "onIncomingMessage junk p m = Inr (Indeterminate, p, [])"
proof -
  have "unat (m_offset m) \<noteq> length (m_requestResponse p) + m_requestOffset p"
    using assms(2) unat_u8 [of "m_offset m"] by linarith
  then show ?thesis using assms by (simp add: onIncomingMessage_def)
qed

lemma request_beyond_255_stalls_witness:
  "onIncomingMessage (\<lambda>_. 0) (reading_parser\<lparr>m_requestOffset := 255, m_requestResponse := [7]\<rparr>) first_telegram
     = Inr (Indeterminate, reading_parser\<lparr>m_requestOffset := 255, m_requestResponse := [7]\<rparr>, [])"
  using request_beyond_255_stalls
    [of "reading_parser\<lparr>m_requestOffset := 255, m_requestResponse := [7]\<rparr>" first_telegram "\<lambda>_. 0"]
  by simp

text \<open>
  the answer to a version request is read at its second and third byte without a check: the
  handler indexes outside the response exactly when the answer so far has fewer than three bytes.
\<close>

theorem version_response_fault_iff:
  assumes "m_activeRequest p \<noteq> None" and "m_requestType p = 0x02" and "\<not> m_outputRawData p"
    and "m_source m = m_requestDestination p" and "getType m = 0x02"
    and "unat (m_offset m) = length (m_requestResponse p) + m_requestOffset p"
  shows "onIncomingMessage junk p m = Inl OutOfBounds \<longleftrightarrow>
     length (m_requestResponse p) + length (m_data m) < 3"
proof -
  let ?q = "if m_data m = [] then p\<lparr>m_requestLength := length (m_requestResponse p)\<rparr>
            else p\<lparr>m_requestResponse := m_requestResponse p @ m_data m\<rparr>"
  have len: "length (m_requestResponse ?q) = length (m_requestResponse p) + length (m_data m)" by simp
  have "onIncomingMessage junk p m = Inl OutOfBounds \<longleftrightarrow> handleVersionResponse ?q = Inl OutOfBounds"
    using assms by (auto simp: onIncomingMessage_def handleResponse_def Let_def bindR_Inl_iff)
  also have "\<dots> \<longleftrightarrow> length (m_requestResponse ?q) < 3"
    unfolding handleVersionResponse_def Let_def vec_index_def by (auto simp: bindR_Inl_iff)
  finally show ?thesis by (simp only: len)
qed

lemma version_response_fault_iff_witness:
  "onIncomingMessage (\<lambda>_. 0) (fst (startRequest addressUBA2 0x02 0 3 True False idle_parser))
     (receivedMessage [0x88, 0x0b, 0x02, 0, 95, 1]) = Inl OutOfBounds"
proof -
  let ?p = "fst (startRequest addressUBA2 0x02 0 3 True False idle_parser)"
  have "m_activeRequest ?p \<noteq> None" "m_requestType ?p = 0x02" "\<not> m_outputRawData ?p"
    "m_requestDestination ?p = 0x88" "m_requestResponse ?p = []" "m_requestOffset ?p = 0"
    by (simp_all add: startRequest_def continueRequest_def Let_def address_defs)
  then show ?thesis
    using version_response_fault_iff [of ?p "receivedMessage [0x88, 0x0b, 0x02, 0, 95, 1]" "\<lambda>_. 0"]
    by (simp add: receivedMessage_def getType_def)
qed



text \<open>
  the invariant of the retry counter holds initially and survives every telegram.
\<close>

theorem parser_invariant_preserved:
  assumes "parser_inv p" and "receive_all junk p ms = Inr (rs, p', es)"
  shows "parser_inv p' \<and> parser_inv (fst (snd (onTimeout p')))"
proof -
  have "parser_inv p'"
    using assms
    by (induction ms arbitrary: p rs es) (auto simp: bindR_Inr_iff dest: onIncomingMessage_inv)
  then show ?thesis by (simp add: onTimeout_inv)
qed

lemma parser_invariant_preserved_witness:
  "\<exists>rs p' es. receive_all (\<lambda>_. 0) reading_parser [first_telegram] = Inr (rs, p', es) \<and> parser_inv p'"
proof -
  obtain p' es where "continueRequest (reading_parser\<lparr>m_requestResponse := [1, 2]\<rparr>) = (True, p', es)"
    by (simp add: continueRequest_def Let_def sendCommand_def)
  then have "receive_all (\<lambda>_. 0) reading_parser [first_telegram] = Inr ([Indeterminate], p', es)"
    by (simp add: onIncomingMessage_def)
  with parser_invariant_preserved [OF reading_parser_simps(8) this] show ?thesis by blast
qed

end
