(* ===== verification/FaultLists.thy ===== *)
theory FaultLists
  imports ApiCommandParser
begin

text \<open>
  The lists of fault records that \<open>geterrors\<close> and \<open>activeerrors\<close> print
  (\<open>ApiCommandParser::handleResponse\<close>, \<open>loopOverResponse\<close>).  The device cuts its answer into
  telegrams as it likes; the parser prints what is complete after each of them.  For the history of
  faults the lines do not depend on the cuts; for the list of active faults they do.
\<close>

section \<open>The lines of a list\<close>

text \<open>The lines a list of records stands for, numbered from \<open>k\<close>, up to the first empty one.\<close>

fun record_lines :: "('r \<Rightarrow> string) \<Rightarrow> string \<Rightarrow> nat \<Rightarrow> 'r list \<Rightarrow> string list" where
  "record_lines text prefix k [] = []"
| "record_lines text prefix k (r # rs) =
     (if text r = [] then []
      else (prefix @ fmt_0d 2 k @ '' '' @ text r) # record_lines text prefix (k + 1) rs)"

lemma record_lines_append:
  "record_lines text prefix k (xs @ ys) =
     record_lines text prefix k xs
     @ (if list_all (\<lambda>r. text r \<noteq> []) xs then record_lines text prefix (k + length xs) ys else [])"
  by (induction xs arbitrary: k) auto

lemma lines_of_simps [simp]:
  "lines_of [] = []" "lines_of (Output l # es) = l # lines_of es" "lines_of (es @ fs) = lines_of es @ lines_of fs"
  by (simp_all add: lines_of_def)

lemma lines_of_sends: "list_all is_send es \<Longrightarrow> lines_of es = []"
  by (induction es) (auto simp: lines_of_def elim: is_send.elims)

text \<open>What a step of the parser leaves alone while it assembles a response.\<close>

definition same_request :: "parser \<Rightarrow> parser \<Rightarrow> bool" where
  "same_request p p' \<longleftrightarrow> m_requestResponse p' = m_requestResponse p \<and> m_requestOffset p' = m_requestOffset p
    \<and> m_requestLength p' = m_requestLength p \<and> m_requestDestination p' = m_requestDestination p
    \<and> m_requestType p' = m_requestType p \<and> m_outputRawData p' = m_outputRawData p
    \<and> (m_activeRequest p \<noteq> None \<longrightarrow> m_activeRequest p' \<noteq> None)"

lemma same_request_trans: "same_request p q \<Longrightarrow> same_request q r \<Longrightarrow> same_request p r"
  by (simp add: same_request_def)

lemma same_request_position [simp]: "same_request p (p\<lparr>m_parsePosition := a, m_responseCounter := b\<rparr>)"
  by (simp add: same_request_def)

lemma continueRequest_effect:
  obtains p' es where "continueRequest p = (length (m_requestResponse p) < m_requestLength p, p', es)"
    "lines_of es = []" "same_request p p'" "m_parsePosition p' = m_parsePosition p"
    "m_responseCounter p' = m_responseCounter p"
proof (cases "length (m_requestResponse p) < m_requestLength p")
  case True
  let ?s = "sendCommand (m_requestDestination p) (m_requestType p)
    (of_nat (m_requestOffset p + length (m_requestResponse p)))
    [of_nat (m_requestLength p - length (m_requestResponse p))] True p"
  show ?thesis
    by (rule that [of "fst ?s" "snd ?s"])
      (use True in \<open>simp_all add: continueRequest_def Let_def lines_of_sends same_request_def\<close>)
next
  case False
  show ?thesis
    by (rule that [of p "[]"]) (use False in \<open>simp_all add: continueRequest_def same_request_def\<close>)
qed

section \<open>Records in a response\<close>

locale record_list = wire_record encode decode width fits
  for encode :: "'r \<Rightarrow> bytes" and decode width fits +
  fixes build :: "'r \<Rightarrow> string"
  assumes decode_take: "decode (take width b) = decode b"
begin

definition encoded :: "'r list \<Rightarrow> bytes" where
  "encoded rs = concat (map encode rs)"

lemma encoded_length: "list_all fits rs \<Longrightarrow> length (encoded rs) = width * length rs"
  by (induction rs) (simp_all add: encoded_def encode_width)

lemma encoded_drop: "list_all fits rs \<Longrightarrow> drop (width * j) (encoded rs) = encoded (drop j rs)"
proof (induction rs arbitrary: j)
  case (Cons r rs)
  then show ?case
    by (cases j) (simp_all add: encoded_def encode_width drop_append algebra_simps)
qed (simp add: encoded_def)

lemma record_read:
  assumes "list_all fits rs" and "j < length rs" and "width * j + width \<le> k"
  shows "decode (drop (width * j) (take k (encoded rs))) = rs ! j"
proof -
  have "drop (width * j) (take k (encoded rs)) = take (k - width * j) (encoded (drop j rs))"
    using encoded_drop [OF assms(1), of j] by (simp add: drop_take)
  also have "drop j rs = rs ! j # drop (Suc j) rs" using assms(2) by (simp add: Cons_nth_drop_Suc)
  finally have "take width (drop (width * j) (take k (encoded rs))) = encode (rs ! j)"
    using assms by (simp add: encoded_def encode_width list_all_length min_def)
  then show ?thesis
    using decode_take [of "drop (width * j) (take k (encoded rs))"] decode_encode [of "rs ! j"] assms
    by (simp add: list_all_length)
qed

text \<open>
  One pass over what has arrived: \<open>k\<close> bytes of the records, of which the first \<open>j\<close> are printed; \<open>pre\<close> is what precedes the records.
\<close>

definition reads :: "bytes \<Rightarrow> string" where
  "reads b = build (decode b)"

text \<open>One record of the pass.\<close>

lemma loop_record:
  assumes "list_all fits rs" and "j < length rs" and "width * j + width \<le> k" and "k \<le> width * length rs"
    and "m_requestResponse p = pre @ take k (encoded rs)" and "m_parsePosition p = length pre + width * j"
  shows "loopOverResponse width reads prefix p =
    (if build (rs ! j) = []
     then (Yes, p\<lparr>m_parsePosition := m_parsePosition p + width, m_responseCounter := m_responseCounter p + 1\<rparr>, [])
     else case loopOverResponse width reads prefix
           (p\<lparr>m_parsePosition := m_parsePosition p + width, m_responseCounter := m_responseCounter p + 1\<rparr>) of (r, p'', es) \<Rightarrow>
       (r, p'', Output (prefix @ fmt_0d 2 (m_responseCounter p + 1) @ '' '' @ build (rs ! j)) # es))"
proof -
  have rec: "reads (drop (m_parsePosition p) (m_requestResponse p)) = build (rs ! j)"
    using record_read [OF assms(1-3)] assms(5,6) by (simp add: reads_def)
  have "length (m_requestResponse p) = length pre + k" using assms by (simp add: encoded_length)
  then have cond: "0 < width \<and> m_parsePosition p + width \<le> length (m_requestResponse p)"
    using assms(3,6) width_pos by simp
  show ?thesis by (subst loopOverResponse.simps) (simp add: cond rec Let_def)
qed

text \<open>
  What a pass leaves behind that starts with record \<open>j\<close>, when \<open>n\<close> bytes precede the records and \<open>k\<close> bytes of
  them have arrived; an empty text ends it.
\<close>

definition pass_done :: "string \<Rightarrow> 'r list \<Rightarrow> nat \<Rightarrow> nat \<Rightarrow> nat \<Rightarrow> parser \<Rightarrow> tribool \<times> parser \<times> effect list \<Rightarrow> bool" where
  "pass_done prefix rs n j k p res \<longleftrightarrow> (case res of (r, p', es) \<Rightarrow>
     let printed = drop j (take (k div width) rs)
     in same_request p p' \<and> lines_of es = record_lines build prefix (m_responseCounter p + 1) printed
       \<and> (if list_all (\<lambda>r. build r \<noteq> []) printed
          then r = (if m_requestLength p \<le> n + k then Yes else Indeterminate)
            \<and> m_parsePosition p' = n + width * (k div width) \<and> m_responseCounter p' = m_responseCounter p + (k div width - j)
          else r = Yes))"

lemma loop_end:
  assumes "list_all fits rs" and "m_requestResponse p = pre @ take k (encoded rs)" and "k \<le> width * length rs"
    and "m_parsePosition p = length pre + width * (k div width)"
  shows "pass_done prefix rs (length pre) (k div width) k p (loopOverResponse width reads prefix p)"
proof -
  have len: "length (m_requestResponse p) = length pre + k" using assms by (simp add: encoded_length)
  have "\<not> m_parsePosition p + width \<le> length (m_requestResponse p)"
    using assms(4) len dividend_less_times_div [OF width_pos, of k] by simp
  then have "loopOverResponse width reads prefix p =
    (case continueRequest p of (False, p', es) \<Rightarrow> (Yes, p', es) | (True, p', es) \<Rightarrow> (Indeterminate, p', es))"
    by (subst loopOverResponse.simps) simp
  moreover obtain p' es where "continueRequest p = (length pre + k < m_requestLength p, p', es)"
    "lines_of es = []" "same_request p p'" "m_parsePosition p' = m_parsePosition p"
    "m_responseCounter p' = m_responseCounter p"
    using continueRequest_effect [of p] len by metis
  ultimately show ?thesis using assms(4) by (cases "length pre + k < m_requestLength p") (auto simp: pass_done_def)
qed

lemma pass_done_Cons:
  assumes "drop j (take (k div width) rs) = r # drop (Suc j) (take (k div width) rs)" and "j < k div width"
    and "build r \<noteq> []" and "same_request p q" and "m_responseCounter q = m_responseCounter p + 1"
    and "m_requestLength q = m_requestLength p" and "pass_done prefix rs n (Suc j) k q (t, p', es)"
  shows "pass_done prefix rs n j k p (t, p', Output (prefix @ fmt_0d 2 (m_responseCounter p + 1) @ '' '' @ build r) # es)"
  using assms same_request_trans [OF assms(4)] by (auto simp: pass_done_def Let_def split: if_splits)

lemma loop_pass:
  assumes "list_all fits rs" and "m_requestResponse p = pre @ take k (encoded rs)" and "k \<le> width * length rs"
    and "m_parsePosition p = length pre + width * j" and "j \<le> k div width"
  shows "pass_done prefix rs (length pre) j k p (loopOverResponse width reads prefix p)"
  using assms(2,4,5)
proof (induction "k div width - j" arbitrary: j p)
  case 0
  then show ?case using loop_end [OF assms(1) _ assms(3)] by simp
next
  case (Suc d)
  then have j: "j < k div width" by simp
  have kd: "k div width \<le> length rs"
    using assms(3) width_pos by (metis div_le_mono nonzero_mult_div_cancel_left less_numeral_extra(3))
  have "width * Suc j \<le> width * (k div width)" using j by (intro mult_le_mono2) simp
  also have "\<dots> \<le> k" by simp
  finally have jk: "width * j + width \<le> k" by simp
  let ?p = "p\<lparr>m_parsePosition := m_parsePosition p + width, m_responseCounter := m_responseCounter p + 1\<rparr>"
  have jr: "j < length rs" using j kd by simp
  have split: "drop j (take (k div width) rs) = rs ! j # drop (Suc j) (take (k div width) rs)"
    using j kd by (simp add: Cons_nth_drop_Suc [symmetric])
  note step = loop_record [OF assms(1) jr jk assms(3) Suc.prems(1,2), of prefix]
  show ?case
  proof (cases "build (rs ! j) = []")
    case True
    then show ?thesis using split by (simp add: step pass_done_def Let_def)
  next
    case False
    have ih: "pass_done prefix rs (length pre) (Suc j) k ?p (loopOverResponse width reads prefix ?p)"
      using Suc.hyps(2) Suc.prems j by (intro Suc.hyps(1)) simp_all
    obtain r p' es where r: "loopOverResponse width reads prefix ?p = (r, p', es)" by (metis surj_pair)
    show ?thesis
      using pass_done_Cons [OF split j False same_request_position _ _ ih [unfolded r]] False r by (simp add: step)
  qed
qed

text \<open>A parser without a request ignores what comes.\<close>

lemma receive_idle:
  "m_activeRequest p = None \<Longrightarrow> receive_all junk p ms = Inr (replicate (length ms) Indeterminate, p, [])"
  by (induction ms) (simp_all add: onIncomingMessage_def)

lemma answer_step:
  assumes "m_activeRequest p \<noteq> None" and "\<not> m_outputRawData p" and "m_requestType p = type" and "type \<noteq> 0xff"
    and handler: "\<And>q. m_requestType q = type \<Longrightarrow> handleResponse junk q = Inr (loopOverResponse width reads prefix q)"
    and "answers (m_requestDestination p) type (m_requestOffset p + length (m_requestResponse p)) (m # ms)"
    and "loopOverResponse width reads prefix (p\<lparr>m_requestResponse := m_requestResponse p @ m_data m\<rparr>) = (r, p', es)"
  shows "onIncomingMessage junk p m = Inr (r, if r = Yes then p'\<lparr>m_activeRequest := None\<rparr> else p', es)"
  using assms(1-4,6,7) handler [of "p\<lparr>m_requestResponse := m_requestResponse p @ m_data m\<rparr>"]
  by (auto simp: onIncomingMessage_def Let_def add.commute)

text \<open>A piece that continues what has arrived.\<close>

lemma piece_continues:
  assumes "d @ rest = drop k e" and "k \<le> length e"
  shows "take k e @ d = take (k + length d) e" "rest = drop (k + length d) e" "k + length d \<le> length e"
proof -
  have "d = take (length d) (drop k e)" by (simp flip: assms(1))
  then show "take k e @ d = take (k + length d) e" by (metis take_add)
  show "rest = drop (k + length d) e"
    using arg_cong [OF assms(1), of "drop (length d)"] by (simp add: add.commute)
  show "k + length d \<le> length e" using arg_cong [OF assms(1), of length] assms(2) by simp
qed

text \<open>The pass over what one more telegram completes: it is the last, or the lines of the rest follow.\<close>

lemma pass_lines:
  assumes "pass_done prefix rs 0 j k p (r, p', es)" and "j \<le> k div width" and "k \<le> width * length rs"
    and "m_requestLength p = width * length rs"
  shows "r = Yes \<Longrightarrow> lines_of es = record_lines build prefix (m_responseCounter p + 1) (drop j rs)"
    "r \<noteq> Yes \<Longrightarrow> r = Indeterminate \<and> k < width * length rs \<and> m_parsePosition p' = width * (k div width)
      \<and> record_lines build prefix (m_responseCounter p + 1) (drop j rs) =
          lines_of es @ record_lines build prefix (m_responseCounter p' + 1) (drop (k div width) rs)"
proof -
  have split: "drop j rs = drop j (take (k div width) rs) @ drop (k div width) rs"
    using assms(2) by (metis append_take_drop_id drop_append drop_take length_take min.absorb_iff2 drop_drop le_add_diff_inverse2 take_drop)
  have kd: "k div width \<le> length rs"
    using assms(3) width_pos by (metis div_le_mono nonzero_mult_div_cancel_left less_numeral_extra(3))
  have whole: "k div width = length rs" if "width * length rs \<le> k"
    using that assms(3) width_pos by (metis le_antisym nonzero_mult_div_cancel_left less_numeral_extra(3))
  show "lines_of es = record_lines build prefix (m_responseCounter p + 1) (drop j rs)" if "r = Yes"
    using that assms(1,4) split whole by (auto simp: pass_done_def Let_def record_lines_append split: if_splits)
  show "r = Indeterminate \<and> k < width * length rs \<and> m_parsePosition p' = width * (k div width)
      \<and> record_lines build prefix (m_responseCounter p + 1) (drop j rs) =
          lines_of es @ record_lines build prefix (m_responseCounter p' + 1) (drop (k div width) rs)" if "r \<noteq> Yes"
    using that assms(1,4) split kd
    by (auto simp: pass_done_def Let_def record_lines_append add.commute add.left_commute split: if_splits)
qed

theorem list_complete:
  assumes fits: "list_all fits rs" and type: "type \<noteq> 0xff"
    and handler: "\<And>q. m_requestType q = type \<Longrightarrow> handleResponse junk q = Inr (loopOverResponse width reads prefix q)"
  shows "m_activeRequest p \<noteq> None \<Longrightarrow> \<not> m_outputRawData p \<Longrightarrow> m_requestType p = type \<Longrightarrow>
    m_requestResponse p = take k (encoded rs) \<Longrightarrow> k < width * length rs \<Longrightarrow>
    m_parsePosition p = width * (k div width) \<Longrightarrow> m_requestLength p = width * length rs \<Longrightarrow>
    answers (m_requestDestination p) type (m_requestOffset p + k) ms \<Longrightarrow>
    concat (map m_data ms) = drop k (encoded rs) \<Longrightarrow>
    \<exists>res p' es. receive_all junk p ms = Inr (res, p', es) \<and> m_activeRequest p' = None
      \<and> lines_of es = record_lines build prefix (m_responseCounter p + 1) (drop (k div width) rs)"
proof (induction ms arbitrary: k p)
  case Nil
  then show ?case using encoded_length [OF fits] by simp
next
  case (Cons m ms)
  define k' where "k' = k + length (m_data m)"
  let ?p = "p\<lparr>m_requestResponse := m_requestResponse p @ m_data m\<rparr>"
  have len: "length (encoded rs) = width * length rs" by (rule encoded_length [OF fits])
  have cat: "m_data m @ concat (map m_data ms) = drop k (encoded rs)" using Cons.prems(9) by simp
  note piece = piece_continues [OF cat, folded k'_def]
  have resp: "m_requestResponse ?p = take k' (encoded rs)" "k' \<le> width * length rs"
    and rest: "concat (map m_data ms) = drop k' (encoded rs)"
    using piece Cons.prems(4,5) len by simp_all
  have jj: "k div width \<le> k' div width" by (simp add: k'_def div_le_mono)
  obtain r p' es where loop: "loopOverResponse width reads prefix ?p = (r, p', es)" by (metis surj_pair)
  have pass: "pass_done prefix rs 0 (k div width) k' ?p (r, p', es)"
    using loop_pass [of rs ?p "[]" k' "k div width" prefix] fits resp jj Cons.prems(6) loop by simp
  note lines = pass_lines [OF this jj resp(2)]
  have lenp: "length (m_requestResponse p) = k" using Cons.prems(4,5) len by simp
  have step: "onIncomingMessage junk p m = Inr (r, if r = Yes then p'\<lparr>m_activeRequest := None\<rparr> else p', es)"
    using Cons.prems lenp loop by (intro answer_step [where ms = ms, OF _ _ _ type handler]) simp_all
  show ?case
  proof (cases "r = Yes")
    case True
    then show ?thesis using step receive_idle lines(1) Cons.prems(7) by simp
  next
    case False
    then have r: "r = Indeterminate" "k' < width * length rs" "m_parsePosition p' = width * (k' div width)"
      "record_lines build prefix (m_responseCounter p + 1) (drop (k div width) rs) =
         lines_of es @ record_lines build prefix (m_responseCounter p' + 1) (drop (k' div width) rs)"
      using lines(2) Cons.prems(7) by simp_all
    have "\<exists>res q fs. receive_all junk p' ms = Inr (res, q, fs) \<and> m_activeRequest q = None
        \<and> lines_of fs = record_lines build prefix (m_responseCounter p' + 1) (drop (k' div width) rs)"
      using pass Cons.prems r resp rest
      by (intro Cons.IH) (simp_all add: pass_done_def Let_def same_request_def k'_def add.assoc)
    then show ?thesis using step r(1,4) by auto
  qed
qed

end

section \<open>The two lists\<close>

interpretation fault_history: record_list error2_encode error2_decode sizeof_ErrorRecord2 error2_fits
  buildRecordResponse_ErrorRecord2
  by unfold_locales (simp add: sizeof_defs error2_decode_def drop_take)

interpretation active_faults: record_list error_short_encode error_short_decode sizeof_ErrorRecordShort
  error_short_fits buildRecordResponse_ErrorRecordShort
  by unfold_locales (simp add: sizeof_defs error_short_decode_def drop_take)

lemma reads_eq:
  "fault_history.reads = buildRecordResponse_ErrorRecord2 \<circ> error2_decode"
  "active_faults.reads = buildRecordResponse_ErrorRecordShort \<circ> error_short_decode"
  by (simp_all add: fun_eq_iff fault_history.reads_def active_faults.reads_def)

lemma startRequest_fields:
  assumes "0 < len"
  shows "m_activeRequest (fst (startRequest dest type offset len True raw p)) \<noteq> None"
    "m_outputRawData (fst (startRequest dest type offset len True raw p)) = raw"
    "m_requestType (fst (startRequest dest type offset len True raw p)) = type"
    "m_requestDestination (fst (startRequest dest type offset len True raw p)) = dest"
    "m_requestOffset (fst (startRequest dest type offset len True raw p)) = offset"
    "m_requestResponse (fst (startRequest dest type offset len True raw p)) = []"
    "m_requestLength (fst (startRequest dest type offset len True raw p)) = len"
    "m_parsePosition (fst (startRequest dest type offset len True raw p)) = 0"
    "m_responseCounter (fst (startRequest dest type offset len True raw p)) = 0"
  using assms by (simp_all add: startRequest_def continueRequest_def Let_def)

lemma history_complete:
  assumes "list_all error2_fits rs" and "rs \<noteq> []" and "type = 0xc0 \<or> type = 0xc2"
    and "answers dest type 0 ms" and "concat (map m_data ms) = concat (map error2_encode rs)"
  shows "\<exists>res p' es.
     receive_all junk (fst (startRequest dest type 0 (length rs * sizeof_ErrorRecord2) True False p)) ms = Inr (res, p', es)
     \<and> m_activeRequest p' = None
     \<and> lines_of es = record_lines buildRecordResponse_ErrorRecord2 (if type = 0xc0 then ''R'' else ''U'') 1 rs"
proof -
  let ?prefix = "if type = 0xc0 then ''R'' else ''U''"
  let ?p = "fst (startRequest dest type 0 (length rs * sizeof_ErrorRecord2) True False p)"
  have "0 < length rs * sizeof_ErrorRecord2" using assms(2) by (simp add: sizeof_defs)
  note fields = startRequest_fields [OF this, of dest type 0 False p]
  have handler: "handleResponse junk q = Inr (loopOverResponse sizeof_ErrorRecord2 fault_history.reads ?prefix q)"
    if "m_requestType q = type" for q
    using assms(3) that by (auto simp: handleResponse_def reads_eq)
  have len: "m_requestLength ?p = sizeof_ErrorRecord2 * length rs" by (subst fields(7)) (rule mult.commute)
  have "type \<noteq> 0xff" using assms(3) by auto
  moreover have "0 < sizeof_ErrorRecord2 * length rs" using assms(2) by (simp add: sizeof_defs)
  ultimately show ?thesis
    using fault_history.list_complete [where k = 0 and ms = ms and type = type and junk = junk and prefix = ?prefix,
        OF assms(1) _ handler fields(1)] assms(4,5) len
    by (simp add: fault_history.encoded_def fields(2-6,8,9))
qed

text \<open>Active faults: each pass starts again behind the header of three bytes.\<close>

lemma active_pass:
  assumes "list_all error_short_fits rs" and "list_all (\<lambda>r. buildRecordResponse_ErrorRecordShort r \<noteq> []) rs"
    and "length h = 3" and "m_requestResponse p @ m_data m = h @ active_faults.encoded rs"
    and "m_requestType p = 0xbf" and "m_activeRequest p \<noteq> None" and "\<not> m_outputRawData p"
    and "answers (m_requestDestination p) 0xbf (m_requestOffset p + length (m_requestResponse p)) (m # ms)"
  shows "\<exists>r p' es. onIncomingMessage junk p m = Inr (r, p', es)
    \<and> lines_of es = record_lines buildRecordResponse_ErrorRecordShort '' '' (m_responseCounter p + 1) rs
    \<and> m_responseCounter p' = m_responseCounter p + length rs
    \<and> (3 + sizeof_ErrorRecordShort * length rs < m_requestLength p \<longrightarrow>
         m_requestResponse p' = h @ active_faults.encoded rs \<and> m_requestOffset p' = m_requestOffset p
         \<and> m_requestLength p' = m_requestLength p \<and> m_requestDestination p' = m_requestDestination p
         \<and> m_requestType p' = m_requestType p \<and> \<not> m_outputRawData p' \<and> m_activeRequest p' \<noteq> None)"
proof -
  let ?p = "p\<lparr>m_requestResponse := h @ active_faults.encoded rs, m_parsePosition := 3\<rparr>"
  let ?k = "sizeof_ErrorRecordShort * length rs"
  have k: "?k div sizeof_ErrorRecordShort = length rs" by (simp add: sizeof_defs)
  have take: "take ?k (active_faults.encoded rs) = active_faults.encoded rs"
    using active_faults.encoded_length [OF assms(1)] by simp
  obtain r p' es where pass: "loopOverResponse sizeof_ErrorRecordShort active_faults.reads '' '' ?p = (r, p', es)"
    "same_request ?p p'"
    "lines_of es = record_lines buildRecordResponse_ErrorRecordShort '' '' (m_responseCounter p + 1) rs"
    "r = (if m_requestLength p \<le> 3 + ?k then Yes else Indeterminate)"
    "m_responseCounter p' = m_responseCounter p + length rs"
    using active_faults.loop_pass [of rs ?p h ?k 0 "'' ''"] assms(1-3) take
    by (cases "loopOverResponse sizeof_ErrorRecordShort active_faults.reads '' '' ?p")
      (auto simp: k active_faults.pass_done_def)
  have handler: "handleResponse junk (p\<lparr>m_requestResponse := h @ active_faults.encoded rs\<rparr>) = Inr (r, p', es)"
    using pass(1) assms(5) by (simp add: handleResponse_def reads_eq)
  have "m_source m = m_requestDestination p" "getType m = 0xbf" "m_data m \<noteq> []"
    "unat (m_offset m) = length (m_requestResponse p) + m_requestOffset p"
    using assms(8) by simp_all
  then have "onIncomingMessage junk p m = Inr (r, if r = Yes then p'\<lparr>m_activeRequest := None\<rparr> else p', es)"
    using assms(4-7) handler by (simp add: onIncomingMessage_def Let_def) auto
  then show ?thesis
    using pass(2-5) assms(5-7) by (auto simp: same_request_def)
qed

lemma active_reprinted:
  assumes "list_all error_short_fits (xs @ ys)"
    and "list_all (\<lambda>r. buildRecordResponse_ErrorRecordShort r \<noteq> []) (xs @ ys)"
    and "length h = 3" and "3 + sizeof_ErrorRecordShort * length xs < 20"
    and "answers dest 0xbf 0 [m1, m2]"
    and "m_data m1 = h @ concat (map error_short_encode xs)" and "m_data m2 = concat (map error_short_encode ys)"
  shows "\<exists>res p' es.
     receive_all junk (fst (startRequest dest 0xbf 0 20 True False p)) [m1, m2] = Inr (res, p', es)
     \<and> lines_of es = record_lines buildRecordResponse_ErrorRecordShort '' '' 1 xs
         @ record_lines buildRecordResponse_ErrorRecordShort '' '' (1 + length xs) (xs @ ys)"
proof -
  let ?p = "fst (startRequest dest 0xbf 0 20 True False p)"
  note fields = startRequest_fields [of 20 dest "0xbf" 0 False p, simplified]
  obtain r p1 es1 where 1: "onIncomingMessage junk ?p m1 = Inr (r, p1, es1)"
    "lines_of es1 = record_lines buildRecordResponse_ErrorRecordShort '' '' 1 xs"
    "m_responseCounter p1 = length xs" "m_requestResponse p1 = m_data m1" "m_requestOffset p1 = 0"
    "m_requestDestination p1 = dest" "m_requestType p1 = 0xbf" "\<not> m_outputRawData p1" "m_activeRequest p1 \<noteq> None"
    using active_pass [of xs h ?p m1 "[m2]" junk] assms fields by (auto simp: active_faults.encoded_def)
  obtain r' p2 es2 where 2: "onIncomingMessage junk p1 m2 = Inr (r', p2, es2)"
    "lines_of es2 = record_lines buildRecordResponse_ErrorRecordShort '' '' (length xs + 1) (xs @ ys)"
    using active_pass [of "xs @ ys" h p1 m2 "[]" junk] assms 1 by (auto simp: active_faults.encoded_def)
  show ?thesis using 1 2 by auto
qed

section \<open>Properties\<close>

definition example_fault :: error_record2 where
  "example_fault = \<lparr>e2_source = 0x08, e2_pad1 = [0, 0, 0, 0], e2_ascii = [65, 49, 49], e2_code_be16 = 0x3412,
     e2_start = date_time_decode [0x94, 1, 2, 3, 4], e2_end = date_time_decode [0x94, 1, 2, 4, 5]\<rparr>"

lemma example_fault_fits: "error2_fits example_fault"
  by (simp add: example_fault_def error2_fits_def date_time_decode_def date_time_fits_def)

text \<open>
  C24: the history of faults is printed completely and in order, however the device cuts its answer
  into telegrams, also in the middle of a record: the lines are those of the records up to the
  first empty one, each once, numbered from 1, and then the parser is free.
\<close>

theorem fault_history_complete:
  assumes "list_all error2_fits rs" and "rs \<noteq> []" and "type = 0xc0 \<or> type = 0xc2"
    and "answers dest type 0 ms" and "concat (map m_data ms) = concat (map error2_encode rs)"
  shows "\<exists>res p' es.
     receive_all junk (fst (startRequest dest type 0 (length rs * sizeof_ErrorRecord2) True False p)) ms = Inr (res, p', es)
     \<and> m_activeRequest p' = None
     \<and> lines_of es = record_lines buildRecordResponse_ErrorRecord2 (if type = 0xc0 then ''R'' else ''U'') 1 rs"
  using assms by (rule history_complete)

lemma fault_history_complete_witness:
  "\<exists>res p' es.
     receive_all (\<lambda>_. 0) (fst (startRequest 0x90 0xc0 0 20 True False idle_parser))
       [receivedMessage ([0x90, 0x0b, 0xff, 0, 0x00, 0xc0] @ take 9 (error2_encode example_fault)),
        receivedMessage ([0x90, 0x0b, 0xff, 9, 0x00, 0xc0] @ drop 9 (error2_encode example_fault))]
       = Inr (res, p', es)
     \<and> lines_of es = [''R01 '' @ buildRecordResponse_ErrorRecord2 example_fault]"
proof -
  let ?ms = "[receivedMessage ([0x90, 0x0b, 0xff, 0, 0x00, 0xc0] @ take 9 (error2_encode example_fault)),
        receivedMessage ([0x90, 0x0b, 0xff, 9, 0x00, 0xc0] @ drop 9 (error2_encode example_fault))]"
  have "answers 0x90 0xc0 0 ?ms" "concat (map m_data ?ms) = error2_encode example_fault"
    "record_lines buildRecordResponse_ErrorRecord2 ''R'' 1 [example_fault]
       = [''R01 '' @ buildRecordResponse_ErrorRecord2 example_fault]"
    by code_simp+
  then show ?thesis
    using fault_history_complete [of "[example_fault]" "0xc0" "0x90" ?ms "\<lambda>_. 0" idle_parser] example_fault_fits
    by (auto simp: sizeof_defs simp del: receive_all.simps record_lines.simps)
qed

text \<open>
  C36: the list of active faults does depend on the cuts: if the device sends the header and the first
  records in one telegram and the rest in a second, the first records are printed twice and the
  numbers go on, since every telegram makes the parser start again behind the header.
\<close>

theorem active_faults_reprinted:
  assumes "list_all error_short_fits (xs @ ys)"
    and "list_all (\<lambda>r. buildRecordResponse_ErrorRecordShort r \<noteq> []) (xs @ ys)"
    and "length h = 3" and "3 + sizeof_ErrorRecordShort * length xs < 20"
    and "answers dest 0xbf 0 [m1, m2]"
    and "m_data m1 = h @ concat (map error_short_encode xs)" and "m_data m2 = concat (map error_short_encode ys)"
  shows "\<exists>res p' es.
     receive_all junk (fst (startRequest dest 0xbf 0 20 True False p)) [m1, m2] = Inr (res, p', es)
     \<and> lines_of es = record_lines buildRecordResponse_ErrorRecordShort '' '' 1 xs
         @ record_lines buildRecordResponse_ErrorRecordShort '' '' (1 + length xs) (xs @ ys)"
  using assms by (rule active_reprinted)

lemma active_faults_reprinted_witness:
  "\<exists>res p' es.
     receive_all (\<lambda>_. 0) (fst (startRequest 0x88 0xbf 0 20 True False idle_parser))
       [receivedMessage [0x88, 0x0b, 0xff, 0, 0x00, 0xbf, 0, 0, 0, 0, 0, 65, 49, 49, 0, 7],
        receivedMessage [0x88, 0x0b, 0xff, 10, 0x00, 0xbf, 0, 0, 66, 50, 50, 0, 8]] = Inr (res, p', es)
     \<and> lines_of es = ['' 01 A11 7 '', '' 02 A11 7 '', '' 03 B22 8 '']"
proof -
  let ?a = "\<lparr>es_pad = [0, 0], es_ascii = [65, 49, 49], es_code_be16 = 0x0700\<rparr>"
  let ?b = "\<lparr>es_pad = [0, 0], es_ascii = [66, 50, 50], es_code_be16 = 0x0800\<rparr>"
  let ?m1 = "receivedMessage [0x88, 0x0b, 0xff, 0, 0x00, 0xbf, 0, 0, 0, 0, 0, 65, 49, 49, 0, 7]"
  let ?m2 = "receivedMessage [0x88, 0x0b, 0xff, 10, 0x00, 0xbf, 0, 0, 66, 50, 50, 0, 8]"
  have "list_all error_short_fits ([?a] @ [?b])"
    "list_all (\<lambda>r. buildRecordResponse_ErrorRecordShort r \<noteq> []) ([?a] @ [?b])"
    "answers 0x88 0xbf 0 [?m1, ?m2]" "m_data ?m1 = [0, 0, 0] @ concat (map error_short_encode [?a])"
    "m_data ?m2 = concat (map error_short_encode [?b])"
    "record_lines buildRecordResponse_ErrorRecordShort '' '' 1 [?a]
       @ record_lines buildRecordResponse_ErrorRecordShort '' '' (1 + length [?a]) ([?a] @ [?b])
     = ['' 01 A11 7 '', '' 02 A11 7 '', '' 03 B22 8 '']"
    by code_simp+
  then show ?thesis
    using active_faults_reprinted [of "[?a]" "[?b]" "[0, 0, 0]" "0x88" ?m1 ?m2 "\<lambda>_. 0" idle_parser]
    by (simp add: sizeof_defs del: receive_all.simps record_lines.simps)
qed

end
