(* ===== verification/ValueApi.thy ===== *)
theory ValueApi
  imports RecordText EmsMessage
begin

text \<open>
  \<open>ValueApi.cpp\<close>: the names of value types and subtypes in the text interface and the text of a
  reading.  A \<open>static const std::map\<close> is the association list of its initialiser; \<open>map_of\<close> takes
  the first entry of a key, as the constructor of \<open>std::map\<close> does.
\<close>

section \<open>Names\<close>

definition TYPEMAPPING :: "(ems_type \<times> string) list" where
  "TYPEMAPPING = [
     (NumT SollTemp, ''targettemperature''), (NumT IstTemp, ''currenttemperature''),
     (NumT SetTemp, ''settemperature''), (NumT MinTemp, ''mintemperature''),
     (NumT MaxTemp, ''maxtemperature''), (NumT KomfortTemp, ''comforttemperature''),
     (NumT ReduzierteTemp, ''reducedtemperature''), (NumT ExtraTemp, ''extratemperature''),
     (NumT ManualTemp, ''manualtemperature''), (NumT TemporaryTemp, ''temporarytemperature''),
     (NumT BoostTemp, ''boosttemperature''), (NumT BoostHours, ''boosthours''),
     (NumT BoostActive, ''boostactive''), (NumT ExtraActive, ''extraactive''),
     (NumT BoostRemainingMins, ''boostremainingmins''),
     (NumT ExtraRemainingMins, ''extraremainingmins''), (NumT Extra15Mins, ''extra15mins''),
     (NumT ZirkProStunde, ''zirksperhour''), (NumT TagTemp, ''daytemperature''),
     (NumT NachtTemp, ''nighttemperature''), (NumT UrlaubTemp, ''vacationtemperature''),
     (NumT RaumSollTemp, ''roomtargettemperature''),
     (NumT RaumIstTemp, ''roomcurrenttemperature''), (NumT RaumEinfluss, ''maxroomeffect''),
     (NumT RaumOffset, ''roomtemperatureoffset''),
     (NumT SchwelleSommerWinter, ''summerwinterthreshold''),
     (NumT FrostSchutzTemp, ''frostprotecttemperature''),
     (NumT AuslegungsTemp, ''designtemperature''),
     (NumT RaumUebersteuerTemp, ''temperatureoverride''),
     (NumT AbsenkungsSchwellenTemp, ''reducedmodethreshold''),
     (NumT UrlaubAbsenkungsSchwellenTemp, ''vacationreducedmodethreshold''),
     (NumT AbsenkungsAbbruchTemp, ''cancelreducedmodethreshold''),
     (NumT GedaempfteTemp, ''dampedtemperature''),
     (NumT DesinfektionsTemp, ''desinfectiontemperature''),
     (NumT RaumTemperaturAenderung, ''roomtemperaturechange''),
     (NumT Mischersteuerung, ''mixercontrol''), (NumT Flammenstrom, ''flamecurrent''),
     (NumT Systemdruck, ''pressure''), (IntT BetriebsZeit, ''operatingminutes''),
     (IntT BetriebsZeit2, ''operatingminutes2''), (NumT MinModulation, ''minmodulation''),
     (NumT MaxModulation, ''maxmodulation''), (NumT SollModulation, ''targetmodulation''),
     (NumT IstModulation, ''currentmodulation''), (NumT SollLeistung, ''requestedpower''),
     (NumT EinschaltHysterese, ''onhysteresis''), (NumT AusschaltHysterese, ''offhysteresis''),
     (NumT DurchflussMenge, ''flowrate''), (IntT HeizZeit, ''heatingminutes''),
     (IntT WarmwasserbereitungsZeit, ''warmwaterminutes''),
     (IntT Brennerstarts, ''heaterstarts''),
     (IntT WarmwasserBereitungen, ''warmwaterpreparations''),
     (IntT EinschaltoptimierungsZeit, ''onoptimizationminutes''),
     (IntT AusschaltoptimierungsZeit, ''offoptimizationminutes''),
     (IntT AntipendelZeit, ''antipendelminutes''), (IntT NachlaufZeit, ''followupminutes''),
     (IntT DesinfektionStunde, ''desinfectionhour''),
     (IntT HektoStundenVorWartung, ''maintenanceintervalin100hours''),
     (IntT MonateVorWartung, ''maintenanceintervalinmonthsuptime''),
     (IntT PausenZeit, ''pausehours''), (IntT PartyZeit, ''partyhours''),
     (BoolT FlammeAktiv, ''flameactive''), (BoolT BrennerAktiv, ''heateractive''),
     (BoolT ZuendungAktiv, ''ignitionactive''), (BoolT PumpeAktiv, ''pumpactive''),
     (BoolT ZirkulationAktiv, ''zirkpumpactive''), (BoolT DreiWegeVentilAufWW, ''3wayonww''),
     (BoolT EinmalLadungAktiv, ''onetimeload''),
     (BoolT DesinfektionAktiv, ''desinfectionactive''), (BoolT Desinfektion, ''desinfection''),
     (BoolT NachladungAktiv, ''boostcharge''),
     (BoolT WarmwasserBereitung, ''warmwaterpreparationactive''),
     (BoolT WarmwasserTempOK, ''warmwatertempok''), (BoolT Tagbetrieb, ''daymode''),
     (BoolT Sommerbetrieb, ''summermode''), (BoolT Sommerbetriebsart, ''summeropmode''),
     (BoolT Ausschaltoptimierung, ''offoptimization''),
     (BoolT Einschaltoptimierung, ''onoptimization''),
     (BoolT Estrichtrocknung, ''floordrying''), (BoolT WWVorrang, ''wwoverride''),
     (BoolT Urlaub, ''vacationmode''), (BoolT Ferien, ''holidaymode''),
     (BoolT Party, ''partymode''), (BoolT Pause, ''pausemode''),
     (BoolT Frostschutzbetrieb, ''frostprotectmodeactive''),
     (BoolT SchaltuhrEin, ''switchpointactive''), (BoolT KesselSchalter, ''masterswitch''),
     (BoolT EigenesProgrammAktiv, ''customschedule''),
     (BoolT EinmalLadungsLED, ''onetimeloadindicator''),
     (BoolT ATDaempfung, ''outdoortempdamping''),
     (BoolT SchaltzeitOptimierung, ''scheduleoptimizer''),
     (BoolT Fuehler1Defekt, ''sensor1failure''), (BoolT Fuehler2Defekt, ''sensor2failure''),
     (BoolT Stoerung, ''failure''), (BoolT StoerungDesinfektion, ''desinfectionfailure''),
     (BoolT Ladevorgang, ''loading''), (EnumT WWSystemType, ''warmwatersystemtype''),
     (EnumT Schaltpunkte, ''switchpoints''),
     (EnumT Wartungsmeldungen, ''maintenancereminder''),
     (EnumT WartungFaellig, ''maintenancedue''), (EnumT Betriebsart, ''opmode''),
     (EnumT Betriebszustand, ''opstate''), (EnumT DesinfektionTag, ''desinfectionday''),
     (EnumT GebaeudeArt, ''buildingtype''), (EnumT AbsenkModus, ''reductionmode''),
     (EnumT HeizSystem, ''heatingsystem''), (EnumT FuehrungsGroesse, ''relevantparameter''),
     (EnumT Frostschutz, ''frostprotectmode''),
     (EnumT UrlaubAbsenkungsArt, ''vacationreductionmode''),
     (EnumT FBTyp, ''remotecontroltype''), (OtherT HKKennlinie, ''characteristic''),
     (OtherT Fehler, ''error''), (BoolT Stoerung, ''fault''),
     (OtherT SystemZeit, ''systemtime''), (OtherT Wartungstermin, ''maintenancedate''),
     (OtherT ServiceCode, ''servicecode''), (OtherT FehlerCode, ''errorcode'')]"

definition SUBTYPEMAPPING :: "(sub_type \<times> string) list" where
  "SUBTYPEMAPPING = [
     (HK1, ''hk1''), (HK2, ''hk2''), (HK3, ''hk3''), (HK4, ''hk4''), (RC, ''rc''),
     (Kessel, ''heater''), (KesselPumpe, ''heaterpump''), (Brenner, ''burner''),
     (Ruecklauf, ''returnflow''), (Waermetauscher, ''heatexchanger''), (WW, ''ww''),
     (Zirkulation, ''zirkpump''), (Aussen, ''outdoor''), (Abgas, ''exhaust''),
     (Ansaugluft, ''intake''), (Solar, ''solar''), (SolarPumpe, ''solarpump''),
     (SolarSpeicher, ''solartank''), (SolarKollektor, ''solarcollector'')]"

definition lookup_name :: "('k \<times> string) list \<Rightarrow> 'k \<Rightarrow> string" where
  "lookup_name m k = (case map_of m k of None \<Rightarrow> [] | Some s \<Rightarrow> s)"

definition getTypeName :: "ems_type \<Rightarrow> string" where
  "getTypeName type = lookup_name TYPEMAPPING type"

definition getSubTypeName :: "sub_type \<Rightarrow> string" where
  "getSubTypeName subtype = lookup_name SUBTYPEMAPPING subtype"

section \<open>Texts of enumeration values\<close>

type_synonym value_names = "(u8 \<times> string) list"

definition WWSYSTEMMAPPING :: value_names where
  "WWSYSTEMMAPPING = [
     (0, ''none''), (1, ''tankless''), (2, ''small''), (3, ''large''),
     (4, ''speicherladesystem'')]"

definition ZIRKSPMAPPING :: value_names where
  "ZIRKSPMAPPING = [
     (0, ''off''), (1, ''1x''), (2, ''2x''), (3, ''3x''), (4, ''4x''), (5, ''5x''),
     (6, ''6x''), (7, ''alwayson'')]"

definition MAINTENANCEMESSAGESMAPPING :: value_names where
  "MAINTENANCEMESSAGESMAPPING = [
     (0, ''off''), (1, ''byhours''), (2, ''bydate''), (3, ''bymonths'')]"

definition MAINTENANCENEEDEDMAPPING :: value_names where
  "MAINTENANCENEEDEDMAPPING = [
     (0, ''no''), (3, ''byhours''), (8, ''bydate'')]"

definition ERRORTYPEMAPPING :: value_names where
  "ERRORTYPEMAPPING = [
     (0x10, ''L''), (0x11, ''B''), (0x12, ''S''), (0x13, ''D'')]"

definition OPMODEMAPPING :: value_names where
  "OPMODEMAPPING = [
     (0, ''off''), (1, ''on''), (2, ''auto'')]"

definition HKOPMODEMAPPING :: value_names where
  "HKOPMODEMAPPING = [
     (0, ''off''), (1, ''manual''), (2, ''auto'')]"

definition HKSUMMEROPMODEMAPPING :: value_names where
  "HKSUMMEROPMODEMAPPING = [
     (1, ''auto''), (2, ''heateron'')]"

definition HKOPSTATEMAPPING :: value_names where
  "HKOPSTATEMAPPING = [
     (0, ''off''), (1, ''reduced''), (2, ''manual''), (3, ''normal''), (6, ''boost'')]"

definition ZIRKOPMODEMAPPING :: value_names where
  "ZIRKOPMODEMAPPING = [
     (0, ''off''), (1, ''on''), (2, ''followww''), (3, ''auto'')]"

definition WWOPMODEMAPPING :: value_names where
  "WWOPMODEMAPPING = [
     (0, ''off''), (1, ''eco''), (2, ''comfort''), (3, ''followheater''), (4, ''auto'')]"

definition DAYMAPPING :: value_names where
  "DAYMAPPING = [
     (0, ''monday''), (1, ''tuesday''), (2, ''wednesday''), (3, ''thursday''), (4, ''friday''),
     (5, ''saturday''), (6, ''sunday''), (7, ''everyday'')]"

definition BUILDINGTYPEMAPPING :: value_names where
  "BUILDINGTYPEMAPPING = [
     (1, ''light''), (2, ''medium''), (3, ''heavy'')]"

definition HEATINGTYPEMAPPING :: value_names where
  "HEATINGTYPEMAPPING = [
     (0, ''none''), (1, ''heater''), (2, ''convection''), (3, ''floorheater'')]"

definition REDUCTIONMODEMAPPING :: value_names where
  "REDUCTIONMODEMAPPING = [
     (0, ''offmode''), (1, ''reduced''), (2, ''raumhalt''), (3, ''aussenhalt'')]"

definition FROSTPROTECTMAPPING :: value_names where
  "FROSTPROTECTMAPPING = [
     (0, ''off''), (1, ''byoutdoortemp''), (2, ''byindoortemp'')]"

definition RELEVANTVALUEMAPPING :: value_names where
  "RELEVANTVALUEMAPPING = [
     (0, ''outdoor''), (1, ''indoor'')]"

definition VACATIONREDUCTIONMAPPING :: value_names where
  "VACATIONREDUCTIONMAPPING = [
     (3, ''outdoor''), (2, ''indoor'')]"

definition REMOTETYPEMAPPING :: value_names where
  "REMOTETYPEMAPPING = [
     (0, ''none''), (1, ''rc20''), (2, ''rc3x'')]"

section \<open>Formatting\<close>

text \<open>The table of an enumeration type: \<open>None\<close> is the \<open>default\<close> of the inner switch.\<close>

definition enum_names :: "ems_value \<Rightarrow> value_names option" where
  "enum_names value =
     (case v_type value of
        EnumT t \<Rightarrow>
          (case t of
             WWSystemType \<Rightarrow> Some WWSYSTEMMAPPING
           | Schaltpunkte \<Rightarrow> Some ZIRKSPMAPPING
           | Wartungsmeldungen \<Rightarrow> Some MAINTENANCEMESSAGESMAPPING
           | WartungFaellig \<Rightarrow> Some MAINTENANCENEEDEDMAPPING
           | Betriebsart \<Rightarrow>
               Some (if isForHK (v_subType value) then HKOPMODEMAPPING
                     else if v_subType value = WW then WWOPMODEMAPPING
                     else if v_subType value = Zirkulation then ZIRKOPMODEMAPPING
                     else OPMODEMAPPING)
           | Betriebszustand \<Rightarrow>
               Some (if isForHK (v_subType value) then HKOPSTATEMAPPING
                     else if v_subType value = WW then WWOPMODEMAPPING
                     else if v_subType value = Zirkulation then ZIRKOPMODEMAPPING
                     else OPMODEMAPPING)
           | DesinfektionTag \<Rightarrow> Some DAYMAPPING
           | GebaeudeArt \<Rightarrow> Some BUILDINGTYPEMAPPING
           | HeizSystem \<Rightarrow> Some HEATINGTYPEMAPPING
           | AbsenkModus \<Rightarrow> Some REDUCTIONMODEMAPPING
           | Frostschutz \<Rightarrow> Some FROSTPROTECTMAPPING
           | FuehrungsGroesse \<Rightarrow> Some RELEVANTVALUEMAPPING
           | FBTyp \<Rightarrow> Some REMOTETYPEMAPPING
           | UrlaubAbsenkungsArt \<Rightarrow> Some VACATIONREDUCTIONMAPPING)
      | BoolT t \<Rightarrow> (if t = Sommerbetriebsart then Some HKSUMMEROPMODEMAPPING else None)
      | _ \<Rightarrow> None)"

definition format_enum :: "value_names option \<Rightarrow> u8 \<Rightarrow> string" where
  "format_enum names enumVal =
     (case names of None \<Rightarrow> dec_of_nat (unat enumVal)
      | Some m \<Rightarrow> (case map_of m enumVal of Some s \<Rightarrow> s | None \<Rightarrow> dec_of_nat (unat enumVal)))"

definition format_error :: "error_entry \<Rightarrow> string result" where
  "format_error entry =
     (let text = buildRecordResponse_ErrorRecord (ee_record entry);
          formatted = (if text = [] then ''empty'' else text)
      in case map_of ERRORTYPEMAPPING (ucast (ee_type entry)) of
           None \<Rightarrow> Inl OutOfRangeThrown
         | Some s \<Rightarrow> Inr (s @ fmt_0d 2 (unat (ee_index entry)) @ '' '' @ formatted))"

definition format_system_time :: "system_time_record \<Rightarrow> string" where
  "format_system_time record =
     (let c = st_common record
      in fmt_0d 4 (2000 + unat (dt_year c)) @ ''-'' @ fmt_0d 2 (unat (dt_month c)) @ ''-''
         @ fmt_0d 2 (unat (dt_day c)) @ '' '' @ fmt_0d 2 (unat (dt_hour c)) @ '':''
         @ fmt_0d 2 (unat (dt_minute c)) @ '':'' @ fmt_0d 2 (unat (st_second record)))"

definition formatValue :: "ems_value \<Rightarrow> string result" where
  "formatValue value =
     (case v_readingType value of
        Numeric \<Rightarrow>
          (if \<not> v_isValid value then Inr ''unavailable''
           else bindR (get_float (v_value value)) (\<lambda>x. Inr (print_float x)))
      | Integer \<Rightarrow>
          (if \<not> v_isValid value then Inr ''unavailable''
           else bindR (get_uint (v_value value)) (\<lambda>x. Inr (dec_of_nat (unat x))))
      | Boolean \<Rightarrow> bindR (get_bool (v_value value)) (\<lambda>b. Inr (if b then ''on'' else ''off''))
      | Enumeration \<Rightarrow>
          bindR (get_byte (v_value value)) (\<lambda>b. Inr (format_enum (enum_names value) b))
      | Kennlinie \<Rightarrow>
          bindR (get_bytes (v_value value)) (\<lambda>k.
          bindR (vec_index k 0) (\<lambda>a. bindR (vec_index k 1) (\<lambda>b. bindR (vec_index k 2) (\<lambda>c.
            Inr (fmt_d (unat a) @ ''/'' @ fmt_d (unat b) @ ''/'' @ fmt_d (unat c))))))
      | Error \<Rightarrow> bindR (get_error (v_value value)) format_error
      | Date \<Rightarrow>
          bindR (get_date (v_value value)) (\<lambda>r.
            Inr (fmt_0d 4 (2000 + unat (d_year r)) @ ''-'' @ fmt_0d 2 (unat (d_month r)) @ ''-''
                 @ fmt_0d 2 (unat (d_day r))))
      | SystemTime \<Rightarrow> bindR (get_system_time (v_value value)) (\<lambda>r. Inr (format_system_time r))
      | Formatted \<Rightarrow> get_string (v_value value))"

section \<open>Formatting does not fault\<close>

text \<open>Only an error entry with an unknown type makes \<open>at\<close> throw.\<close>

definition error_type_known :: "ems_value \<Rightarrow> bool" where
  "error_type_known v \<longleftrightarrow>
     (case v_value v of ErrorReading e \<Rightarrow> map_of ERRORTYPEMAPPING (ucast (ee_type e)) \<noteq> None | _ \<Rightarrow> True)"

lemma formatValue_total_iff:
  assumes "ems_value_wf v"
  shows "(\<exists>s. formatValue v = Inr s) \<longleftrightarrow> error_type_known v"
  using assms
  by (cases "v_value v")
    (auto simp: formatValue_def ems_value_wf_def error_type_known_def format_error_def Let_def
      split: option.splits)

lemma handled_format:
  assumes "handle m = Inr vs" and "v \<in> set vs"
  shows "\<exists>s. formatValue v = Inr s"
proof -
  have wf: "ems_value_wf v" and r: "v_readingType v = expected_reading (v_type v)"
    using handle_good [OF assms] by (simp_all add: good_value_def)
  have "v_readingType v \<noteq> Error"
    unfolding r by (cases "v_type v") auto
  then have "error_type_known v"
    using wf by (auto simp: error_type_known_def ems_value_wf_def split: reading.splits)
  then show ?thesis using formatValue_total_iff [OF wf] by blast
qed

section \<open>Names identify types\<close>

lemma map_of_inject:
  assumes "distinct (map snd m)" and "map_of m a = Some v" and "map_of m b = Some v"
  shows "a = b"
proof -
  have "(a, v) \<in> set m" "(b, v) \<in> set m" using assms(2,3) by (auto dest: map_of_SomeD)
  then show ?thesis using assms(1) by (fastforce simp: distinct_map inj_on_def)
qed

lemma lookup_name_inject:
  assumes "distinct (map snd m)" and "lookup_name m a = lookup_name m b" and "lookup_name m a \<noteq> []"
  shows "a = b"
  using assms map_of_inject [OF assms(1), of a _ b]
  by (auto simp: lookup_name_def split: option.splits)

lemma TYPEMAPPING_distinct: "distinct (map snd TYPEMAPPING)"
  by (simp add: TYPEMAPPING_def)

lemma SUBTYPEMAPPING_distinct: "distinct (map snd SUBTYPEMAPPING)"
  by code_simp

lemma lookup_name_Nil_iff:
  assumes "[] \<notin> set (map snd m)"
  shows "lookup_name m k = [] \<longleftrightarrow> k \<notin> set (map fst m)"
proof (cases "map_of m k")
  case None
  then have "k \<notin> set (map fst m)" by (simp add: map_of_eq_None_iff)
  with None show ?thesis by (simp add: lookup_name_def)
next
  case (Some s)
  then have "(k, s) \<in> set m" by (rule map_of_SomeD)
  then have "s \<in> snd ` set m" "k \<in> fst ` set m" by (auto intro: rev_image_eqI)
  moreover from this(1) assms have "s \<noteq> []" by (metis list.set_map)
  ultimately show ?thesis using Some by (simp add: lookup_name_def)
qed

lemma names_nonempty: "[] \<notin> set (map snd TYPEMAPPING)" "[] \<notin> set (map snd SUBTYPEMAPPING)"
  by code_simp+

text \<open>The numbers of the types in the table.\<close>

definition named_numbers :: "nat list" where
  "named_numbers = map (\<lambda>p. type_number (fst p)) TYPEMAPPING"

lemma named_numbers_sorted: "sort (remdups named_numbers) = [0..<116]"
  by code_simp

lemma named_numbers_iff: "n \<in> set named_numbers \<longleftrightarrow> n < 116"
proof -
  have "set named_numbers = set (sort (remdups named_numbers))" by simp
  then show ?thesis by (simp only: named_numbers_sorted) simp
qed

lemma named_types: "t \<in> set (map fst TYPEMAPPING) \<longleftrightarrow> type_number t < 116"
proof -
  have "t \<in> set (map fst TYPEMAPPING) \<longleftrightarrow> type_number t \<in> set named_numbers"
    by (auto simp: named_numbers_def image_iff ems_type_enum.number_inject)
  then show ?thesis by (simp only: named_numbers_iff)
qed

lemma named_subtypes: "st \<in> set (map fst SUBTYPEMAPPING) \<longleftrightarrow> st \<noteq> NoSub"
  by (cases st) (simp_all add: SUBTYPEMAPPING_def)

section \<open>Properties\<close>

text \<open>
  two value types with the same name are the same type, unless both are nameless.
\<close>

theorem getTypeName_inject:
  assumes "getTypeName a = getTypeName b" and "getTypeName a \<noteq> []"
  shows "a = b"
  using lookup_name_inject [OF TYPEMAPPING_distinct] assms by (simp add: getTypeName_def)

lemma getTypeName_inject_witness:
  "{b. getTypeName (NumT IstTemp) = getTypeName b} = {NumT IstTemp}"
proof -
  have "getTypeName (NumT IstTemp) \<noteq> []" by code_simp
  then show ?thesis using getTypeName_inject [of "NumT IstTemp"] by blast
qed

text \<open>
  exactly two value types have no name, the two that the error telegrams produce, and exactly
  one subtype, \<open>None\<close>.
\<close>

theorem nameless_types:
  "(getTypeName t = [] \<longleftrightarrow> t = OtherT StoerungsCode \<or> t = OtherT StoerungsNummer)
    \<and> (getSubTypeName st = [] \<longleftrightarrow> st = NoSub)"
proof
  have "type_number t < 118"
    using ems_type_enum.number_less [of t] by (simp add: ems_types_def enum_simps)
  then have "\<not> type_number t < 116 \<longleftrightarrow> type_number t = type_number (OtherT StoerungsCode)
      \<or> type_number t = type_number (OtherT StoerungsNummer)"
    by auto
  then show "getTypeName t = [] \<longleftrightarrow> t = OtherT StoerungsCode \<or> t = OtherT StoerungsNummer"
    by (simp only: getTypeName_def lookup_name_Nil_iff [OF names_nonempty(1)] named_types
        ems_type_enum.number_inject)
  show "getSubTypeName st = [] \<longleftrightarrow> st = NoSub"
    by (simp only: getSubTypeName_def lookup_name_Nil_iff [OF names_nonempty(2)] named_subtypes) simp
qed

text \<open>
  every reading that a telegram yields can be formatted; no branch of \<open>formatValue\<close> throws.
\<close>

theorem handled_values_format:
  assumes "handle m = Inr vs" and "v \<in> set vs"
  shows "\<exists>s. formatValue v = Inr s"
  using assms by (rule handled_format)

lemma handled_values_format_witness:
  "\<exists>s. formatValue (numericValue (NumT IstTemp) Aussen [0, 215] 2 10 True
     (Some INVALID_TEMPERATURE_VALUES)) = Inr s"
  using handled_values_format [OF handle_outdoor_example] by simp

lemma format_outdoor_example:
  "formatValue (numericValue (NumT IstTemp) Aussen [0, 215] 2 10 True
     (Some INVALID_TEMPERATURE_VALUES)) = Inr ''21.5''"
  by code_simp

end
