(* ===== verification/KeyedStore.thy ===== *)
theory KeyedStore
  imports Prelude "HOL-Library.RBT" "HOL-Library.Product_Lexorder"
begin

text \<open>
  What the collector uses \<open>std::map\<close> for: a store with ordered keys, its laws as a locale, and
  the red-black trees of the library as its implementation.  The value cache, the last
  communication times of the scheduler and the caches of the database are such stores.
\<close>

locale keyed_store =
  fixes empty :: "'m"
    and lookup :: "'m \<Rightarrow> 'k::linorder \<Rightarrow> 'v option"
    and insert :: "'k \<Rightarrow> 'v \<Rightarrow> 'm \<Rightarrow> 'm"
    and erase :: "'k \<Rightarrow> 'm \<Rightarrow> 'm"
    and entries :: "'m \<Rightarrow> ('k \<times> 'v) list"
  assumes lookup_empty: "lookup empty k = None"
    and lookup_insert: "lookup (insert k v m) j = (if j = k then Some v else lookup m j)"
    and lookup_erase: "lookup (erase k m) j = (if j = k then None else lookup m j)"
    and entries_lookup: "map_of (entries m) = lookup m"
    and entries_sorted: "sorted (map fst (entries m))"
    and entries_distinct: "distinct (map fst (entries m))"
begin

lemma in_entries: "(k, v) \<in> set (entries m) \<longleftrightarrow> lookup m k = Some v"
  using entries_lookup [of m] entries_distinct [of m] by (metis map_of_eq_Some_iff)

text \<open>Replacing an entry by erasing it first is the same as overwriting it.\<close>

lemma lookup_replace: "lookup (insert k v (erase k m)) j = (if j = k then Some v else lookup m j)"
  by (simp add: lookup_insert lookup_erase)

text \<open>The entries with one key.\<close>

lemma filter_key:
  "filter (\<lambda>e. fst e = k) (entries m) = (case lookup m k of None \<Rightarrow> [] | Some v \<Rightarrow> [(k, v)])"
proof -
  have *: "distinct (map fst xs) \<Longrightarrow>
      filter (\<lambda>e. fst e = k) xs = (case map_of xs k of None \<Rightarrow> [] | Some v \<Rightarrow> [(k, v)])"
    for xs :: "('k \<times> 'v) list"
  proof (induction xs)
    case Nil
    then show ?case by simp
  next
    case (Cons x xs)
    show ?case
    proof (cases "fst x = k")
      case True
      with Cons.prems have "k \<notin> fst ` set xs" by auto
      then have "filter (\<lambda>e. fst e = k) xs = []" by (auto simp: filter_empty_conv)
      with True show ?thesis by (cases x) simp
    next
      case False
      with Cons show ?thesis by (cases x) simp
    qed
  qed
  show ?thesis using * [OF entries_distinct] by (simp only: entries_lookup)
qed

text \<open>The last of a sequence of writes to a key is the one that counts.\<close>

lemma lookup_fold_insert:
  "lookup (fold (\<lambda>(k, v) m. insert k v m) kvs m) k =
     (case map_of (rev kvs) k of None \<Rightarrow> lookup m k | Some v \<Rightarrow> Some v)"
proof (induction kvs rule: rev_induct)
  case Nil
  then show ?case by simp
next
  case (snoc kv kvs)
  then show ?case by (cases kv) (simp add: lookup_insert)
qed

end

interpretation rbt_store: keyed_store RBT.empty RBT.lookup RBT.insert RBT.delete RBT.entries
  by unfold_locales
    (simp_all add: RBT.sorted_entries RBT.distinct_entries restrict_map_def fun_upd_def)

end
