(* ===== verification/ValueCache.thy ===== *)
theory ValueCache
  imports ValueApi KeyedStore
begin

text \<open>
  \<open>ValueCache\<close> (\<open>ValueCache.h\<close>, \<open>ValueCache.cpp\<close>): the last reading of every value type and
  subtype with the time it arrived, and the listing behind the command \<open>cache fetch\<close>.  The clock
  \<open>time(NULL)\<close> is an argument.
\<close>

type_synonym cache_key = "ems_type \<times> sub_type"

record cache_entry =
  ce_timestamp :: nat
  ce_value :: ems_value

type_synonym value_cache = "(cache_key, cache_entry) rbt"

definition value_key :: "ems_value \<Rightarrow> cache_key" where
  "value_key v = (v_type v, v_subType v)"

definition cache_handleValue :: "nat \<Rightarrow> ems_value \<Rightarrow> value_cache \<Rightarrow> value_cache" where
  "cache_handleValue now v c =
     RBT.insert (value_key v) \<lparr>ce_timestamp = now, ce_value = v\<rparr> (RBT.delete (value_key v) c)"

definition cache_getValue :: "value_cache \<Rightarrow> ems_type \<Rightarrow> sub_type \<Rightarrow> ems_value option" where
  "cache_getValue c type subtype = map_option ce_value (RBT.lookup c (type, subtype))"

definition matchesSelector :: "string list \<Rightarrow> string \<Rightarrow> string \<Rightarrow> bool" where
  "matchesSelector selector type subtype =
     (if 1 \<le> length selector
      then (if selector ! 0 = type then True
            else if selector ! 0 = subtype \<or> (selector ! 0 = ''none'' \<and> subtype = [])
            then (if length selector = 1 then True else selector ! 1 = type)
            else False)
      else True)"

definition cache_line :: "cache_key \<times> cache_entry \<Rightarrow> string result" where
  "cache_line e =
     (let type = getTypeName (fst (fst e)); subtype = getSubTypeName (snd (fst e))
      in bindR (formatValue (ce_value (snd e))) (\<lambda>text.
           Inr ((if subtype \<noteq> [] then subtype @ '' '' else []) @ type @ '' = '' @ text
                @ '' | '' @ dec_of_nat (ce_timestamp (snd e)) @ ''\<newline>'')))"

definition output_entry :: "string list \<Rightarrow> cache_key \<times> cache_entry \<Rightarrow> string result" where
  "output_entry selector e =
     (let type = getTypeName (fst (fst e)); subtype = getSubTypeName (snd (fst e))
      in if type = [] then Inr []
         else if \<not> matchesSelector selector type subtype then Inr []
         else cache_line e)"

fun output_entries :: "string list \<Rightarrow> (cache_key \<times> cache_entry) list \<Rightarrow> string result" where
  "output_entries selector [] = Inr []"
| "output_entries selector (e # es) =
     bindR (output_entry selector e) (\<lambda>s. bindR (output_entries selector es) (\<lambda>t. Inr (s @ t)))"

definition outputValues :: "value_cache \<Rightarrow> string list \<Rightarrow> string result" where
  "outputValues c selector = output_entries selector (RBT.entries c)"

section \<open>The cache as a map\<close>

lemma lookup_handleValue [simp]:
  "RBT.lookup (cache_handleValue now v c) k =
     (if k = value_key v then Some \<lparr>ce_timestamp = now, ce_value = v\<rparr> else RBT.lookup c k)"
  unfolding cache_handleValue_def by (rule rbt_store.lookup_replace)

text \<open>Every entry is stored under the key of its value, and its value can be formatted.\<close>

definition cache_inv :: "value_cache \<Rightarrow> bool" where
  "cache_inv c \<longleftrightarrow> (\<forall>k e. RBT.lookup c k = Some e \<longrightarrow>
     value_key (ce_value e) = k \<and> (\<exists>s. formatValue (ce_value e) = Inr s))"

lemma cache_inv_empty: "cache_inv RBT.empty"
  by (simp add: cache_inv_def)

lemma cache_inv_handleValue:
  "cache_inv c \<Longrightarrow> \<exists>s. formatValue v = Inr s \<Longrightarrow> cache_inv (cache_handleValue now v c)"
  by (auto simp: cache_inv_def)

lemma cache_inv_fold:
  assumes "\<forall>(now, v) \<in> set tvs. \<exists>s. formatValue v = Inr s"
  shows "cache_inv c \<Longrightarrow> cache_inv (fold (\<lambda>(now, v). cache_handleValue now v) tvs c)"
  using assms by (induction tvs arbitrary: c) (auto intro!: cache_inv_handleValue)

section \<open>The listing\<close>

lemma output_entries_filter:
  "output_entries selector es = output_entries selector
     (filter (\<lambda>e. getTypeName (fst (fst e)) \<noteq> [] \<and>
        matchesSelector selector (getTypeName (fst (fst e))) (getSubTypeName (snd (fst e)))) es)"
proof (induction es)
  case (Cons e es)
  have "(\<lambda>t. Inr ([] @ t)) = (Inr :: string \<Rightarrow> string result)" by auto
  with Cons show ?case by (auto simp: output_entry_def Let_def)
qed simp

lemma output_entries_total:
  "(\<And>e. e \<in> set es \<Longrightarrow> \<exists>s. formatValue (ce_value (snd e)) = Inr s) \<Longrightarrow>
     \<exists>s. output_entries selector es = Inr s"
proof (induction es)
  case (Cons e es)
  have "\<exists>s. formatValue (ce_value (snd e)) = Inr s" using Cons.prems by simp
  then have "\<exists>s. output_entry selector e = Inr s"
    by (auto simp: output_entry_def cache_line_def Let_def)
  moreover have "\<exists>s. output_entries selector es = Inr s"
    using Cons.prems by (intro Cons.IH) simp
  ultimately show ?case by auto
qed simp

lemma listing_total: "cache_inv c \<Longrightarrow> \<exists>text. outputValues c selector = Inr text"
  unfolding outputValues_def
  by (intro output_entries_total) (metis cache_inv_def prod.collapse rbt_store.in_entries)

text \<open>No name is both a type and a subtype, and \<open>none\<close> is neither.\<close>

lemma names_disjoint:
  "list_all (\<lambda>s. s \<notin> set (map snd TYPEMAPPING)) (map snd SUBTYPEMAPPING)"
  "''none'' \<notin> set (map snd SUBTYPEMAPPING)"
  by (simp_all add: TYPEMAPPING_def SUBTYPEMAPPING_def)

lemma lookup_name_in: "lookup_name m k \<noteq> [] \<Longrightarrow> lookup_name m k \<in> set (map snd m)"
  by (force simp: lookup_name_def split: option.splits dest: map_of_SomeD)

lemma subtype_not_type:
  "getSubTypeName s \<noteq> [] \<Longrightarrow> getTypeName t \<noteq> [] \<Longrightarrow> getSubTypeName s \<noteq> getTypeName t"
  using lookup_name_in [of SUBTYPEMAPPING s] lookup_name_in [of TYPEMAPPING t] names_disjoint(1)
  unfolding getTypeName_def getSubTypeName_def list_all_iff by metis

lemma subtype_not_none: "getSubTypeName s \<noteq> ''none''"
  using lookup_name_in [of SUBTYPEMAPPING s] names_disjoint(2)
  unfolding getSubTypeName_def by fastforce

lemma type_name_inject: "getTypeName a \<noteq> [] \<Longrightarrow> getTypeName a = getTypeName b \<longleftrightarrow> a = b"
  using lookup_name_inject [OF TYPEMAPPING_distinct] by (metis getTypeName_def)

lemma subtype_name_inject:
  "getSubTypeName a \<noteq> [] \<Longrightarrow> getSubTypeName a = getSubTypeName b \<longleftrightarrow> a = b"
  using lookup_name_inject [OF SUBTYPEMAPPING_distinct] by (metis getSubTypeName_def)

lemma selector_pair:
  assumes "getTypeName t \<noteq> []" and "getSubTypeName s \<noteq> []"
  shows "getTypeName t' \<noteq> [] \<and> matchesSelector [getSubTypeName s, getTypeName t]
      (getTypeName t') (getSubTypeName s') \<longleftrightarrow> t' = t \<and> s' = s"
  using assms subtype_not_type [of s t'] subtype_not_none [of s] type_name_inject [of t t']
    subtype_name_inject [of s s']
  by (auto simp: matchesSelector_def)

lemma fetch_pair:
  assumes "getTypeName t \<noteq> []" and "getSubTypeName s \<noteq> []"
  shows "outputValues c [getSubTypeName s, getTypeName t] =
     (case RBT.lookup c (t, s) of None \<Rightarrow> Inr [] | Some e \<Rightarrow> cache_line ((t, s), e))"
proof -
  let ?sel = "[getSubTypeName s, getTypeName t]"
  have "filter (\<lambda>e. getTypeName (fst (fst e)) \<noteq> [] \<and>
      matchesSelector ?sel (getTypeName (fst (fst e))) (getSubTypeName (snd (fst e)))) (RBT.entries c) =
    filter (\<lambda>e. fst e = (t, s)) (RBT.entries c)"
    by (rule filter_cong) (simp_all add: selector_pair [OF assms] prod_eq_iff del: filter_cong)
  then have "outputValues c ?sel =
      output_entries ?sel (case RBT.lookup c (t, s) of None \<Rightarrow> [] | Some e \<Rightarrow> [((t, s), e)])"
    unfolding outputValues_def by (subst output_entries_filter) (simp only: rbt_store.filter_key)
  moreover have "output_entry ?sel ((t, s), e) = cache_line ((t, s), e)" for e
    using selector_pair [OF assms, of t s] by (auto simp: output_entry_def Let_def)
  ultimately show ?thesis by (auto split: option.splits)
qed

section \<open>Properties\<close>

text \<open>
  after any sequence of readings the cache holds, for every type and subtype, the last reading
  of that key and nothing for keys that were never reported.
\<close>

theorem cache_holds_last:
  "cache_getValue (fold (\<lambda>(now, v). cache_handleValue now v) tvs RBT.empty) t s =
     (case filter (\<lambda>v. value_key v = (t, s)) (map snd tvs) of [] \<Rightarrow> None | vs \<Rightarrow> Some (last vs))"
proof (induction tvs rule: rev_induct)
  case Nil
  then show ?case by (simp add: cache_getValue_def)
next
  case (snoc tv tvs)
  then show ?case
    by (cases tv) (auto simp: cache_getValue_def split: list.splits)
qed

text \<open>
  \<open>cache fetch <subtype> <type>\<close> prints exactly the line of that one key, or nothing when the
  key has no reading; it never prints another key and never fails on handled readings.
\<close>

theorem cache_fetch_pair:
  assumes "getTypeName t \<noteq> []" and "getSubTypeName s \<noteq> []"
  shows "outputValues c [getSubTypeName s, getTypeName t] =
     (case RBT.lookup c (t, s) of None \<Rightarrow> Inr [] | Some e \<Rightarrow> cache_line ((t, s), e))"
  using assms by (rule fetch_pair)

lemma cache_fetch_pair_witness:
  "outputValues (cache_handleValue 7 (numericValue (NumT IstTemp) Aussen [0, 215] 2 10 True
       (Some INVALID_TEMPERATURE_VALUES)) RBT.empty) [''outdoor'', ''currenttemperature'']
     = Inr ''outdoor currenttemperature = 21.5 | 7\<newline>''"
proof -
  have n: "getTypeName (NumT IstTemp) = ''currenttemperature''" "getSubTypeName Aussen = ''outdoor''"
    by code_simp+
  have d: "dec_of_nat 7 = ''7''" by code_simp
  show ?thesis
    using cache_fetch_pair [of "NumT IstTemp" Aussen]
    by (simp add: n d value_key_def cache_line_def Let_def format_outdoor_example)
qed

text \<open>
  as long as the cache is fed from handled telegrams, at any times, no listing throws,
  whatever the selector.
\<close>

theorem cache_listing_total:
  assumes "\<forall>(now, v) \<in> set tvs. \<exists>m vs. handle m = Inr vs \<and> v \<in> set vs"
  shows "\<exists>text. outputValues (fold (\<lambda>(now, v). cache_handleValue now v) tvs RBT.empty) selector = Inr text"
proof -
  have "\<forall>(now, v) \<in> set tvs. \<exists>s. formatValue v = Inr s"
    using assms handled_format by fast
  from cache_inv_fold [OF this cache_inv_empty] show ?thesis by (rule listing_total)
qed

lemma cache_listing_total_witness:
  "\<exists>text. outputValues (cache_handleValue 7 (numericValue (NumT IstTemp) Aussen
     [0, 215] 2 10 True (Some INVALID_TEMPERATURE_VALUES)) RBT.empty) [] = Inr text"
  using cache_listing_total [of "[(7, numericValue (NumT IstTemp) Aussen
     [0, 215] 2 10 True (Some INVALID_TEMPERATURE_VALUES))]" "[]"] handle_outdoor_example by force

end
