(* ===== verification/ApiCommands.thy ===== *)
theory ApiCommands
  imports ApiCommandParser ValueCache
begin

text \<open>
  The text commands of \<open>ApiCommandParser.cpp\<close>: \<open>parse\<close> and the handlers it dispatches to.  A
  handler takes the input stream and the parser and returns the result code, the stream after
  the characters it read, the new state and the effects.  Boost's date input facet and
  \<open>lexical_cast\<close> are not part of the repository; they are the members of \<open>environment\<close>.
\<close>

unbundle bit_operations_syntax

section \<open>Parameters\<close>

record ptime =
  pt_year :: nat
  pt_month :: nat
  pt_day :: nat
  pt_hours :: nat
  pt_minutes :: nat
  pt_seconds :: nat
  pt_weekday :: nat

record environment =
  env_lexical_cast :: "string \<Rightarrow> nat option"
  env_read_time :: "istream \<Rightarrow> ptime \<times> istream"

type_synonym outcome = "(command_result \<times> istream \<times> parser \<times> effect list) result"

definition reply :: "command_result \<Rightarrow> istream \<Rightarrow> parser \<times> effect list \<Rightarrow> outcome" where
  "reply r is pe = Inr (r, is, fst pe, snd pe)"

text \<open>Two actions in a row.\<close>

definition and_then ::
    "parser \<times> effect list \<Rightarrow> (parser \<Rightarrow> parser \<times> effect list) \<Rightarrow> parser \<times> effect list" where
  "and_then pe f = (case pe of (p, es) \<Rightarrow> (case f p of (p', es') \<Rightarrow> (p', es @ es')))"

definition emit :: "string \<Rightarrow> parser \<Rightarrow> parser \<times> effect list" where
  "emit line p = (p, [Output line])"

section \<open>Help texts\<close>

definition help_text :: string where
  "help_text =
     ''Available commands (help with '' @ [CHR 0x27] @ ''<command> help'' @ [CHR 0x27] @ ''):\<newline>'' @
     ''hk[1|2|3|4]\<newline>'' @
     ''ww\<newline>'' @
     ''uba\<newline>'' @
     ''rc\<newline>'' @
     ''raw\<newline>'' @
     ''cache\<newline>'' @
     ''getversion\<newline>'' @
     ''OK''"

definition rc_help :: string where
  "rc_help =
     ''Available subcommands:\<newline>'' @
     ''requestdata\<newline>'' @
     ''geterrors\<newline>'' @
     ''mintemperature <temp>\<newline>'' @
     ''buildingtype [light|medium|heavy]\<newline>'' @
     ''outdoortempdamping [on|off]\<newline>'' @
     ''getcontactinfo\<newline>'' @
     ''setcontactinfo 1|2|3 <text>\<newline>'' @
     ''settime YYYY-MM-DD HH:MM:SS\<newline>'' @
     ''OK''"

definition uba_help :: string where
  "uba_help =
     ''Available subcommands:\<newline>'' @
     ''geterrors\<newline>'' @
     ''schedulemaintenance off | byhours <burnerhours / 100> | bydate YYYY-MM-DD | bymonths <uptime>\<newline>'' @
     ''checkmaintenanceneeded\<newline>'' @
     ''resetmaintenanceindicator\<newline>'' @
     ''unlockfault\<newline>'' @
     ''testmode <on|off>\<newline>'' @
     ''teststate <burnerpct> <fanpct> <pumppct> <3way012> <zirkpump01> <ignition01> <ionisator01>\<newline>'' @
     ''OK''"

definition raw_help :: string where
  "raw_help =
     ''Available subcommands:\<newline>'' @
     ''read <target> <type> <offset> <len>\<newline>'' @
     ''write <target> <type> <offset> <data>\<newline>'' @
     ''OK''"

definition cache_help :: string where
  "cache_help =
     ''Available subcommands:\<newline>'' @
     ''fetch <key>\<newline>'' @
     ''OK''"

definition hk_help :: string where
  "hk_help =
     ''Available subcommands:\<newline>'' @
     ''mode off|manual|auto\<newline>'' @
     ''manualtemp <temp>\<newline>'' @
     ''daytemperature <temp>\<newline>'' @
     ''nighttemperature <temp\<newline>'' @
     ''temporarytemp <temp>|off\<newline>'' @
     ''summerwinterthreshold <temp>\<newline>'' @
     ''summeropmode auto|heateron\<newline>'' @
     ''designtemperature <temp>\<newline>'' @
     ''roomtemperatureoffset <temp>\<newline>'' @
     ''activateboost on|off\<newline>'' @
     ''boosthours <hours>\<newline>'' @
     ''boosttemp <temp>\<newline>'' @
     ''requestdata\<newline>'' @
     ''OK''"

definition ww_help :: string where
  "ww_help =
     ''Available subcommands:\<newline>'' @
     ''mode off|eco|comfort|followheater|auto \<newline>'' @
     ''zirkmode off|on|followww|auto \<newline>'' @
     ''zirksperhour <number> \<newline>'' @
     ''comforttemp <temp> \<newline>'' @
     ''reducedtemp <temp> \<newline>'' @
     ''extratemp <temp> \<newline>'' @
     ''extra15mins <extra duration quarterly hours> \<newline>'' @
     ''extra on|off \<newline>'' @
     ''requestdata \<newline>'' @
     ''OK''"

section \<open>Parameters of commands\<close>

definition parseIntParameter :: "nat \<Rightarrow> istream \<Rightarrow> nat option \<times> istream" where
  "parseIntParameter max_value is =
     (case read_unsigned (is\<lparr>is_base0 := True\<rparr>) of (v, is') \<Rightarrow>
        (if is_fail is' \<or> max_value < v then None else Some v, is'))"

text \<open>A word out of a table selects the byte to write.\<close>

definition sendChoice ::
    "(string \<times> u8) list \<Rightarrow> u8 \<Rightarrow> u16 \<Rightarrow> u8 \<Rightarrow> istream \<Rightarrow> parser \<Rightarrow> outcome" where
  "sendChoice choices dest type offset is p =
     (case read_string is of (w, is') \<Rightarrow>
        (case map_of choices w of
           None \<Rightarrow> reply InvalidArgs is' (p, [])
         | Some data \<Rightarrow> reply Ok is' (sendCommand dest type offset [data] False p)))"

text \<open>
  \<open>boost::numeric_cast<int>\<close> of the product truncates and rejects what does not fit an \<open>int\<close>;
  the value is then narrowed to \<open>int8_t\<close>.
\<close>

definition single_byte :: "float32 \<Rightarrow> int \<Rightarrow> int \<Rightarrow> int \<Rightarrow> u8 option" where
  "single_byte value multiplier min_value max_value =
     (let valueInt = float_trunc (float_mult (float_of_int multiplier) value)
      in if valueInt < - (2 ^ 31) \<or> 2 ^ 31 - 1 < valueInt then None
         else if valueInt < min_value * multiplier \<or> max_value * multiplier < valueInt then None
         else Some (of_int valueInt))"

definition handleSingleByteValue ::
    "u8 \<Rightarrow> u16 \<Rightarrow> u8 \<Rightarrow> int \<Rightarrow> int \<Rightarrow> int \<Rightarrow> istream \<Rightarrow> parser \<Rightarrow> outcome" where
  "handleSingleByteValue dest type offset multiplier min_value max_value is p =
     (case read_float is of (value, is') \<Rightarrow>
        if is_fail is' then reply InvalidArgs is' (p, [])
        else (case single_byte value multiplier min_value max_value of
                None \<Rightarrow> reply InvalidArgs is' (p, [])
              | Some b \<Rightarrow> reply Ok is' (sendCommand dest type offset [b] False p)))"

section \<open>Heating circuits\<close>

text \<open>The second argument is not used by the code.\<close>

definition handleHkCommand :: "u16 \<Rightarrow> istream \<Rightarrow> parser \<Rightarrow> outcome" where
  "handleHkCommand base is p =
     (case read_string is of (cmd, is) \<Rightarrow>
        if cmd = ''help'' then reply Ok is (emit hk_help p)
        else if cmd = ''requestdata'' then
          reply Ok is
            (and_then (and_then (startRequest addressUI800 0x01b9 0 32 True True p)
              (startRequest addressUI800 0x01a5 0 46 True True))
              (startRequest addressUI800 0x01af 0 46 True True))
        else if cmd = ''summerwinterthreshold'' then
          handleSingleByteValue addressUI800 0x01af 6 1 10 30 is p
        else if cmd = ''roomtemperatureoffset'' then
          handleSingleByteValue addressUI800 0x01af 2 1 (- 5) 5 is p
        else if cmd = ''designtemperature'' then
          handleSingleByteValue addressUI800 0x01af 5 1 30 90 is p
        else if cmd = ''summeropmode'' then
          sendChoice [(''auto'', 0x01), (''heateron'', 0x02)] addressUI800 0x01af 7 is p
        else if cmd = ''mode'' then
          sendChoice [(''off'', 0x00), (''manual'', 0x01), (''auto'', 0x02)] addressUI800 0x01b9 21 is p
        else if cmd = ''manualtemp'' then
          handleSingleByteValue addressUI800 0x01b9 22 2 5 30 is p
        else if cmd = ''daytemperature'' then
          handleSingleByteValue addressUI800 0x01b9 2 2 5 30 is p
        else if cmd = ''nighttemperature'' then
          handleSingleByteValue addressUI800 0x01b9 4 2 5 30 is p
        else if cmd = ''temporarytemp'' then
          bindR (handleSingleByteValue addressUI800 0x01b9 8 2 5 30 is p) (\<lambda>(r, is, p, es).
            if r \<noteq> Ok then reply Ok is (and_then (p, es) (sendCommand addressUI800 0x01b9 8 [0xff] False))
            else reply Ok is (p, es))
        else if cmd = ''activateboost'' then
          sendChoice [(''off'', 0x00), (''on'', 0xff)] addressUI800 0x01b9 23 is p
        else if cmd = ''boosttemp'' then
          handleSingleByteValue addressUI800 0x01b9 25 2 5 30 is p
        else if cmd = ''boosthours'' then
          handleSingleByteValue addressUI800 0x01b9 24 1 1 8 is p
        else reply InvalidCmd is (p, []))"

section \<open>Hot water\<close>

definition handleWwCommand :: "istream \<Rightarrow> parser \<Rightarrow> outcome" where
  "handleWwCommand is p =
     (case read_string is of (cmd, is) \<Rightarrow>
        if cmd = ''help'' then reply Ok is (emit ww_help p)
        else if cmd = ''mode'' then
          sendChoice [(''off'', 0x00), (''eco'', 0x01), (''comfort'', 0x02), (''followheater'', 0x03),
            (''auto'', 0x04)] addressUI800 0x01f5 2 is p
        else if cmd = ''zirkmode'' then
          sendChoice [(''off'', 0x00), (''on'', 0x01), (''followww'', 0x02), (''auto'', 0x03)]
            addressUI800 0x01f5 3 is p
        else if cmd = ''requestdata'' then
          reply Ok is
            (and_then (startRequest addressUBA2 0xea 0 25 True True p)
              (startRequest addressUI800 0x01f5 0 21 True True))
        else if cmd = ''comforttemp'' then
          handleSingleByteValue addressUBA2 0xea 6 1 30 80 is p
        else if cmd = ''reducedtemp'' then
          handleSingleByteValue addressUBA2 0xea 18 1 30 80 is p
        else if cmd = ''extratemp'' then
          handleSingleByteValue addressUBA2 0xea 16 1 30 80 is p
        else if cmd = ''extra15mins'' then
          handleSingleByteValue addressUI800 0x01f5 10 1 0 16 is p
        else if cmd = ''zirksperhour'' then
          handleSingleByteValue addressUBA2 0xea 11 1 0 6 is p
        else if cmd = ''extra'' then
          sendChoice [(''off'', 0x00), (''on'', 0xff)] addressUI800 0x01f5 11 is p
        else reply InvalidCmd is (p, []))"

section \<open>The room controller\<close>

definition time_record :: "ptime \<Rightarrow> system_time_record" where
  "time_record t =
     \<lparr>st_common = \<lparr>dt_year = of_int (int (pt_year t) - 2000) AND 0x7f, dt_valid = False,
        dt_month = of_nat (pt_month t), dt_hour = of_nat (pt_hours t), dt_day = of_nat (pt_day t),
        dt_minute = of_nat (pt_minutes t)\<rparr>,
      st_second = of_nat (pt_seconds t), st_dayOfWeek = of_nat (pt_weekday t),
      st_reserved1 = 0, st_running = False, st_reserved2 = 0, st_dcf = False, st_dst = False\<rparr>"

definition utf16_be :: "u16 list \<Rightarrow> bytes" where
  "utf16_be us = concat (map (\<lambda>u. [high_byte u, low_byte u]) us)"

text \<open>\<open>text\<close> ends in 21 blanks, so there are always 20 units to send.\<close>

definition contact_text :: "string list \<Rightarrow> string" where
  "contact_text tokens = concat (map (\<lambda>t. t @ '' '') tokens) @ replicate 21 (CHR '' '')"

definition setContactInfo :: "istream \<Rightarrow> parser \<Rightarrow> outcome" where
  "setContactInfo is p =
     (case read_unsigned is of (line, is) \<Rightarrow>
        if is_fail is \<or> line < 1 \<or> 3 < line then reply InvalidArgs is (p, [])
        else (case read_tokens is of (tokens, is) \<Rightarrow>
          (case from_bytes (contact_text tokens) of
             None \<Rightarrow> Inl RangeErrorThrown
           | Some units \<Rightarrow>
               (let wtxt = take 20 units;
                    chunk = (\<lambda>c. sendCommand addressUI800 0x0137 (of_nat (c * 20 + (line - 1) * 40))
                               (utf16_be (take 10 (drop (c * 10) wtxt))) False)
                in reply Ok is (and_then (and_then (chunk 0 p) (chunk 1)) (emit ''\<newline>OK''))))))"

definition handleRcCommand :: "environment \<Rightarrow> istream \<Rightarrow> parser \<Rightarrow> outcome" where
  "handleRcCommand env is p =
     (case read_string is of (cmd, is) \<Rightarrow>
        if cmd = ''help'' then reply Ok is (emit rc_help p)
        else if cmd = ''requestdata'' then
          reply Ok is
            (and_then (and_then (startRequest addressUI800 0x0140 0 46 True True p)
              (startRequest addressUI800 0x00bf 0 20 True False))
              (startRequest addressUBA2 0x00bf 0 20 True False))
        else if cmd = ''activeerrors'' then
          reply Ok is (startRequest addressUI800 0x00bf 0 20 True False p)
        else if cmd = ''geterrors'' then
          reply Ok is (startRequest addressUI800 0x00c0 0 (10 * sizeof_ErrorRecord2) True False p)
        else if cmd = ''mintemperature'' then
          handleSingleByteValue addressUI800 0x0140 10 1 (- 30) 0 is p
        else if cmd = ''buildingtype'' then
          sendChoice [(''light'', 1), (''medium'', 2), (''heavy'', 3)] addressUI800 0x0140 9 is p
        else if cmd = ''outdoortempdamping'' then
          sendChoice [(''on'', 0xff), (''off'', 0x00)] addressUI800 0x0140 8 is p
        else if cmd = ''settime'' then
          (case env_read_time env is of (time, is) \<Rightarrow>
             if is_fail is then reply InvalidArgs is (p, [])
             else reply Ok is
               (sendCommand addressUI800 0x06 0 (system_time_encode (time_record time)) False p))
        else if cmd = ''getcontactinfo'' then
          reply Ok is (startRequest addressUI800 0x0137 0 120 True False p)
        else if cmd = ''setcontactinfo'' then setContactInfo is p
        else reply InvalidCmd is (p, []))"

section \<open>The boiler\<close>

definition scheduleMaintenance :: "environment \<Rightarrow> istream \<Rightarrow> parser \<Rightarrow> outcome" where
  "scheduleMaintenance env is p =
     (let send = (\<lambda>data is. reply Ok is (sendCommand addressUBA2 0x15 0 data False p))
      in case read_string is of (kind, is) \<Rightarrow>
        if kind = ''bydate'' then
          (case read_string is of (due, is) \<Rightarrow>
             if is_fail is then reply InvalidArgs is (p, [])
             else (case parseHolidayEntry (env_lexical_cast env) due of
                     None \<Rightarrow> reply InvalidArgs is (p, [])
                   | Some d \<Rightarrow> send [2, 60, h_day d, h_month d, h_year d, 12] is))
        else if kind = ''byhours'' then
          (case parseIntParameter 60 is of
             (None, is) \<Rightarrow> reply InvalidArgs is (p, [])
           | (Some hours, is) \<Rightarrow> send [1, of_nat hours, 1, 1, 50, 12] is)
        else if kind = ''bymonths'' then
          (case parseIntParameter 12 is of
             (None, is) \<Rightarrow> reply InvalidArgs is (p, [])
           | (Some months, is) \<Rightarrow> send [3, 60, 1, 1, 50, of_nat months] is)
        else if kind = ''off'' then send [0, 60, 1, 1, 50, 12] is
        else reply InvalidArgs is (p, []))"

text \<open>A percentage or mode that is missing or too large counts as 0.\<close>

definition read_upto :: "nat \<Rightarrow> istream \<Rightarrow> nat \<times> istream" where
  "read_upto max_value is =
     (case read_unsigned is of (v, is') \<Rightarrow> (if is_fail is' \<or> max_value < v then 0 else v, is'))"

definition read_flag :: "istream \<Rightarrow> u8 \<times> istream" where
  "read_flag is = (case read_bool is of (b, is') \<Rightarrow> (if \<not> is_fail is' \<and> b then 1 else 0, is'))"

definition testState :: "istream \<Rightarrow> parser \<Rightarrow> outcome" where
  "testState is p =
     (case read_upto 100 is of (brennerPercent, is) \<Rightarrow>
      case read_upto 100 is of (fanPercent, is) \<Rightarrow>
      case read_upto 100 is of (pumpePercent, is) \<Rightarrow>
      case read_upto 2 is of (threeWayMode, is) \<Rightarrow>
      case read_flag is of (zirkPumpOn, is) \<Rightarrow>
      case read_flag is of (ignitionOn, is) \<Rightarrow>
      case read_flag is of (ionisatorOn, is) \<Rightarrow>
        reply Ok is (sendCommand addressUBA2 0x2d 0
          [of_nat brennerPercent, 0, of_nat pumpePercent, of_nat threeWayMode, zirkPumpOn, 0, 0,
           ignitionOn, 0, of_nat fanPercent, 0, 0, ionisatorOn] False p))"

definition testMode :: "istream \<Rightarrow> parser \<Rightarrow> outcome" where
  "testMode is p =
     (case read_string is of (mode, is) \<Rightarrow>
        if mode = ''on'' then
          reply Ok is (and_then (and_then (test_cancel p) (test_wait_for FirstWait 1000)) (emit ''OK''))
        else if mode = ''off'' then
          reply Ok is (and_then (and_then (test_cancel p) (sendCommand addressUBA2 0x1d 0 [0x00] False))
            (emit ''OK''))
        else reply InvalidArgs is (p, []))"

definition handleUbaCommand :: "environment \<Rightarrow> istream \<Rightarrow> parser \<Rightarrow> outcome" where
  "handleUbaCommand env is p =
     (case read_string is of (cmd, is) \<Rightarrow>
        if cmd = ''help'' then reply Ok is (emit uba_help p)
        else if cmd = ''activeerrors'' then
          reply Ok is (startRequest addressUBA2 0x00bf 0 20 True False p)
        else if cmd = ''geterrors'' then
          reply Ok is (startRequest addressUBA2 0x00c2 0 (10 * sizeof_ErrorRecord2) True False p)
        else if cmd = ''schedulemaintenance'' then scheduleMaintenance env is p
        else if cmd = ''checkmaintenanceneeded'' then
          reply Ok is (startRequest addressUBA2 0x15 0 10 True False p)
        else if cmd = ''resetmaintenanceindicator'' then
          reply Ok is (and_then (sendCommand addressUBA2 0x05 8 [0xff] False p) (emit ''OK''))
        else if cmd = ''unlockfault'' then
          reply Ok is
            (and_then (and_then (sendCommand addressUBA2 0x05 0 [0x5a] False p)
              (sendCommand addressUI800 0x05 0 [0x5a] False)) (emit ''OK''))
        else if cmd = ''testmode'' then testMode is p
        else if cmd = ''teststate'' then testState is p
        else reply InvalidCmd is (p, []))"

section \<open>Raw access and the cache\<close>

text \<open>Four numbers in a row, the first that is missing or too large ends it.\<close>

fun parse_numbers :: "nat list \<Rightarrow> istream \<Rightarrow> nat list option \<times> istream" where
  "parse_numbers [] is = (Some [], is)"
| "parse_numbers (m # ms) is =
     (case parseIntParameter m is of
        (None, is') \<Rightarrow> (None, is')
      | (Some v, is') \<Rightarrow>
          (case parse_numbers ms is' of (vs, is'') \<Rightarrow> (map_option (\<lambda>vs. v # vs) vs, is'')))"

definition handleRawCommand :: "istream \<Rightarrow> parser \<Rightarrow> outcome" where
  "handleRawCommand is p =
     (case read_string is of (cmd, is) \<Rightarrow>
        if cmd = ''help'' then reply Ok is (emit raw_help p)
        else if cmd = ''read'' then
          (case parse_numbers [255, 65535, 255, 255] is of
             (Some [target, type, offset, len], is) \<Rightarrow>
               reply Ok is (startRequest (of_nat target) (of_nat type) offset len True True p)
           | (_, is) \<Rightarrow> reply InvalidArgs is (p, []))
        else if cmd = ''write'' then
          (case parse_numbers [255, 65535, 255, 255] is of
             (Some [target, type, offset, val], is) \<Rightarrow>
               reply Ok is (sendCommand (of_nat target) (of_nat type) (of_nat offset) [of_nat val] False p)
           | (_, is) \<Rightarrow> reply InvalidArgs is (p, []))
        else reply InvalidCmd is (p, []))"

definition handleCacheCommand :: "value_cache option \<Rightarrow> istream \<Rightarrow> parser \<Rightarrow> outcome" where
  "handleCacheCommand cache is p =
     (case read_string is of (cmd, is) \<Rightarrow>
        case cache of
          None \<Rightarrow> reply InvalidCmd is (p, [])
        | Some c \<Rightarrow>
            if cmd = ''help'' then reply Ok is (emit cache_help p)
            else if cmd = ''fetch'' then
              (case read_tokens is of (tokens, is) \<Rightarrow>
                 bindR (outputValues c (filter (\<lambda>t. t \<noteq> []) tokens)) (\<lambda>text.
                   reply Ok is (and_then (emit text p) (emit ''OK''))))
            else reply InvalidCmd is (p, []))"

section \<open>All commands\<close>

definition API_VERSION :: string where
  "API_VERSION = ''2023070601''"

definition parse ::
    "environment \<Rightarrow> value_cache option \<Rightarrow> istream \<Rightarrow> parser \<Rightarrow> outcome" where
  "parse env cache is p =
     (if m_activeRequest p \<noteq> None then reply Busy is (p, [])
      else case read_string is of (category, is) \<Rightarrow>
        if category = ''help'' then reply Ok is (emit help_text p)
        else if category = ''hk1'' then handleHkCommand 61 is p
        else if category = ''hk2'' then handleHkCommand 71 is p
        else if category = ''hk3'' then handleHkCommand 81 is p
        else if category = ''hk4'' then handleHkCommand 91 is p
        else if category = ''ww'' then handleWwCommand is p
        else if category = ''rc'' then handleRcCommand env is p
        else if category = ''uba'' then handleUbaCommand env is p
        else if category = ''raw'' then handleRawCommand is p
        else if category = ''cache'' then handleCacheCommand cache is p
        else if category = ''getversion'' then
          reply Ok is (and_then (emit (''collector version: '' @ API_VERSION) p)
            (startRequest addressUBA2 0x02 0 3 True False))
        else reply InvalidCmd is (p, []))"

end
