(* ===== verification/CommandSafety.thy ===== *)
theory CommandSafety
  imports ApiCommands
begin

text \<open>
  What a text command can do to the bus.  \<open>setting_ok\<close> is the specification: the writes to the
  boiler and the controller that the collector may produce, with the range of every set point.
  Every command but \<open>raw\<close> stays within it, whatever its arguments are, and a command that is
  rejected does nothing at all.
\<close>

unbundle bit_operations_syntax

section \<open>Specification\<close>

definition within :: "int \<Rightarrow> int \<Rightarrow> u8 \<Rightarrow> bool" where
  "within lo hi b \<longleftrightarrow> lo \<le> sint b \<and> sint b \<le> hi"

fun one_byte :: "(u8 \<Rightarrow> bool) \<Rightarrow> bytes \<Rightarrow> bool" where
  "one_byte P [b] = P b" | "one_byte P _ = False"

text \<open>Half degrees are used for the room temperatures.\<close>

definition controller_ok :: "u16 \<Rightarrow> u8 \<Rightarrow> bytes \<Rightarrow> bool" where
  "controller_ok type offset data \<longleftrightarrow>
     (if type = 0x01af then
        (offset = 2 \<and> one_byte (within (- 5) 5) data) \<or> (offset = 5 \<and> one_byte (within 30 90) data)
        \<or> (offset = 6 \<and> one_byte (within 10 30) data) \<or> (offset = 7 \<and> one_byte (\<lambda>b. b \<in> {1, 2}) data)
      else if type = 0x01b9 then
        (offset \<in> {2, 4, 22, 25} \<and> one_byte (within 10 60) data)
        \<or> (offset = 8 \<and> one_byte (\<lambda>b. b = 0xff \<or> within 10 60 b) data)
        \<or> (offset = 21 \<and> one_byte (within 0 2) data) \<or> (offset = 23 \<and> one_byte (\<lambda>b. b \<in> {0, 0xff}) data)
        \<or> (offset = 24 \<and> one_byte (within 1 8) data)
      else if type = 0x01f5 then
        (offset = 2 \<and> one_byte (within 0 4) data) \<or> (offset = 3 \<and> one_byte (within 0 3) data)
        \<or> (offset = 10 \<and> one_byte (within 0 16) data) \<or> (offset = 11 \<and> one_byte (\<lambda>b. b \<in> {0, 0xff}) data)
      else if type = 0x0140 then
        (offset = 8 \<and> one_byte (\<lambda>b. b \<in> {0, 0xff}) data) \<or> (offset = 9 \<and> one_byte (within 1 3) data)
        \<or> (offset = 10 \<and> one_byte (within (- 30) 0) data)
      else if type = 0x0137 then offset \<in> {0, 20, 40, 60, 80, 100} \<and> length data = 20
      else if type = 0x06 then offset = 0 \<and> length data = 8
      else type = 0x05 \<and> offset = 0 \<and> data = [0x5a])"

definition maintenance_ok :: "bytes \<Rightarrow> bool" where
  "maintenance_ok data \<longleftrightarrow> length data = 6 \<and> unat (data ! 0) \<le> 3 \<and> unat (data ! 1) \<le> 60
     \<and> unat (data ! 2) \<in> {1..31} \<and> unat (data ! 3) \<in> {1..12} \<and> unat (data ! 4) \<le> 100
     \<and> unat (data ! 5) \<le> 12"

definition test_state_ok :: "bytes \<Rightarrow> bool" where
  "test_state_ok data \<longleftrightarrow> length data = 13 \<and> unat (data ! 0) \<le> 100 \<and> unat (data ! 2) \<le> 100
     \<and> unat (data ! 3) \<le> 2 \<and> unat (data ! 9) \<le> 100
     \<and> list_all (\<lambda>i. data ! i = 0) [1, 5, 6, 8, 10, 11] \<and> list_all (\<lambda>i. unat (data ! i) \<le> 1) [4, 7, 12]"

definition boiler_ok :: "u16 \<Rightarrow> u8 \<Rightarrow> bytes \<Rightarrow> bool" where
  "boiler_ok type offset data \<longleftrightarrow>
     (if type = 0xea then
        (offset \<in> {6, 16, 18} \<and> one_byte (within 30 80) data) \<or> (offset = 11 \<and> one_byte (within 0 6) data)
      else if type = 0x15 then offset = 0 \<and> maintenance_ok data
      else if type = 0x05 then (offset = 0 \<and> data = [0x5a]) \<or> (offset = 8 \<and> data = [0xff])
      else if type = 0x1d then offset = 0 \<and> (data = [0] \<or> data = [0x5a])
      else type = 0x2d \<and> offset = 0 \<and> test_state_ok data)"

text \<open>The destination of a write has its top bit cleared.\<close>

definition setting_ok :: "ems_message \<Rightarrow> bool" where
  "setting_ok m \<longleftrightarrow>
     (m_dest m = addressUI800 AND 0x7f \<and> controller_ok (getType m) (m_offset m) (m_data m))
     \<or> (m_dest m = addressUBA2 AND 0x7f \<and> boiler_ok (getType m) (m_offset m) (m_data m))"

definition is_read :: "ems_message \<Rightarrow> bool" where
  "is_read m \<longleftrightarrow> m_dest m AND 0x80 \<noteq> 0"

fun effect_ok :: "effect \<Rightarrow> bool" where
  "effect_ok (Send m) = (is_read m \<or> setting_ok m)"
| "effect_ok (Output _) = True"
| "effect_ok (Aborted _) = True"

text \<open>What holds of every handler: \<open>Q\<close> restricts the effects.\<close>

definition acceptable :: "(effect \<Rightarrow> bool) \<Rightarrow> parser \<times> effect list \<Rightarrow> bool" where
  "acceptable Q pe \<longleftrightarrow> list_all Q (snd pe) \<and> parser_inv (fst pe)"

definition safe_outcome :: "(effect \<Rightarrow> bool) \<Rightarrow> parser \<Rightarrow> outcome \<Rightarrow> bool" where
  "safe_outcome Q p out \<longleftrightarrow>
     (\<forall>r is p' es. out = Inr (r, is, p', es) \<longrightarrow>
        (if r = Ok then acceptable Q (p', es) else p' = p \<and> es = []))"

named_theorems safe "handlers that only do what is allowed"

section \<open>Combinators\<close>

lemma reply_Ok_safe [safe]: "acceptable Q pe \<Longrightarrow> safe_outcome Q p (reply Ok is pe)"
  by (cases pe) (simp add: safe_outcome_def reply_def)

lemma reply_error_safe [safe]:
  "safe_outcome Q p (reply Busy is (p, []))" "safe_outcome Q p (reply InvalidCmd is (p, []))"
  "safe_outcome Q p (reply InvalidArgs is (p, []))"
  by (simp_all add: safe_outcome_def reply_def)

lemma fault_safe [safe]: "safe_outcome Q p (Inl f)"
  by (simp add: safe_outcome_def)

lemma and_then_acceptable [safe]:
  "acceptable Q pe \<Longrightarrow> (\<And>q. parser_inv q \<Longrightarrow> acceptable Q (f q)) \<Longrightarrow> acceptable Q (and_then pe f)"
  by (simp add: acceptable_def and_then_def case_prod_beta)

lemma emit_acceptable [safe]: "Q (Output line) \<Longrightarrow> parser_inv p \<Longrightarrow> acceptable Q (emit line p)"
  by (simp add: acceptable_def emit_def)

lemma sendCommand_acceptable [safe]:
  "Q (Send (sendMessage_ctor d t off data er)) \<Longrightarrow> acceptable Q (sendCommand d t off data er p)"
  using sendCommand_inv by (simp add: acceptable_def sendCommand_def sendActiveRequest_def Let_def)

lemma startRequest_acceptable [safe]:
  assumes "\<And>off n. Q (Send (sendMessage_ctor d t off [n] True))" and "parser_inv p"
  shows "acceptable Q (startRequest d t off len new raw p)"
proof -
  have "parser_inv (fst (startRequest d t off len new raw p))" by (rule startRequest_inv [OF assms(2)])
  moreover have "list_all Q (snd (startRequest d t off len new raw p))"
    using assms(1) by (simp add: startRequest_def continueRequest_def sendCommand_def
        sendActiveRequest_def Let_def)
  ultimately show ?thesis by (simp add: acceptable_def)
qed

lemma read_effect_ok [simp]: "effect_ok (Send (sendMessage_ctor d t off data True))"
  by (simp add: is_read_def sendMessage_ctor_def)

lemma sendChoice_safe [safe]:
  assumes "list_all (\<lambda>(w, b). Q (Send (sendMessage_ctor d t off [b] False))) choices"
  shows "safe_outcome Q p (sendChoice choices d t off is p)"
proof -
  have "Q (Send (sendMessage_ctor d t off [b] False))" if "map_of choices w = Some b" for w b
    using assms map_of_SomeD [OF that] by (auto simp: list_all_iff)
  then show ?thesis
    by (auto simp: sendChoice_def split: prod.splits option.splits intro!: safe)
qed

section \<open>Set points\<close>

lemma single_byte_range:
  assumes "single_byte v k lo hi = Some b" and "- 128 \<le> lo * k" and "hi * k \<le> 127"
  shows "lo * k \<le> sint b \<and> sint b \<le> hi * k"
proof -
  define x where "x = float_trunc (float_mult (float_of_int k) v)"
  have x: "b = of_int x" "lo * k \<le> x" "x \<le> hi * k"
    using assms(1) by (auto simp: single_byte_def Let_def x_def split: if_splits)
  then have "- 128 \<le> x" "x \<le> 127" using assms(2,3) by linarith+
  then have "sint (of_int x :: u8) = x"
    by (simp add: signed_of_int signed_take_bit_int_eq_self)
  then show ?thesis using x by simp
qed

lemma handleSingleByteValue_safe [safe]:
  assumes "\<And>b. lo * k \<le> sint b \<Longrightarrow> sint b \<le> hi * k \<Longrightarrow> Q (Send (sendMessage_ctor d t off [b] False))"
    and "- 128 \<le> lo * k" and "hi * k \<le> 127"
  shows "safe_outcome Q p (handleSingleByteValue d t off k lo hi is p)"
  using assms single_byte_range
  by (auto simp: handleSingleByteValue_def split: prod.splits option.splits intro!: safe)

lemma sendMessage_ctor_simps [simp]:
  "m_offset (sendMessage_ctor d t off data er) = off" "m_data (sendMessage_ctor d t off data er) = data"
  "m_dest (sendMessage_ctor d t off data False) = d AND 0x7f"
  by (simp_all add: sendMessage_ctor_def)

lemma getType_ctor [simp]: "getType (sendMessage_ctor d t off data er) = t"
  by (simp add: getType_def sendMessage_ctor_def classic_type(2) not_le)

lemma effect_ok_write:
  "effect_ok (Send (sendMessage_ctor addressUI800 t off data False)) = controller_ok t off data"
  "effect_ok (Send (sendMessage_ctor addressUBA2 t off data False)) = boiler_ok t off data"
  by (simp_all add: is_read_def setting_ok_def address_defs)

declare effect_ok.simps(1) [simp del]

lemma fallback_safe [safe]:
  assumes "safe_outcome Q p out" and "parser_inv p" and "\<And>q. parser_inv q \<Longrightarrow> acceptable Q (f q)"
  shows "safe_outcome Q p (bindR out (\<lambda>(r, is, p, es).
    if r \<noteq> Ok then reply Ok is (and_then (p, es) f) else reply Ok is (p, es)))"
proof (cases out)
  case (Inr x)
  obtain r s q es where x: "x = (r, s, q, es)" by (cases x)
  have "acceptable Q (p, [])" using assms(2) by (simp add: acceptable_def)
  then have "acceptable Q (q, es)"
    using assms(1) Inr x by (auto simp: safe_outcome_def split: if_splits)
  then show ?thesis
    using Inr x assms(3) by (auto intro!: safe)
qed (simp add: safe)

section \<open>The handlers\<close>

lemma chain_safe:
  "safe_outcome Q p (case x of (a, b) \<Rightarrow> f a b)" if "\<And>a b. safe_outcome Q p (f a b)"
  using that by (simp add: case_prod_beta)

lemma if_safe:
  "safe_outcome Q p (if b then x else y)" if "b \<Longrightarrow> safe_outcome Q p x" "\<not> b \<Longrightarrow> safe_outcome Q p y"
  using that by simp

lemmas ok_defs = effect_ok_write controller_ok_def boiler_ok_def within_def

lemma handleHkCommand_safe [safe]:
  "parser_inv p \<Longrightarrow> safe_outcome effect_ok p (handleHkCommand base is p)"
  unfolding handleHkCommand_def
  by (intro chain_safe if_safe) (auto intro!: safe simp: ok_defs)

lemma handleWwCommand_safe [safe]:
  "parser_inv p \<Longrightarrow> safe_outcome effect_ok p (handleWwCommand is p)"
  unfolding handleWwCommand_def
  by (intro chain_safe if_safe) (auto intro!: safe simp: ok_defs)

text \<open>The padding gives every line of contact information its 20 characters.\<close>

lemma option_safe:
  "safe_outcome Q p (case x of None \<Rightarrow> f | Some y \<Rightarrow> g y)"
  if "x = None \<Longrightarrow> safe_outcome Q p f" "\<And>y. x = Some y \<Longrightarrow> safe_outcome Q p (g y)"
  using that by (simp split: option.splits)

lemma contact_text_units:
  assumes "from_bytes (contact_text tokens) = Some us"
  shows "20 \<le> length us"
proof -
  have "20 \<le> length (filter (\<lambda>c. (of_char c :: nat) < 128) (contact_text tokens))"
    by (simp add: contact_text_def)
  then show ?thesis using from_bytes_length [OF assms] by linarith
qed

lemma length_utf16_be [simp]: "length (utf16_be us) = 2 * length us"
  unfolding utf16_be_def by (induction us) simp_all

lemma setContactInfo_safe [safe]:
  assumes "parser_inv p"
  shows "safe_outcome effect_ok p (setContactInfo is p)"
proof -
  have chunk: "acceptable effect_ok (sendCommand addressUI800 0x0137 (of_nat (c * 20 + (line - 1) * 40))
      (utf16_be (take 10 (drop (c * 10) (take 20 units)))) False q)"
    if "from_bytes (contact_text tokens) = Some units" "\<not> (line < 1 \<or> 3 < line)" "c = 0 \<or> c = 1"
    for tokens units line c q
  proof (rule sendCommand_acceptable)
    have "line = 1 \<or> line = 2 \<or> line = 3" using that(2) by linarith
    then show "effect_ok (Send (sendMessage_ctor addressUI800 0x0137 (of_nat (c * 20 + (line - 1) * 40))
      (utf16_be (take 10 (drop (c * 10) (take 20 units)))) False))"
      using contact_text_units [OF that(1)] that(3) by (auto simp: ok_defs)
  qed
  show ?thesis
    unfolding setContactInfo_def Let_def
    by (intro chain_safe if_safe option_safe reply_Ok_safe and_then_acceptable emit_acceptable
        reply_error_safe fault_safe chunk) (use assms in auto)
qed

lemma handleRcCommand_safe [safe]:
  "parser_inv p \<Longrightarrow> safe_outcome effect_ok p (handleRcCommand env is p)"
  unfolding handleRcCommand_def
  by (intro chain_safe if_safe) (auto intro!: safe simp: ok_defs system_time_encode_def)

lemma unat_byte_of_nat: "n < 256 \<Longrightarrow> unat (of_nat n :: u8) = n"
  by (simp add: unat_of_nat take_bit_nat_eq_self)

lemma parseIntParameter_bound: "parseIntParameter m is = (Some v, is') \<Longrightarrow> v \<le> m"
  by (auto simp: parseIntParameter_def split: prod.splits if_splits)

lemma int_safe:
  assumes "\<And>is. safe_outcome Q p (f is)" and "\<And>v is. v \<le> m \<Longrightarrow> safe_outcome Q p (g v is)"
  shows "safe_outcome Q p (case parseIntParameter m is of (None, is) \<Rightarrow> f is | (Some v, is) \<Rightarrow> g v is)"
  using assms parseIntParameter_bound [of m "is"]
  by (cases "parseIntParameter m is") (auto split: option.splits)

lemma scheduleMaintenance_safe [safe]:
  assumes "parser_inv p"
  shows "safe_outcome effect_ok p (scheduleMaintenance env is p)"
proof -
  have send: "safe_outcome effect_ok p (reply Ok is (sendCommand addressUBA2 0x15 0 data False p))"
    if "maintenance_ok data" for data "is"
    using that by (intro safe) (simp add: ok_defs)
  have small: "maintenance_ok [1, of_nat v, 1, 1, 50, 12]" if "v \<le> 60" for v
    using that by (simp add: maintenance_ok_def unat_byte_of_nat)
  have months: "maintenance_ok [3, 60, 1, 1, 50, of_nat v]" if "v \<le> 12" for v
    using that by (simp add: maintenance_ok_def unat_byte_of_nat)
  have dates: "maintenance_ok [2, 60, h_day d, h_month d, h_year d, 12]"
    if "parseHolidayEntry cast due = Some d" for cast due d
    using parse_holiday_range [OF that] by (simp add: maintenance_ok_def)
  have off: "maintenance_ok [0, 60, 1, 1, 50, 12]" by (simp add: maintenance_ok_def)
  show ?thesis
    unfolding scheduleMaintenance_def Let_def
    by (intro if_safe int_safe chain_safe option_safe reply_error_safe send small months dates off)
qed

lemma read_upto_bound: "fst (read_upto m is) \<le> m"
  by (simp add: read_upto_def case_prod_beta)

lemma read_flag_bound: "unat (fst (read_flag is)) \<le> 1"
  by (simp add: read_flag_def case_prod_beta)

lemma testState_safe [safe]: "safe_outcome effect_ok p (testState is p)"
proof -
  have ok: "effect_ok (Send (sendMessage_ctor addressUBA2 0x2d 0 [of_nat a, 0, of_nat c, of_nat d, e, 0, 0,
      f, 0, of_nat b, 0, 0, g] False))"
    if "a \<le> 100" "b \<le> 100" "c \<le> 100" "d \<le> 2" "unat e \<le> 1" "unat f \<le> 1" "unat g \<le> 1" for a b c d e f g
    using that by (simp add: ok_defs test_state_ok_def unat_byte_of_nat)
  show ?thesis
    unfolding testState_def case_prod_beta
    by (intro reply_Ok_safe sendCommand_acceptable ok read_upto_bound read_flag_bound)
qed

lemma test_timer_acceptable [safe]:
  "parser_inv p \<Longrightarrow> acceptable effect_ok (test_cancel p)"
  "parser_inv p \<Longrightarrow> acceptable effect_ok (test_wait_for w ms p)"
  by (auto simp: acceptable_def test_cancel_def test_wait_for_def abort_wait_def parser_inv_def
      split: option.splits)

lemma testMode_safe [safe]:
  "parser_inv p \<Longrightarrow> safe_outcome effect_ok p (testMode is p)"
  unfolding testMode_def
  by (intro chain_safe if_safe) (auto intro!: safe simp: ok_defs)

lemma handleUbaCommand_safe [safe]:
  "parser_inv p \<Longrightarrow> safe_outcome effect_ok p (handleUbaCommand env is p)"
  unfolding handleUbaCommand_def
  by (intro chain_safe if_safe) (auto intro!: safe simp: ok_defs)

text \<open>Raw access is unrestricted by design, and the cache only prints.\<close>

lemma handleRawCommand_safe [safe]:
  "parser_inv p \<Longrightarrow> safe_outcome (\<lambda>_. True) p (handleRawCommand is p)"
  unfolding handleRawCommand_def
  by (intro chain_safe if_safe) (auto intro!: safe split: list.splits option.splits prod.splits)

lemma bind_text_safe:
  "safe_outcome Q p (bindR x f)" if "\<And>y. safe_outcome Q p (f y)"
  using that by (cases x) (simp_all add: fault_safe)

lemma handleCacheCommand_safe [safe]:
  "parser_inv p \<Longrightarrow> safe_outcome effect_ok p (handleCacheCommand c is p)"
  unfolding handleCacheCommand_def
  by (intro chain_safe if_safe option_safe bind_text_safe) (auto intro!: safe)

lemma safe_outcome_mono: "safe_outcome Q p out \<Longrightarrow> safe_outcome (\<lambda>_. True) p out"
  by (auto simp: safe_outcome_def acceptable_def list_all_iff)

lemma parse_safe:
  assumes "parser_inv p"
  shows "fst (read_string is) \<noteq> ''raw'' \<Longrightarrow> safe_outcome effect_ok p (parse env c is p)"
    and "safe_outcome (\<lambda>_. True) p (parse env c is p)"
proof -
  have version: "acceptable effect_ok (and_then (emit (''collector version: '' @ API_VERSION) p)
      (startRequest addressUBA2 0x02 0 3 True False))"
    using assms by (intro safe) auto
  show 1: "safe_outcome effect_ok p (parse env c is p)" if "fst (read_string is) \<noteq> ''raw''" for "is"
    using that assms version unfolding parse_def case_prod_beta
    by (intro if_safe) (auto intro!: safe)
  show "safe_outcome (\<lambda>_. True) p (parse env c is p)"
  proof (cases "fst (read_string is) = ''raw''")
    case True
    then show ?thesis
      using assms unfolding parse_def case_prod_beta
      by (auto intro!: safe)
  qed (rule safe_outcome_mono [OF 1])
qed

section \<open>What can be thrown\<close>

definition only_range_error :: "outcome \<Rightarrow> bool" where
  "only_range_error out \<longleftrightarrow> (\<forall>f. out = Inl f \<longrightarrow> f = RangeErrorThrown)"

named_theorems range_error "handlers that throw nothing but a conversion error"

lemma range_error_rules [range_error]:
  "only_range_error (reply r is pe)" "only_range_error (Inl RangeErrorThrown)"
  "(\<And>a b. only_range_error (f a b)) \<Longrightarrow> only_range_error (case x of (a, b) \<Rightarrow> f a b)"
  "only_range_error o1 \<Longrightarrow> only_range_error o2 \<Longrightarrow> only_range_error (if q then o1 else o2)"
  "only_range_error o1 \<Longrightarrow> (\<And>v. only_range_error (g v)) \<Longrightarrow>
     only_range_error (case y of None \<Rightarrow> o1 | Some v \<Rightarrow> g v)"
  by (auto simp: only_range_error_def reply_def split: prod.splits option.splits)

lemma range_error_handlers [range_error]:
  "only_range_error (sendChoice ch d t off is p)"
  "only_range_error (handleSingleByteValue d t off k lo hi is p)"
  "only_range_error (setContactInfo is p)" "only_range_error (testState is p)"
  "only_range_error (testMode is p)" "only_range_error (scheduleMaintenance env is p)"
  unfolding sendChoice_def handleSingleByteValue_def setContactInfo_def testState_def testMode_def
    scheduleMaintenance_def Let_def case_prod_beta
  by (intro range_error)+

lemma range_error_temporary [range_error]:
  "only_range_error (bindR (handleSingleByteValue d t off k lo hi is p) (\<lambda>(r, is, p, es).
     if r \<noteq> Ok then reply Ok is (and_then (p, es) f) else reply Ok is (p, es)))"
  by (simp add: handleSingleByteValue_def reply_def only_range_error_def split: prod.splits option.splits)

lemma range_error_raw [range_error]: "only_range_error (handleRawCommand is p)"
  unfolding handleRawCommand_def
  by (auto simp: only_range_error_def reply_def split: prod.splits option.splits list.splits)

lemma range_error_groups [range_error]:
  "only_range_error (handleHkCommand base is p)" "only_range_error (handleWwCommand is p)"
  "only_range_error (handleRcCommand env is p)" "only_range_error (handleUbaCommand env is p)"
  unfolding handleHkCommand_def handleWwCommand_def handleRcCommand_def handleUbaCommand_def
  by (intro range_error)+

lemma range_error_cache [range_error]:
  assumes "\<forall>c. cache = Some c \<longrightarrow> cache_inv c"
  shows "only_range_error (handleCacheCommand cache is p)"
proof -
  have "\<exists>text. outputValues c sel = Inr text" if "cache = Some c" for c sel
    using listing_total [of c] assms that by blast
  then have bind: "only_range_error (bindR (outputValues c sel) f)"
    if "cache = Some c" "\<And>x. only_range_error (f x)" for c sel f
    using that by (metis bindR_simps(2))
  show ?thesis
    unfolding handleCacheCommand_def case_prod_beta
    by (auto split: option.splits intro!: range_error bind)
qed

lemma parse_only_range_error:
  assumes "\<forall>c. cache = Some c \<longrightarrow> cache_inv c"
  shows "only_range_error (parse env cache is p)"
  unfolding parse_def by (intro range_error assms)

section \<open>Properties\<close>

text \<open>An environment and a command that serve as examples.\<close>

definition example_env :: environment where
  "example_env = \<lparr>env_lexical_cast = (\<lambda>s. if s \<noteq> [] \<and> list_all is_digit s then Some (nat_of_dec s) else None),
     env_read_time = (\<lambda>is. (\<lparr>pt_year = 2024, pt_month = 1, pt_day = 1, pt_hours = 0, pt_minutes = 0,
       pt_seconds = 0, pt_weekday = 0\<rparr>, is\<lparr>is_fail := True\<rparr>))\<rparr>"

lemma eco_words:
  "read_string (stream_of ''ww mode eco'') = (''ww'', stream_of '' mode eco'')"
  "read_string (stream_of '' mode eco'') = (''mode'', stream_of '' eco'')"
  "fst (read_string (stream_of '' eco'')) = ''eco''"
  by code_simp+

lemma eco_example:
  "parse example_env None (stream_of ''ww mode eco'') idle_parser =
     reply Ok (snd (read_string (stream_of '' eco''))) (sendCommand addressUI800 0x01f5 2 [1] False idle_parser)"
  unfolding parse_def eco_words(1,2) prod.case handleWwCommand_def
  using eco_words(3) by (simp add: sendChoice_def case_prod_beta)

lemma eco_sent:
  "snd (sendCommand addressUI800 0x01f5 2 [1] False idle_parser) = [Send (sendMessage_ctor addressUI800 0x01f5 2 [1] False)]"
  by (simp add: sendCommand_def sendActiveRequest_def Let_def)

lemma unknown_words: "fst (read_string (stream_of ''boiler off'')) = ''boiler''"
  by code_simp

lemma unknown_example:
  "parse example_env None (stream_of ''boiler off'') idle_parser =
     reply InvalidCmd (snd (read_string (stream_of ''boiler off''))) (idle_parser, [])"
  unfolding parse_def using unknown_words by (simp add: case_prod_beta)

text \<open>
  C14: no text command other than \<open>raw\<close> can write anything to the bus but the known settings, each
  within its range: whatever the arguments are, every telegram sent is a read or satisfies the
  specification of the settings.
\<close>

theorem command_writes_in_range:
  assumes "parser_inv p" and "fst (read_string is) \<noteq> ''raw''"
    and "parse env c is p = Inr (r, is', p', es)" and "Send m \<in> set es"
  shows "is_read m \<or> setting_ok m"
  using parse_safe(1) [OF assms(1,2), of env c] assms(3,4)
  by (cases "r = Ok") (auto simp: safe_outcome_def acceptable_def list_all_iff effect_ok.simps(1))

lemma command_writes_in_range_witness:
  "setting_ok (sendMessage_ctor addressUI800 0x01f5 2 [1] False)"
proof -
  have "\<not> is_read (sendMessage_ctor addressUI800 0x01f5 2 [1] False)"
    by (simp add: is_read_def)
  then show ?thesis
    using command_writes_in_range [OF idle_parser_simps(3) _ eco_example [unfolded reply_def]] eco_words(1) eco_sent
    by simp
qed

text \<open>
  C30: a command that is refused, as busy, unknown or with bad arguments, sends nothing, prints
  nothing and leaves the parser as it was.
\<close>

theorem rejected_command_no_effect:
  assumes "parser_inv p" and "parse env c is p = Inr (r, is', p', es)" and "r \<noteq> Ok"
  shows "p' = p \<and> es = []"
  using parse_safe(2) [OF assms(1), of env c "is"] assms(2,3) by (simp add: safe_outcome_def)

lemma rejected_command_no_effect_witness:
  "\<exists>r is' es. parse example_env None (stream_of ''boiler off'') idle_parser = Inr (r, is', idle_parser, es)
     \<and> r \<noteq> Ok \<and> es = []"
  using rejected_command_no_effect [OF idle_parser_simps(3) unknown_example [unfolded reply_def]]
    unknown_example by (simp add: reply_def)

text \<open>
  every command keeps the invariant of the retry counter.
\<close>

theorem parse_keeps_invariant:
  assumes "parser_inv p" and "parse env c is p = Inr (r, is', p', es)"
  shows "parser_inv p'"
  using parse_safe(2) [OF assms(1), of env c "is"] assms
  by (cases "r = Ok") (auto simp: safe_outcome_def acceptable_def)

lemma parse_keeps_invariant_witness:
  "parser_inv (fst (sendCommand addressUI800 0x01f5 2 [1] False idle_parser))"
  using parse_keeps_invariant [OF idle_parser_simps(3) eco_example [unfolded reply_def]] .

text \<open>
  the four heating circuit commands are the same command: \<open>hk2\<close>, \<open>hk3\<close> and \<open>hk4\<close> act on the
  telegrams of the first circuit, since the circuit number is not used.
\<close>

theorem heating_circuits_not_distinguished:
  assumes n: "n \<in> {CHR ''2'', CHR ''3'', CHR ''4''}" and idle: "m_activeRequest p = None"
  shows "parse env c (stream_of (''hk'' @ [n] @ '' '' @ args)) p = parse env c (stream_of (''hk1 '' @ args)) p"
proof -
  have word: "read_string (stream_of (''hk'' @ [n] @ '' '' @ args)) =
      (''hk'' @ [n], (stream_of args)\<lparr>is_rest := '' '' @ args\<rparr>)" if "\<not> is_space n" for n
    using read_string_token [of "stream_of (''hk'' @ [n] @ '' '' @ args)" "[]" "''hk'' @ [n]" "'' '' @ args"]
      that by (simp add: stream_of_def ends_token_def is_space_def)
  have base: "handleHkCommand b1 s p = handleHkCommand b2 s p" for b1 b2 s
    by (simp add: handleHkCommand_def)
  have "\<not> is_space n" using n by (auto simp: is_space_def)
  moreover have "\<not> is_space (CHR ''1'')" by (simp add: is_space_def)
  ultimately have w: "read_string (stream_of (''hk'' @ [n] @ '' '' @ args)) =
      (''hk'' @ [n], (stream_of args)\<lparr>is_rest := '' '' @ args\<rparr>)"
    "read_string (stream_of (''hk1 '' @ args)) = (''hk1'', (stream_of args)\<lparr>is_rest := '' '' @ args\<rparr>)"
    using word [of n] word [of "CHR ''1''"] by simp_all
  show ?thesis
    using n idle unfolding parse_def w prod.case by (auto simp: base [of 71 _ 61] base [of 81 _ 61] base [of 91 _ 61] reply_def)
qed

lemma heating_circuits_not_distinguished_witness:
  "parse example_env None (stream_of (''hk'' @ [CHR ''2''] @ '' '' @ ''mode auto'')) idle_parser
     = parse example_env None (stream_of (''hk1 '' @ ''mode auto'')) idle_parser"
  by (rule heating_circuits_not_distinguished) simp_all

text \<open>A contact text whose only character is the byte 0xFF.\<close>

definition bad_contact :: string where
  "bad_contact = ''rc setcontactinfo 1 '' @ [CHR 0xFF]"

lemma bad_contact_parse:
  assumes "m_activeRequest p = None"
  shows "parse env cache (stream_of bad_contact) p = Inl RangeErrorThrown"
proof -
  let ?s1 = "(stream_of ('' setcontactinfo 1 '' @ [CHR 0xFF]))"
  let ?s2 = "(stream_of ('' 1 '' @ [CHR 0xFF]))"
  have w1: "read_string (stream_of bad_contact) = (''rc'', ?s1)"
    and w2: "read_string ?s1 = (''setcontactinfo'', ?s2)"
    by code_simp+
  have w3: "read_unsigned ?s2 = (1, stream_of ('' '' @ [CHR 0xFF]))"
    "from_bytes (contact_text (fst (read_tokens (stream_of ('' '' @ [CHR 0xFF]))))) = None"
    by code_simp+
  have "setContactInfo ?s2 p = Inl RangeErrorThrown"
    using w3(2) unfolding setContactInfo_def w3(1) prod.case
    by (simp add: stream_of_def case_prod_beta)
  then show ?thesis
    using assms unfolding parse_def w1 prod.case handleRcCommand_def w2 by simp
qed



text \<open>
  that exception does occur: a contact text that is not valid UTF-8 makes the conversion
  throw, and no handler of the command connection catches it.
\<close>

theorem bad_contact_throws:
  assumes "m_activeRequest p = None"
  shows "parse env cache (stream_of bad_contact) p = Inl RangeErrorThrown"
  using assms by (rule bad_contact_parse)

lemma bad_contact_throws_witness:
  "parse example_env None (stream_of bad_contact) idle_parser = Inl RangeErrorThrown"
  using bad_contact_throws [of idle_parser] by simp

text \<open>
  switching the test mode off within a second after it was switched on does not end it: the
  cancelled first wait still runs its handler, which ignores the error code, sends the start
  telegram and keeps repeating it.
\<close>

theorem test_mode_survives_off:
  assumes "m_activeRequest p = None" and "m_testMode p = None"
  shows "\<exists>s1 s2 p1 p2 es1 es2.
      parse env cache (stream_of ''uba testmode on'') p = Inr (Ok, s1, p1, es1)
    \<and> parse env cache (stream_of ''uba testmode off'') p1 = Inr (Ok, s2, p2, es2)
    \<and> Aborted FirstWait \<in> set es2
    \<and> snd (onTestWait FirstWait True p2) = [Send (sendMessage_ctor addressUBA2 0x1d 0 [0x5a] False)]
    \<and> m_testMode (fst (onTestWait FirstWait True p2)) = Some (RepeatWait, 5000)"
proof -
  have on: "read_string (stream_of ''uba testmode on'') = (''uba'', stream_of '' testmode on'')"
    "read_string (stream_of '' testmode on'') = (''testmode'', stream_of '' on'')"
    "fst (read_string (stream_of '' on'')) = ''on''"
    and off: "read_string (stream_of ''uba testmode off'') = (''uba'', stream_of '' testmode off'')"
    "read_string (stream_of '' testmode off'') = (''testmode'', stream_of '' off'')"
    "fst (read_string (stream_of '' off'')) = ''off''"
    by code_simp+
  let ?p1 = "p\<lparr>m_testMode := Some (FirstWait, 1000)\<rparr>"
  let ?p2 = "fst (sendCommand addressUBA2 0x1d 0 [0] False (p\<lparr>m_testMode := None\<rparr>))"
  have 1: "parse env cache (stream_of ''uba testmode on'') p =
      Inr (Ok, snd (read_string (stream_of '' on'')), ?p1, [Output ''OK''])"
  proof -
    have "testMode (stream_of '' on'') p = Inr (Ok, snd (read_string (stream_of '' on'')), ?p1, [Output ''OK''])"
      using assms(2) on(3) by (simp add: testMode_def case_prod_beta reply_def and_then_def
          test_cancel_def test_wait_for_def abort_wait_def emit_def)
    then show ?thesis
      using assms(1) unfolding parse_def on(1,2) prod.case handleUbaCommand_def by simp
  qed
  have 2: "parse env cache (stream_of ''uba testmode off'') ?p1 =
      Inr (Ok, snd (read_string (stream_of '' off'')), ?p2,
        Aborted FirstWait # snd (sendCommand addressUBA2 0x1d 0 [0] False (p\<lparr>m_testMode := None\<rparr>))
          @ [Output ''OK''])"
  proof -
    have "testMode (stream_of '' off'') ?p1 = Inr (Ok, snd (read_string (stream_of '' off'')), ?p2,
        Aborted FirstWait # snd (sendCommand addressUBA2 0x1d 0 [0] False (p\<lparr>m_testMode := None\<rparr>))
          @ [Output ''OK''])"
      using off(3) by (simp add: testMode_def case_prod_beta reply_def and_then_def
          test_cancel_def abort_wait_def emit_def)
    then show ?thesis
      using assms(1) unfolding parse_def off(1,2) prod.case handleUbaCommand_def by simp
  qed
  show ?thesis
    by (rule exI, rule exI, rule exI, rule exI, rule exI, rule exI, rule conjI, rule 1, rule conjI, rule 2)
      (simp add: onTestWait_def refreshTestMode_def test_wait_for_def abort_wait_def sendCommand_def
        sendActiveRequest_def Let_def)
qed

lemma test_mode_survives_off_witness:
  "\<exists>s1 p1 es1. parse example_env None (stream_of ''uba testmode on'') idle_parser = Inr (Ok, s1, p1, es1)"
  using test_mode_survives_off [of idle_parser example_env None] by auto

end
