(* ===== verification/SetPoints.thy ===== *)
theory SetPoints
  imports CommandSafety
begin

text \<open>
  Set points from the text of a command to the byte on the bus: the four temperatures of a heating
  circuit that are set in half degrees.  The text is read as a binary32 number, multiplied and cut off
  (\<open>ApiCommandParser::handleSingleByteValue\<close>); for half degrees nothing is lost on the way.
\<close>

definition half_text :: "nat \<Rightarrow> string" where
  "half_text n = dec_of_nat (n div 2) @ (if even n then [] else ''.5'')"

definition half_degree_commands :: "(string \<times> u8) list" where
  "half_degree_commands = [(''manualtemp'', 22), (''daytemperature'', 2), (''nighttemperature'', 4), (''boosttemp'', 25)]"

text \<open>What reading the text and scaling it gives, for one number of half degrees.\<close>

definition half_reads :: "nat \<Rightarrow> bool" where
  "half_reads n =
     (case read_float (stream_of ('' '' @ half_text n)) of (v, s) \<Rightarrow> \<not> is_fail s \<and>
        single_byte v 2 5 30 = (if 10 \<le> n \<and> n \<le> 60 then Some (of_nat n) else None))"

lemma half_reads_0: "list_all half_reads [0..<16]" by code_simp
lemma half_reads_16: "list_all half_reads [16..<32]" by code_simp
lemma half_reads_32: "list_all half_reads [32..<48]" by code_simp
lemma half_reads_48: "list_all half_reads [48..<64]" by code_simp

lemma list_all_upt: "list_all P [a..<b] \<Longrightarrow> a \<le> n \<Longrightarrow> n < b \<Longrightarrow> P n"
  by (simp add: list_all_iff)

lemma half_reads_all:
  assumes "n < 64"
  shows "half_reads n"
proof -
  consider "n < 16" | "16 \<le> n" "n < 32" | "32 \<le> n" "n < 48" | "48 \<le> n" using assms by linarith
  then show ?thesis
    using list_all_upt [OF half_reads_0, of n] list_all_upt [OF half_reads_16, of n]
      list_all_upt [OF half_reads_32, of n] list_all_upt [OF half_reads_48, of n] assms
    by cases simp_all
qed

lemma half_degrees_byte:
  assumes "n < 64"
  shows "\<exists>is. handleSingleByteValue dest type offset 2 5 30 (stream_of ('' '' @ half_text n)) p =
     (if 10 \<le> n \<and> n \<le> 60 then reply Ok is (sendCommand dest type offset [of_nat n] False p)
      else reply InvalidArgs is (p, []))"
  using half_reads_all [OF assms]
  by (cases "read_float (stream_of ('' '' @ half_text n))")
    (auto simp: half_reads_def handleSingleByteValue_def)

lemma read_word:
  assumes "list_all (\<lambda>c. \<not> is_space c) t" and "t \<noteq> []" and "sp = [] \<or> sp = '' ''"
  shows "read_string (stream_of (sp @ t @ '' '' @ r)) = (t, stream_of ('' '' @ r))"
  using read_string_token [of "stream_of (sp @ t @ '' '' @ r)" sp t "'' '' @ r"] assms
  by (auto simp: stream_of_def ends_token_def is_space_def)

section \<open>Properties\<close>



end
