(* ===== verification/SetClock.thy ===== *)
theory SetClock
  imports CommandSafety
begin

text \<open>
  Setting the clock of the controller and reading it back: \<open>rc settime\<close> (\<open>ApiCommandParser.cpp\<close>) makes the
  record that \<open>parseRCTimeMessage\<close> (\<open>EmsMessage.cpp\<close>) decodes and \<open>formatValue\<close> (\<open>ValueApi.cpp\<close>) prints.
  How the input facet reads a time is the parameter \<open>env_read_time\<close>.
\<close>

unbundle bit_operations_syntax

section \<open>The record of a time\<close>

text \<open>The seven bits for the year: the year is kept modulo 128.\<close>

definition kept_year :: "nat \<Rightarrow> nat" where
  "kept_year y = 2000 + nat ((int y - 2000) mod 128)"

lemma low_bits_mod: "unat ((of_int x :: u8) AND 0x7f) = nat (x mod 128)"
proof -
  have "(of_int x :: u8) AND 0x7f = take_bit 7 (of_int x)"
    by (simp add: take_bit_eq_mask mask_eq_exp_minus_1)
  then have "uint ((of_int x :: u8) AND 0x7f) = take_bit 7 (uint (of_int x :: u8))"
    by (simp only: unsigned_take_bit_eq)
  also have "\<dots> = x mod 128"
    by (simp add: uint_word_of_int take_bit_eq_mod mod_mod_cancel)
  finally show ?thesis by (simp add: unat_eq_nat_uint)
qed

lemma low_bits_year: "unat ((of_nat y - 2000 :: u8) AND 0x7f) = nat ((int y - 2000) mod 128)"
  using low_bits_mod [of "int y - 2000"] by simp

lemma kept_year_id: "2000 \<le> y \<Longrightarrow> y < 2128 \<Longrightarrow> kept_year y = y"
  by (simp add: kept_year_def)

lemma time_record_fits: "system_time_fits (time_record t)"
  using low_bits_mod [of "int (pt_year t) - 2000"]
  by (simp add: system_time_fits_def date_time_fits_def time_record_def nat_less_iff)

text \<open>A time of day and a date as the controller can take them; all components fit into bytes.\<close>

definition time_fits :: "ptime \<Rightarrow> bool" where
  "time_fits t \<longleftrightarrow> pt_month t < 256 \<and> pt_day t < 256 \<and> pt_hours t < 256 \<and> pt_minutes t < 256 \<and> pt_seconds t < 256"

definition time_text :: "nat \<Rightarrow> ptime \<Rightarrow> string" where
  "time_text year t = fmt_0d 4 year @ ''-'' @ fmt_0d 2 (pt_month t) @ ''-'' @ fmt_0d 2 (pt_day t) @ '' ''
     @ fmt_0d 2 (pt_hours t) @ '':'' @ fmt_0d 2 (pt_minutes t) @ '':'' @ fmt_0d 2 (pt_seconds t)"

lemma time_record_text:
  assumes "time_fits t"
  shows "format_system_time (time_record t) = time_text (kept_year (pt_year t)) t"
  using assms by (simp add: format_system_time_def time_record_def time_text_def kept_year_def low_bits_year
      unat_byte_of_nat time_fits_def Let_def)

section \<open>The command\<close>

lemma settime_command:
  assumes "m_activeRequest p = None" and "env_read_time env (stream_of ('' '' @ rest)) = (t, is)"
  shows "parse env cache (stream_of (''rc settime '' @ rest)) p =
    (if is_fail is then reply InvalidArgs is (p, [])
     else reply Ok is (sendCommand addressUI800 0x06 0 (system_time_encode (time_record t)) False p))"
proof -
  have w: "read_string (stream_of (''rc settime '' @ rest)) = (''rc'', stream_of ('' settime '' @ rest))"
    "read_string (stream_of ('' settime '' @ rest)) = (''settime'', stream_of ('' '' @ rest))"
    using read_string_token [of "stream_of (''rc settime '' @ rest)" "[]" "''rc''" "'' settime '' @ rest"]
      read_string_token [of "stream_of ('' settime '' @ rest)" "'' ''" "''settime''" "'' '' @ rest"]
    by (simp_all add: stream_of_def ends_token_def is_space_def)
  show ?thesis
    using assms unfolding parse_def w prod.case handleRcCommand_def by simp
qed

text \<open>The telegram with which the controller announces its clock.\<close>

definition clock_telegram :: "u8 \<Rightarrow> bytes \<Rightarrow> bytes" where
  "clock_telegram dest data = [addressUI800, dest, 0x06, 0] @ data"

lemma clock_reading:
  assumes "length data = sizeof_SystemTimeRecord"
  shows "handle (receivedMessage (clock_telegram dest data)) =
    Inr [systemTimeValue (OtherT SystemZeit) NoSub (system_time_decode data)]"
  using assms by (simp add: clock_telegram_def receivedMessage_def handle_def dispatch_def getType_def address_defs
      parseRCTimeMessage_def canAccess_def sizeof_defs)

section \<open>Properties\<close>

text \<open>
  C27: the clock that \<open>rc settime\<close> sets is the clock that is read back: when the controller announces
  the eight bytes it was sent, the collector prints the date and the time that were given, with the
  year reduced to the 128 years from 2000 on; years outside of them are not refused.
\<close>

theorem set_clock_roundtrip:
  assumes "m_activeRequest p = None" and "env_read_time env (stream_of ('' '' @ rest)) = (t, is)"
    and "\<not> is_fail is" and "time_fits t"
  shows "\<exists>data v. parse env cache (stream_of (''rc settime '' @ rest)) p =
        reply Ok is (sendCommand addressUI800 0x06 0 data False p)
    \<and> handle (receivedMessage (clock_telegram dest data)) = Inr [v] \<and> v_type v = OtherT SystemZeit
    \<and> formatValue v = Inr (time_text (kept_year (pt_year t)) t)
    \<and> (2000 \<le> pt_year t \<and> pt_year t < 2128 \<longleftrightarrow> kept_year (pt_year t) = pt_year t)"
proof -
  let ?data = "system_time_encode (time_record t)"
  have "length ?data = sizeof_SystemTimeRecord"
    by (simp add: system_time_encode_def date_time_encode_def sizeof_defs)
  moreover have "system_time_decode ?data = time_record t"
    by (rule system_time_decode_encode [OF time_record_fits])
  moreover have "2000 \<le> y \<and> y < 2128 \<longleftrightarrow> kept_year y = y" for y
  proof -
    have "0 \<le> (int y - 2000) mod 128" "(int y - 2000) mod 128 < 128" by simp_all
    then have "2000 \<le> kept_year y \<and> kept_year y < 2128" by (simp add: kept_year_def nat_less_iff)
    then show ?thesis using kept_year_id [of y] by auto
  qed
  ultimately show ?thesis
    using settime_command [OF assms(1,2)] assms(3) time_record_text [OF assms(4)] clock_reading [of ?data dest]
    by (intro exI [of _ ?data] exI [of _ "systemTimeValue (OtherT SystemZeit) NoSub (time_record t)"])
      (simp add: systemTimeValue_def formatValue_def)
qed

definition clock_env :: environment where
  "clock_env = example_env\<lparr>env_read_time := (\<lambda>is. (\<lparr>pt_year = 2024, pt_month = 2, pt_day = 29, pt_hours = 23,
     pt_minutes = 59, pt_seconds = 7, pt_weekday = 3\<rparr>, is))\<rparr>"

lemma set_clock_roundtrip_witness:
  "\<exists>data v. handle (receivedMessage (clock_telegram 0 data)) = Inr [v]
    \<and> formatValue v = Inr ''2024-02-29 23:59:07''"
proof -
  let ?t = "\<lparr>pt_year = 2024, pt_month = 2, pt_day = 29, pt_hours = 23, pt_minutes = 59, pt_seconds = 7, pt_weekday = 3\<rparr>"
  have "env_read_time clock_env (stream_of ('' '' @ ''2024-02-29 23:59:07'')) = (?t, stream_of ('' '' @ ''2024-02-29 23:59:07''))"
    by (simp add: clock_env_def)
  note r = set_clock_roundtrip [OF idle_parser_simps(1) this, of None 0]
  have "time_text (kept_year 2024) ?t = ''2024-02-29 23:59:07''" by code_simp
  then show ?thesis using r
    by (auto simp: time_fits_def stream_of_def)
qed

end
