(* ===== verification/TcpLink.thy ===== *)
theory TcpLink
  imports IoHandler
begin

text \<open>
  The life of the connection to a network gateway (\<open>TcpHandler.cpp\<close>, \<open>TcpHandler.h\<close>): connecting,
  reading, the watchdog of two minutes, and closing.  The event loop is replaced by the handlers it
  calls and the times at which it calls them (milliseconds); after \<open>stop\<close> it calls none.
\<close>

section \<open>State and handlers\<close>

text \<open>\<open>tl_reading\<close>: a read is outstanding; \<open>tl_watchdog\<close>: the time at which the watchdog expires.\<close>

record tcp_handler =
  tl_io :: io_handler
  tl_connecting :: bool
  tl_reading :: bool
  tl_socket :: bool
  tl_watchdog :: "nat option"

definition WatchdogTimeout :: nat where "WatchdogTimeout = 2 * 60 * 1000"

definition resetWatchdog :: "nat \<Rightarrow> tcp_handler \<Rightarrow> tcp_handler" where
  "resetWatchdog now s = s\<lparr>tl_watchdog := Some (now + WatchdogTimeout)\<rparr>"

definition readStart :: "tcp_handler \<Rightarrow> tcp_handler" where
  "readStart s = s\<lparr>tl_reading := True\<rparr>"

definition doCloseImpl :: "tcp_handler \<Rightarrow> tcp_handler" where
  "doCloseImpl s = s\<lparr>tl_watchdog := None, tl_socket := False\<rparr>"

definition tcp_doClose :: "tcp_handler \<Rightarrow> tcp_handler" where
  "tcp_doClose s = (let s = doCloseImpl s in s\<lparr>tl_io := doClose (tl_io s)\<rparr>)"

text \<open>The constructor: a name that cannot be resolved closes the handler at once.\<close>

definition tcp_init :: "bool \<Rightarrow> tcp_handler" where
  "tcp_init resolved =
     (let s = \<lparr>tl_io = io_init, tl_connecting = resolved, tl_reading = False, tl_socket = resolved,
               tl_watchdog = None\<rparr>
      in if resolved then s else tcp_doClose s)"

definition onConnected :: "nat \<Rightarrow> bool \<Rightarrow> tcp_handler \<Rightarrow> tcp_handler" where
  "onConnected now failed s =
     (let s = s\<lparr>tl_connecting := False\<rparr>
      in if failed then tcp_doClose s else readStart (resetWatchdog now s))"

text \<open>\<open>None\<close> is a failed read.\<close>

definition tcp_readComplete ::
    "nat \<Rightarrow> bytes option \<Rightarrow> tcp_handler \<Rightarrow> (tcp_handler \<times> io_event list) result" where
  "tcp_readComplete now outcome s =
     (let s = resetWatchdog now (s\<lparr>tl_reading := False\<rparr>)
      in case outcome of
           None \<Rightarrow> Inr (tcp_doClose s, [])
         | Some bs \<Rightarrow>
             bindR (rx_bytes (tl_io s) bs) (\<lambda>(io, es). Inr (readStart (s\<lparr>tl_io := io\<rparr>), es)))"

text \<open>The handler of the watchdog; \<open>aborted\<close> when the wait was cancelled or replaced.\<close>

definition onWatchdog :: "bool \<Rightarrow> tcp_handler \<Rightarrow> tcp_handler" where
  "onWatchdog aborted s = (if aborted then s else tcp_doClose s)"

section \<open>The event loop\<close>

datatype tcp_event = Connected bool | ReadDone "bytes option" | Watchdog

text \<open>
  Which handler can be called next, and when: the loop calls the handler of an expired timer before
  it waits for input again.
\<close>

fun tcp_enabled :: "nat \<Rightarrow> tcp_event \<Rightarrow> tcp_handler \<Rightarrow> bool" where
  "tcp_enabled now (Connected failed) s \<longleftrightarrow> \<not> io_stopped (tl_io s) \<and> tl_connecting s"
| "tcp_enabled now (ReadDone outcome) s \<longleftrightarrow> \<not> io_stopped (tl_io s) \<and> tl_reading s
     \<and> (\<forall>d \<in> set_option (tl_watchdog s). now \<le> d)"
| "tcp_enabled now Watchdog s \<longleftrightarrow> \<not> io_stopped (tl_io s) \<and> (\<exists>d \<in> set_option (tl_watchdog s). d \<le> now)"

fun tcp_step :: "nat \<Rightarrow> tcp_event \<Rightarrow> tcp_handler \<Rightarrow> (tcp_handler \<times> io_event list) result" where
  "tcp_step now (Connected failed) s = Inr (onConnected now failed s, [])"
| "tcp_step now (ReadDone outcome) s = tcp_readComplete now outcome s"
| "tcp_step now Watchdog s = Inr (onWatchdog False (s\<lparr>tl_watchdog := None\<rparr>), [])"

text \<open>
  Runs from the constructor: the handlers called so far with their times, what the receiver did, the
  time of the last handler that brought the connection forward (its set-up or a read), the state.
\<close>

inductive tcp_run :: "(nat \<times> tcp_event) list \<Rightarrow> io_event list \<Rightarrow> nat \<Rightarrow> tcp_handler \<Rightarrow> bool" where
  start: "tcp_run [] [] 0 (tcp_init resolved)"
| step: "tcp_run evs out seen s \<Longrightarrow> seen \<le> now \<Longrightarrow> tcp_enabled now e s \<Longrightarrow> tcp_step now e s = Inr (s', es) \<Longrightarrow>
    tcp_run (evs @ [(now, e)]) (out @ es) (if e = Watchdog then seen else now) s'"

text \<open>The bytes that the reads of a run delivered.\<close>

fun received :: "(nat \<times> tcp_event) list \<Rightarrow> bytes" where
  "received [] = []"
| "received ((now, ReadDone (Some bs)) # evs) = bs @ received evs"
| "received (e # evs) = received evs"

section \<open>The invariant\<close>

text \<open>
  A handler whose loop runs is either connecting, without a watchdog, or reading, and then the
  watchdog is set to two minutes after the last read; a closed one has no timer and no socket.
\<close>

definition tcp_inv :: "nat \<Rightarrow> tcp_handler \<Rightarrow> bool" where
  "tcp_inv seen s \<longleftrightarrow> io_active (tl_io s) = (\<not> io_stopped (tl_io s)) \<and>
     (if io_stopped (tl_io s) then tl_watchdog s = None \<and> \<not> tl_socket s
      else tl_socket s \<and> (if tl_connecting s then \<not> tl_reading s \<and> tl_watchdog s = None
             else tl_reading s \<and> tl_watchdog s = Some (seen + WatchdogTimeout)))"

lemmas tcp_defs = resetWatchdog_def readStart_def doCloseImpl_def tcp_doClose_def onConnected_def
  tcp_readComplete_def onWatchdog_def doClose_def Let_def

lemma tcp_init_inv: "tcp_inv 0 (tcp_init resolved)"
  by (simp add: tcp_inv_def tcp_init_def tcp_defs io_init_def)

lemma tcp_step_inv:
  assumes "tcp_inv seen s" and "tcp_enabled now e s" and "tcp_step now e s = Inr (s', es)"
  shows "tcp_inv (if e = Watchdog then seen else now) s'"
proof (cases e)
  case (ReadDone outcome)
  then show ?thesis
    using assms rx_bytes_loop by (cases outcome) (fastforce simp: tcp_inv_def tcp_defs bindR_Inr_iff)+
qed (use assms in \<open>auto simp: tcp_inv_def tcp_defs split: if_splits\<close>)

lemma tcp_run_inv: "tcp_run evs out seen s \<Longrightarrow> tcp_inv seen s"
  by (induction rule: tcp_run.induct) (simp_all add: tcp_init_inv tcp_step_inv)

section \<open>The stream\<close>

lemma received_append [simp]: "received (xs @ ys) = received xs @ received ys"
  by (induction xs rule: received.induct) auto

text \<open>\<open>tl_io\<close> is the receiver after the bytes, closed when the loop was stopped.\<close>

definition after_bytes :: "bytes \<Rightarrow> io_event list \<Rightarrow> tcp_handler \<Rightarrow> bool" where
  "after_bytes bs out s \<longleftrightarrow> (\<exists>h. rx_bytes io_init bs = Inr (h, out) \<and> io_active h \<and> \<not> io_stopped h
     \<and> tl_io s = (if io_stopped (tl_io s) then doClose h else h))"

lemma after_bytes_step:
  assumes "after_bytes bs out s" and "tcp_enabled now e s" and "tcp_step now e s = Inr (s', es)"
  shows "after_bytes (bs @ received [(now, e)]) (out @ es) s'"
proof -
  obtain h where h: "rx_bytes io_init bs = Inr (h, out)" "io_active h" "\<not> io_stopped h" "tl_io s = h"
    using assms(1,2) by (cases e) (auto simp: after_bytes_def)
  show ?thesis
  proof (cases "\<exists>chunk. e = ReadDone (Some chunk)")
    case True
    then obtain chunk io where "e = ReadDone (Some chunk)" "rx_bytes h chunk = Inr (io, es)" "tl_io s' = io"
      using assms(3) h(4) by (auto simp: tcp_defs bindR_Inr_iff)
    then show ?thesis
      using h rx_bytes_loop [of h chunk io es] by (auto simp: after_bytes_def rx_bytes_append)
  next
    case False
    then have "es = []" "received [(now, e)] = []" "tl_io s' = h \<or> tl_io s' = doClose h"
      using assms(3) h(4) by (cases e; auto simp: tcp_defs split: option.splits if_splits)+
    then show ?thesis using h by (auto simp: after_bytes_def doClose_def)
  qed
qed

lemma tcp_run_stream: "tcp_run evs out seen s \<Longrightarrow> after_bytes (received evs) out s"
proof (induction rule: tcp_run.induct)
  case (start resolved)
  then show ?case by (simp add: after_bytes_def tcp_init_def tcp_defs io_init_def)
next
  case (step evs out seen s now e s' es)
  then show ?case using after_bytes_step by simp
qed

section \<open>Properties\<close>

text \<open>
  C11: in every reachable state a handler whose loop runs waits for something that will come: for the
  outcome of the connection attempt, or for a read with the watchdog armed.  If nothing is read for two
  minutes the watchdog can and must be called next, and it closes the handler and stops the loop, so
  that \<open>main\<close> starts a new one; after that no handler is called.
\<close>

theorem tcp_watchdog_restarts:
  assumes "tcp_run evs out seen s"
  shows "if io_stopped (tl_io s)
     then \<not> io_active (tl_io s) \<and> \<not> tl_socket s \<and> \<not> tcp_enabled now e s
     else if tl_connecting s then tcp_enabled now (Connected failed) s
     else tcp_enabled (seen + WatchdogTimeout) Watchdog s
       \<and> (\<not> tcp_enabled now e s \<or> now \<le> seen + WatchdogTimeout \<or> e = Watchdog)
       \<and> (\<exists>s'. tcp_step now Watchdog s = Inr (s', []) \<and> io_stopped (tl_io s') \<and> \<not> io_active (tl_io s'))"
  using tcp_run_inv [OF assms]
  by (cases e) (auto simp: tcp_inv_def tcp_defs)

lemma tcp_watchdog_restarts_witness:
  "\<exists>s'. tcp_step 500000 Watchdog (onConnected 1000 False (tcp_init True)) = Inr (s', [])
     \<and> io_stopped (tl_io s')"
proof -
  have 1: "tcp_run [] [] 0 (tcp_init True)" by (rule tcp_run.start)
  have 2: "tcp_enabled 1000 (Connected False) (tcp_init True)"
    by (simp add: tcp_init_def io_init_def)
  have "tcp_run ([] @ [(1000, Connected False)]) ([] @ []) (if Connected False = Watchdog then 0 else 1000)
      (onConnected 1000 False (tcp_init True))"
    by (rule tcp_run.step [OF 1 _ 2]) simp_all
  then have "tcp_run [(1000, Connected False)] [] 1000 (onConnected 1000 False (tcp_init True))" by simp
  from tcp_watchdog_restarts [OF this, of 500000 Watchdog False] show ?thesis
    by (auto simp: tcp_init_def io_init_def tcp_defs)
qed

text \<open>
  what the daemon makes of a connection depends only on the bytes it received: not on the reads they
  came in, nor on their times, nor on the watchdog.
\<close>

theorem tcp_stream_only:
  assumes "tcp_run evs out seen s"
  shows "\<exists>h. rx_bytes io_init (received evs) = Inr (h, out)
     \<and> tl_io s = (if io_stopped (tl_io s) then doClose h else h)"
  using tcp_run_stream [OF assms] by (auto simp: after_bytes_def)

lemma tcp_stream_only_witness:
  "\<exists>h. rx_bytes io_init [] = Inr (h, []) \<and> tl_io (tcp_init True) = h"
  using tcp_stream_only [OF tcp_run.start [of True]] by (auto simp: tcp_init_def io_init_def)

text \<open>
  C34: the watchdog does not help against the receiver that a zero length byte has blocked: once one was
  received while the receiver was idle, nothing that follows is ever interpreted, and as long as the
  gateway sends something every two minutes the watchdog cannot be called.
\<close>

theorem blocked_link_stays_open:
  assumes "tcp_run evs out seen s" and "received evs = before @ [0xaa, 0x55, 0] @ bs"
    and "rx_bytes io_init before = Inr (h, es)" and "rx_idle h"
    and "\<not> io_stopped (tl_io s)" and "\<not> tl_connecting s"
  shows "out = es \<and> rx_data (tl_io s) = bs
     \<and> (\<not> tcp_enabled now Watchdog s \<or> seen + WatchdogTimeout \<le> now)
     \<and> (\<exists>s'. tcp_step now (ReadDone (Some chunk)) s = Inr (s', []) \<and> \<not> io_stopped (tl_io s'))"
proof -
  obtain h' where h': "rx_bytes h ([0xaa, 0x55, 0] @ bs) = Inr (h', [])" "rx_state h' = Data" "rx_data h' = bs" "rx_length h' = 0"
    using blocked_receiver [OF assms(4)] by metis
  have "rx_bytes io_init (received evs) = Inr (h', es)"
    using assms(2,3) h'(1) by (simp only: rx_bytes_append bindR_simps) simp
  then have out: "out = es" and io: "tl_io s = h'"
    using tcp_run_stream [OF assms(1)] assms(5) by (auto simp: after_bytes_def)
  obtain h'' where h'': "rx_bytes h' chunk = Inr (h'', [])"
    using rx_collect_forever [OF h'(2,4), of chunk] by blast
  have "io_stopped h'' = io_stopped h'" using rx_bytes_loop [OF h''] by simp
  then show ?thesis
    using out io h'(3) h'' assms(5,6) tcp_run_inv [OF assms(1)] by (auto simp: tcp_inv_def tcp_defs)
qed

lemma blocked_link_stays_open_witness:
  "\<exists>s. tcp_run [(0, Connected False), (1000, ReadDone (Some ([0xaa, 0x55, 0] @ serial_frame outdoor_telegram)))] [] 1000 s
     \<and> (\<exists>s'. tcp_step 2000 (ReadDone (Some (serial_frame outdoor_telegram))) s = Inr (s', []))"
proof -
  let ?bs = "[0xaa, 0x55, 0] @ serial_frame outdoor_telegram"
  let ?evs = "[(0, Connected False), (1000, ReadDone (Some ?bs))]"
  let ?s1 = "onConnected 0 False (tcp_init True)"
  have "tcp_run ([] @ [(0, Connected False)]) ([] @ []) (if Connected False = Watchdog then 0 else 0) ?s1"
    by (rule tcp_run.step [OF tcp_run.start [of True]]) (simp_all add: tcp_init_def io_init_def)
  then have 1: "tcp_run [(0, Connected False)] [] 0 ?s1" by simp
  obtain h where h: "rx_bytes io_init ?bs = Inr (h, [])" "\<not> io_stopped h"
    using blocked_receiver [OF rx_idle_init, of "serial_frame outdoor_telegram"] rx_bytes_loop [of io_init ?bs]
    by (metis io_init_def io_handler.select_convs(2))
  let ?s2 = "?s1\<lparr>tl_io := h, tl_reading := True, tl_watchdog := Some (1000 + WatchdogTimeout)\<rparr>"
  have e: "tcp_enabled 1000 (ReadDone (Some ?bs)) ?s1"
    by (simp add: tcp_defs tcp_init_def io_init_def WatchdogTimeout_def)
  have st: "tcp_step 1000 (ReadDone (Some ?bs)) ?s1 = Inr (?s2, [])"
    using h(1) by (simp add: tcp_defs tcp_init_def del: rx_bytes.simps)
  have "tcp_run ([(0, Connected False)] @ [(1000, ReadDone (Some ?bs))]) ([] @ [])
      (if ReadDone (Some ?bs) = Watchdog then 0 else 1000) ?s2"
    by (rule tcp_run.step [OF 1 _ e st]) simp
  then have 2: "tcp_run ?evs [] 1000 ?s2" by simp
  have "\<exists>s'. tcp_step 2000 (ReadDone (Some (serial_frame outdoor_telegram))) ?s2 = Inr (s', [])"
    using blocked_link_stays_open [OF 2, of "[]" "serial_frame outdoor_telegram" io_init "[]" 2000 "serial_frame outdoor_telegram"]
      h(2) rx_idle_init by (auto simp: tcp_defs tcp_init_def)
  with 2 show ?thesis by blast
qed

end
