(* ===== verification/SerialLink.thy ===== *)
theory SerialLink
  imports IoHandler
begin

text \<open>
  The life of the connection to a serial device (\<open>SerialHandler.cpp\<close>, \<open>SerialHandler.h\<close>,
  \<open>SendingSerialHandler.cpp\<close>): opening, reading, writing and closing.  Unlike the network handler it
  has no watchdog.
\<close>

section \<open>State and handlers\<close>

record serial_handler =
  sl_io :: io_handler
  sl_reading :: bool
  sl_port :: bool

text \<open>
  What opening the device comes to.  The constructor of \<open>serial_port\<close> that takes a device name throws
  when it cannot open it; \<open>NotOpen\<close> is the case that the code tests for.
\<close>

datatype open_outcome = OpenThrows | NotOpen | Opened

definition serial_readStart :: "serial_handler \<Rightarrow> serial_handler" where
  "serial_readStart s = s\<lparr>sl_reading := True\<rparr>"

definition serial_init :: "open_outcome \<Rightarrow> serial_handler option" where
  "serial_init outcome =
     (case outcome of
        OpenThrows \<Rightarrow> None
      | NotOpen \<Rightarrow> Some \<lparr>sl_io = io_init\<lparr>io_active := False\<rparr>, sl_reading = False, sl_port = False\<rparr>
      | Opened \<Rightarrow> Some (serial_readStart \<lparr>sl_io = io_init, sl_reading = False, sl_port = True\<rparr>))"

definition serial_doCloseImpl :: "serial_handler \<Rightarrow> serial_handler" where
  "serial_doCloseImpl s = s\<lparr>sl_port := False\<rparr>"

definition serial_doClose :: "serial_handler \<Rightarrow> serial_handler" where
  "serial_doClose s = (let s = serial_doCloseImpl s in s\<lparr>sl_io := doClose (sl_io s)\<rparr>)"

text \<open>The destructor.\<close>

definition serial_destroy :: "serial_handler \<Rightarrow> serial_handler" where
  "serial_destroy s = (if io_active (sl_io s) then s\<lparr>sl_port := False\<rparr> else s)"

definition serial_readComplete :: "bytes option \<Rightarrow> serial_handler \<Rightarrow> (serial_handler \<times> io_event list) result" where
  "serial_readComplete outcome s =
     (let s = s\<lparr>sl_reading := False\<rparr>
      in case outcome of
           None \<Rightarrow> Inr (serial_doClose s, [])
         | Some bs \<Rightarrow> bindR (rx_bytes (sl_io s) bs) (\<lambda>(io, es). Inr (serial_readStart (s\<lparr>sl_io := io\<rparr>), es)))"

section \<open>The event loop\<close>

text \<open>\<open>CloseRequested\<close>: the handler that \<open>close\<close> has posted.\<close>

datatype serial_event = SerialRead "bytes option" | CloseRequested

fun serial_enabled :: "serial_event \<Rightarrow> serial_handler \<Rightarrow> bool" where
  "serial_enabled (SerialRead outcome) s \<longleftrightarrow> \<not> io_stopped (sl_io s) \<and> sl_reading s"
| "serial_enabled CloseRequested s \<longleftrightarrow> \<not> io_stopped (sl_io s)"

fun serial_step :: "serial_event \<Rightarrow> serial_handler \<Rightarrow> (serial_handler \<times> io_event list) result" where
  "serial_step (SerialRead outcome) s = serial_readComplete outcome s"
| "serial_step CloseRequested s = Inr (serial_doClose s, [])"

inductive serial_run :: "serial_event list \<Rightarrow> io_event list \<Rightarrow> serial_handler \<Rightarrow> bool" where
  opened: "serial_init Opened = Some s \<Longrightarrow> serial_run [] [] s"
| event: "serial_run evs out s \<Longrightarrow> serial_enabled e s \<Longrightarrow> serial_step e s = Inr (s', es) \<Longrightarrow>
    serial_run (evs @ [e]) (out @ es) s'"

fun serial_received :: "serial_event list \<Rightarrow> bytes" where
  "serial_received [] = []"
| "serial_received (SerialRead (Some bs) # evs) = bs @ serial_received evs"
| "serial_received (e # evs) = serial_received evs"

lemma serial_received_append [simp]: "serial_received (xs @ ys) = serial_received xs @ serial_received ys"
  by (induction xs rule: serial_received.induct) auto

text \<open>An event that ends the handler.\<close>

definition ends_link :: "serial_event \<Rightarrow> bool" where
  "ends_link e \<longleftrightarrow> e = SerialRead None \<or> e = CloseRequested"

section \<open>The invariant\<close>

definition serial_inv :: "serial_event list \<Rightarrow> io_event list \<Rightarrow> serial_handler \<Rightarrow> bool" where
  "serial_inv evs out s \<longleftrightarrow>
     (\<exists>h. rx_bytes io_init (serial_received evs) = Inr (h, out) \<and> io_active h \<and> \<not> io_stopped h
        \<and> (if io_stopped (sl_io s)
           then sl_io s = doClose h \<and> \<not> sl_port s \<and> (\<exists>pre e. evs = pre @ [e] \<and> ends_link e)
           else sl_io s = h \<and> sl_port s \<and> sl_reading s \<and> \<not> list_ex ends_link evs))"

lemmas serial_defs = serial_readStart_def serial_init_def serial_doCloseImpl_def serial_doClose_def
  serial_readComplete_def ends_link_def

lemma serial_event_inv:
  assumes "serial_inv evs out s" and "serial_enabled e s" and "serial_step e s = Inr (s', es)"
  shows "serial_inv (evs @ [e]) (out @ es) s'"
proof -
  have run: "\<not> io_stopped (sl_io s)" using assms(2) by (cases e) auto
  then have h: "rx_bytes io_init (serial_received evs) = Inr (sl_io s, out)" "io_active (sl_io s)" "sl_port s"
    "\<not> list_ex ends_link evs"
    using assms(1) by (auto simp: serial_inv_def)
  show ?thesis
  proof (cases "\<exists>bs. e = SerialRead (Some bs)")
    case True
    then obtain bs io where "e = SerialRead (Some bs)" "rx_bytes (sl_io s) bs = Inr (io, es)"
      "s' = s\<lparr>sl_io := io, sl_reading := True\<rparr>"
      using assms(3) by (auto simp: serial_defs Let_def bindR_Inr_iff)
    then show ?thesis
      using h run rx_bytes_loop [of "sl_io s" bs io es]
      by (auto simp: serial_inv_def rx_bytes_append ends_link_def)
  next
    case False
    then have "ends_link e" "es = []" "serial_received [e] = []" "sl_io s' = doClose (sl_io s)" "\<not> sl_port s'"
      using assms(3) by (cases e; auto simp: serial_defs Let_def split: option.splits)+
    then show ?thesis using h run by (auto simp: serial_inv_def doClose_def)
  qed
qed

lemma serial_run_inv: "serial_run evs out s \<Longrightarrow> serial_inv evs out s"
proof (induction rule: serial_run.induct)
  case (opened s)
  then show ?case by (auto simp: serial_inv_def serial_defs io_init_def)
next
  case (event evs out s e s' es)
  then show ?case using serial_event_inv by blast
qed

section \<open>Properties\<close>

text \<open>
  C35: in every reachable state of a serial link that was opened: until a read fails or the handler
  is closed, a read is pending, telegrams are written as frames, and what was interpreted is what the
  receiver makes of all bytes received, however they were cut into reads; a silent device is waited
  for without end.  Afterwards the port is closed, nothing is called any more and nothing is written.
\<close>

theorem serial_link_life:
  assumes "serial_run evs out s"
  shows "(io_stopped (sl_io s) \<longleftrightarrow> list_ex ends_link evs)
    \<and> (if list_ex ends_link evs
       then ends_link (last evs) \<and> \<not> sl_port s \<and> (\<forall>e. \<not> serial_enabled e s)
         \<and> (\<forall>m bs. getSendData m False = Inr bs \<longrightarrow> serial_sendMessageImpl (sl_io s) m = Inr [])
       else sl_port s \<and> serial_enabled (SerialRead chunk) s
         \<and> rx_bytes io_init (serial_received evs) = Inr (sl_io s, out)
         \<and> (\<forall>m bs. getSendData m False = Inr bs \<longrightarrow> serial_sendMessageImpl (sl_io s) m = Inr (serial_frame bs)))"
proof -
  obtain h where h: "rx_bytes io_init (serial_received evs) = Inr (h, out)" "io_active h" "\<not> io_stopped h"
    "if io_stopped (sl_io s)
     then sl_io s = doClose h \<and> \<not> sl_port s \<and> (\<exists>pre e. evs = pre @ [e] \<and> ends_link e)
     else sl_io s = h \<and> sl_port s \<and> sl_reading s \<and> \<not> list_ex ends_link evs"
    using serial_run_inv [OF assms] by (auto simp: serial_inv_def)
  have none: "\<not> serial_enabled e s" if "io_stopped (sl_io s)" for e
    using that by (cases e) auto
  show ?thesis
  proof (cases "io_stopped (sl_io s)")
    case True
    then have "list_ex ends_link evs" "ends_link (last evs)" "\<not> io_active (sl_io s)"
      using h(4) by (auto simp: doClose_def)
    then show ?thesis using True h(4) none by (simp add: serial_sendMessageImpl_def)
  next
    case False
    then show ?thesis using h by (simp add: serial_sendMessageImpl_def)
  qed
qed

lemma serial_link_life_witness:
  "\<exists>s s'. serial_run [] [] s \<and> serial_enabled (SerialRead None) s
     \<and> serial_run [SerialRead None] [] s' \<and> \<not> sl_port s' \<and> serial_sendMessageImpl (sl_io s') (receivedMessage []) = Inr []"
proof -
  obtain s where s: "serial_init Opened = Some s" by (simp add: serial_init_def)
  have 0: "serial_run [] [] s" by (rule serial_run.opened [OF s])
  have e: "serial_enabled (SerialRead None) s" using serial_link_life [OF 0] by auto
  obtain s' where s': "serial_step (SerialRead None) s = Inr (s', [])" by (simp add: serial_defs Let_def)
  have 1: "serial_run [SerialRead None] [] s'" using serial_run.event [OF 0 e s'] by simp
  obtain bs where "getSendData (receivedMessage []) False = Inr bs"
    by (simp add: getSendData_def receivedMessage_def Let_def)
  then have "\<not> sl_port s' \<and> serial_sendMessageImpl (sl_io s') (receivedMessage []) = Inr []"
    using serial_link_life [OF 1] by (simp add: ends_link_def)
  then show ?thesis using 0 e 1 by blast
qed

end
