(* ===== verification/CommandScheduler.thy ===== *)
theory CommandScheduler
  imports EmsMessage KeyedStore "HOL-Library.Multiset"
begin

text \<open>
  \<open>EmsCommandSender\<close> (\<open>CommandScheduler.h\<close>, \<open>CommandScheduler.cpp\<close>): requests of several clients
  are sent one after the other, with a timeout for the answer, a made-up answer for writes, and a
  minimum distance between telegrams to one destination.  Each definition takes the current time
  in milliseconds; the clients are numbered and their callbacks are parameters (\<open>client_ops\<close>):
  a callback returns the new state of the client and the messages it submits meanwhile.  An
  event is one handler that the event loop runs to its end.
\<close>

unbundle bit_operations_syntax

section \<open>State\<close>

datatype response_wait = FakeAnswer | AnswerTimeout

record 'c client_ops =
  cl_incoming :: "'c \<Rightarrow> ems_message \<Rightarrow> ('c \<times> ems_message list) result"
  cl_timeout :: "'c \<Rightarrow> 'c \<times> ems_message list"

record 'c scheduler =
  m_currentClient :: "nat option"
  m_pending :: "(nat \<times> ems_message) list"
  m_responseTimeout :: "(response_wait \<times> nat) option"
  m_sendTimer :: "(ems_message \<times> nat) option"
  m_postedSends :: "ems_message list"
  m_lastCommTimes :: "(nat, nat) rbt"
  s_clients :: "nat \<Rightarrow> 'c"

text \<open>
  \<open>m_postedSends\<close> are the handlers of waits on \<open>m_sendTimer\<close> that a new deadline has aborted: they
  are bound without the error code, so they still send their message when the loop runs them.
\<close>

definition scheduler_init :: "(nat \<Rightarrow> 'c) \<Rightarrow> 'c scheduler" where
  "scheduler_init clients = \<lparr>m_currentClient = None, m_pending = [], m_responseTimeout = None,
     m_sendTimer = None, m_postedSends = [], m_lastCommTimes = RBT.empty, s_clients = clients\<rparr>"

definition RequestTimeout :: nat where "RequestTimeout = 1000"
definition MinDistanceBetweenRequests :: nat where "MinDistanceBetweenRequests = 100"
definition FakeAnswerDelay :: nat where "FakeAnswerDelay = 200"

section \<open>Sending\<close>

text \<open>Every operation returns the new state and the telegrams given to \<open>sendMessageImpl\<close>.\<close>

definition scheduleResponseTimeout :: "nat \<Rightarrow> bool \<Rightarrow> 'c scheduler \<Rightarrow> 'c scheduler" where
  "scheduleResponseTimeout now fakeAnswer s =
     s\<lparr>m_responseTimeout := Some (if fakeAnswer then (FakeAnswer, now + FakeAnswerDelay)
                                else (AnswerTimeout, now + RequestTimeout))\<rparr>"

definition doSendMessage :: "nat \<Rightarrow> ems_message \<Rightarrow> 'c scheduler \<Rightarrow> 'c scheduler \<times> ems_message list" where
  "doSendMessage now msg s =
     (let fakeAnswer = (m_dest msg AND 0x80 = 0);
          s' = scheduleResponseTimeout now fakeAnswer s
      in (s'\<lparr>m_lastCommTimes := RBT.insert (unat (m_dest msg)) now (m_lastCommTimes s')\<rparr>, [msg]))"

definition sendMessage :: "nat \<Rightarrow> ems_message \<Rightarrow> 'c scheduler \<Rightarrow> 'c scheduler \<times> ems_message list" where
  "sendMessage now msg s =
     (case RBT.lookup (m_lastCommTimes s) (unat (m_dest msg)) of
        None \<Rightarrow> doSendMessage now msg s
      | Some t \<Rightarrow>
          if int now - int t \<le> int MinDistanceBetweenRequests
          then (s\<lparr>m_sendTimer := Some (msg, t + MinDistanceBetweenRequests),
                  m_postedSends := m_postedSends s
                    @ (case m_sendTimer s of None \<Rightarrow> [] | Some (old, _) \<Rightarrow> [old])\<rparr>, [])
          else doSendMessage now msg s)"

definition continueWithNextRequest :: "nat \<Rightarrow> 'c scheduler \<Rightarrow> 'c scheduler \<times> ems_message list" where
  "continueWithNextRequest now s =
     (case m_pending s of
        [] \<Rightarrow> (s\<lparr>m_currentClient := None\<rparr>, [])
      | (c, msg) # rest \<Rightarrow>
          (case sendMessage now msg (s\<lparr>m_currentClient := Some c\<rparr>) of
             (s', out) \<Rightarrow> (s'\<lparr>m_pending := rest\<rparr>, out)))"

definition submit :: "nat \<Rightarrow> nat \<Rightarrow> ems_message \<Rightarrow> 'c scheduler \<Rightarrow> 'c scheduler \<times> ems_message list" where
  "submit now c msg s =
     (let wasIdle = (m_currentClient s = None); s' = s\<lparr>m_pending := m_pending s @ [(c, msg)]\<rparr>
      in if wasIdle then continueWithNextRequest now s' else (s', []))"

section \<open>Answers and timeouts\<close>

text \<open>A callback of the current client runs while there is a current client, so what it submits is
  only queued.\<close>

definition after_callback :: "nat \<Rightarrow> 'c \<times> ems_message list \<Rightarrow> 'c scheduler \<Rightarrow> 'c scheduler" where
  "after_callback c r s =
     s\<lparr>s_clients := (s_clients s)(c := fst r), m_pending := m_pending s @ map (\<lambda>m. (c, m)) (snd r)\<rparr>"

definition handlePcMessage ::
    "'c client_ops \<Rightarrow> nat \<Rightarrow> ems_message \<Rightarrow> 'c scheduler \<Rightarrow> ('c scheduler \<times> ems_message list) result" where
  "handlePcMessage ops now msg s =
     (let s1 = s\<lparr>m_lastCommTimes := RBT.insert (unat (m_source msg)) now (m_lastCommTimes s),
                 m_responseTimeout := None\<rparr>
      in case m_currentClient s1 of
           None \<Rightarrow> Inr (continueWithNextRequest now s1)
         | Some c \<Rightarrow> bindR (cl_incoming ops (s_clients s1 c) msg) (\<lambda>r.
             Inr (continueWithNextRequest now (after_callback c r s1))))"

text \<open>\<open>std::vector<uint8_t> fakeData(0x00, 0x01)\<close> has no elements.\<close>

definition fake_answer :: ems_message where
  "fake_answer = sendMessage_ctor 0x0b 0xff 0x01 [] False"

definition onFakeAnswer ::
    "'c client_ops \<Rightarrow> nat \<Rightarrow> 'c scheduler \<Rightarrow> ('c scheduler \<times> ems_message list) result" where
  "onFakeAnswer ops now s =
     (if m_currentClient s = None then Inr (continueWithNextRequest now s)
      else bindR (handlePcMessage ops now fake_answer s) (\<lambda>(s1, out1).
             (case continueWithNextRequest now s1 of (s2, out2) \<Rightarrow> Inr (s2, out1 @ out2))))"

definition onAnswerTimeout ::
    "'c client_ops \<Rightarrow> nat \<Rightarrow> 'c scheduler \<Rightarrow> 'c scheduler \<times> ems_message list" where
  "onAnswerTimeout ops now s =
     continueWithNextRequest now
       (case m_currentClient s of
          None \<Rightarrow> s
        | Some c \<Rightarrow> after_callback c (cl_timeout ops (s_clients s c)) s)"

section \<open>Events\<close>

datatype event =
    Submit nat ems_message
  | PcMessageReceived ems_message
  | ResponseTimerExpired
  | SendTimerExpired
  | PostedSend

definition sched_event ::
    "'c client_ops \<Rightarrow> nat \<Rightarrow> event \<Rightarrow> 'c scheduler \<Rightarrow> ('c scheduler \<times> ems_message list) result" where
  "sched_event ops now e s =
     (case e of
        Submit c msg \<Rightarrow> Inr (submit now c msg s)
      | PcMessageReceived msg \<Rightarrow> handlePcMessage ops now msg s
      | ResponseTimerExpired \<Rightarrow>
          (case m_responseTimeout s of
             Some (w, deadline) \<Rightarrow>
               if deadline \<le> now
               then (let s' = s\<lparr>m_responseTimeout := None\<rparr>
                     in if w = FakeAnswer then onFakeAnswer ops now s'
                        else Inr (onAnswerTimeout ops now s'))
               else Inr (s, [])
           | None \<Rightarrow> Inr (s, []))
      | SendTimerExpired \<Rightarrow>
          (case m_sendTimer s of
             Some (msg, deadline) \<Rightarrow>
               if deadline \<le> now then Inr (doSendMessage now msg (s\<lparr>m_sendTimer := None\<rparr>))
               else Inr (s, [])
           | None \<Rightarrow> Inr (s, []))
      | PostedSend \<Rightarrow>
          (case m_postedSends s of
             msg # rest \<Rightarrow> Inr (doSendMessage now msg (s\<lparr>m_postedSends := rest\<rparr>))
           | [] \<Rightarrow> Inr (s, [])))"

text \<open>What a run of the loop reaches, with all telegrams sent so far.\<close>

inductive sched_run ::
    "'c client_ops \<Rightarrow> 'c scheduler \<Rightarrow> (nat \<times> event) list \<Rightarrow> 'c scheduler \<Rightarrow> ems_message list \<Rightarrow> bool"
  for ops :: "'c client_ops" where
  sched_start: "sched_run ops s [] s []"
| sched_step: "sched_run ops s tes s' out \<Longrightarrow> sched_event ops now e s' = Inr (s'', out') \<Longrightarrow>
     sched_run ops s (tes @ [(now, e)]) s'' (out @ out')"

inductive_cases sched_run_snocE: "sched_run ops s (tes @ [te]) s' out"
inductive_simps sched_run_Nil_iff [simp]: "sched_run ops s [] s' out"

section \<open>Nobody waits without a timer\<close>

text \<open>
  While a client is served, some timer or posted handler will run, and messages wait only while
  a client is served.
\<close>

definition waiting :: "'c scheduler \<Rightarrow> bool" where
  "waiting s \<longleftrightarrow> m_responseTimeout s \<noteq> None \<or> m_sendTimer s \<noteq> None \<or> m_postedSends s \<noteq> []"

definition sched_inv :: "'c scheduler \<Rightarrow> bool" where
  "sched_inv s \<longleftrightarrow> (m_currentClient s \<noteq> None \<longrightarrow> waiting s) \<and> (m_pending s \<noteq> [] \<longrightarrow> m_currentClient s \<noteq> None)"

lemma sendMessage_waiting [simp]: "waiting (fst (sendMessage now msg s))"
  by (simp add: sendMessage_def doSendMessage_def scheduleResponseTimeout_def waiting_def Let_def
      split: option.splits)

lemma sendMessage_keeps [simp]:
  "m_currentClient (fst (sendMessage now msg s)) = m_currentClient s"
  "m_pending (fst (sendMessage now msg s)) = m_pending s"
  "s_clients (fst (sendMessage now msg s)) = s_clients s"
  by (simp_all add: sendMessage_def doSendMessage_def scheduleResponseTimeout_def Let_def
      split: option.splits)

lemma continue_inv: "sched_inv (fst (continueWithNextRequest now s))"
proof (cases "m_pending s")
  case Nil
  then show ?thesis by (simp add: continueWithNextRequest_def sched_inv_def)
next
  case (Cons x rest)
  obtain c msg where x: "x = (c, msg)" by (cases x)
  let ?s = "fst (sendMessage now msg (s\<lparr>m_currentClient := Some c\<rparr>))"
  have "waiting ?s" "m_currentClient ?s = Some c" by simp_all
  then show ?thesis
    using Cons x by (simp add: continueWithNextRequest_def sched_inv_def waiting_def case_prod_beta)
qed

lemma continue_inv_eq: "continueWithNextRequest now s = (s', out) \<Longrightarrow> sched_inv s'"
  using continue_inv [of now s] by simp

lemma doSend_inv: "sched_inv s \<Longrightarrow> sched_inv (fst (doSendMessage now msg s))"
  by (simp add: doSendMessage_def scheduleResponseTimeout_def sched_inv_def waiting_def Let_def)

lemma handlePcMessage_inv:
  "handlePcMessage ops now msg s = Inr (s', out) \<Longrightarrow> sched_inv s'"
  by (auto simp: handlePcMessage_def Let_def bindR_Inr_iff split: option.splits
      dest: continue_inv_eq)

lemma onFakeAnswer_inv: "onFakeAnswer ops now s = Inr (s', out) \<Longrightarrow> sched_inv s'"
  by (auto simp: onFakeAnswer_def bindR_Inr_iff case_prod_beta continue_inv
      split: if_splits dest: continue_inv_eq)

lemma sched_event_inv:
  assumes "sched_inv s" and "sched_event ops now e s = Inr (s', out)"
  shows "sched_inv s'"
proof (cases e)
  case (Submit c msg)
  then show ?thesis
    using assms continue_inv [of now "s\<lparr>m_pending := m_pending s @ [(c, msg)]\<rparr>"]
    by (auto simp: sched_event_def submit_def Let_def sched_inv_def waiting_def split: if_splits)
next
  case (PcMessageReceived msg)
  then show ?thesis using assms handlePcMessage_inv by (simp add: sched_event_def)
next
  case ResponseTimerExpired
  then show ?thesis
    using assms
    by (auto simp: sched_event_def onAnswerTimeout_def Let_def
        split: option.splits if_splits dest: continue_inv_eq onFakeAnswer_inv)
next
  case SendTimerExpired
  show ?thesis
  proof (cases "m_sendTimer s")
    case (Some md)
    then show ?thesis
      using assms SendTimerExpired
      by (cases md) (auto simp: sched_event_def doSendMessage_def scheduleResponseTimeout_def
          sched_inv_def waiting_def Let_def split: if_splits)
  qed (use assms SendTimerExpired in \<open>simp add: sched_event_def\<close>)
next
  case PostedSend
  then show ?thesis
    using assms by (auto simp: sched_event_def doSendMessage_def scheduleResponseTimeout_def
        sched_inv_def waiting_def Let_def split: list.splits)
qed

lemma sched_run_inv: "sched_run ops s tes s' out \<Longrightarrow> sched_inv s \<Longrightarrow> sched_inv s'"
  by (induction rule: sched_run.induct) (auto dest: sched_event_inv)

lemma sched_init_inv: "sched_inv (scheduler_init clients)"
  by (simp add: sched_inv_def scheduler_init_def)

section \<open>Messages are neither lost nor duplicated\<close>

text \<open>All messages that were submitted and not yet sent.\<close>

definition backlog :: "'c scheduler \<Rightarrow> ems_message multiset" where
  "backlog s = mset (map snd (m_pending s)) + mset (m_postedSends s)
     + (case m_sendTimer s of None \<Rightarrow> {#} | Some (msg, _) \<Rightarrow> {#msg#})"

text \<open>The messages that an event adds: the submitted one, or those of the callback it runs.\<close>

definition event_submits :: "'c client_ops \<Rightarrow> nat \<Rightarrow> event \<Rightarrow> 'c scheduler \<Rightarrow> ems_message list" where
  "event_submits ops now e s =
     (let incoming = (\<lambda>msg. case m_currentClient s of None \<Rightarrow> []
            | Some c \<Rightarrow> (case cl_incoming ops (s_clients s c) msg of Inl _ \<Rightarrow> [] | Inr r \<Rightarrow> snd r))
      in case e of
           Submit c msg \<Rightarrow> [msg]
         | PcMessageReceived msg \<Rightarrow> incoming msg
         | ResponseTimerExpired \<Rightarrow>
             (case m_responseTimeout s of
                None \<Rightarrow> []
              | Some (w, deadline) \<Rightarrow>
                  if now < deadline then []
                  else if w = FakeAnswer then incoming fake_answer
                  else (case m_currentClient s of None \<Rightarrow> []
                        | Some c \<Rightarrow> snd (cl_timeout ops (s_clients s c))))
         | _ \<Rightarrow> [])"

text \<open>
  What the timer of the answers does: nothing, or it continues the queue while nobody is served, or it makes
  up an answer and then continues the queue again, or it calls the client whose answer did not come.
\<close>

lemma timer_cases:
  assumes "sched_event ops now ResponseTimerExpired s = Inr (s', out)"
  obtains (idle) "s' = s" "out = []" "event_submits ops now ResponseTimerExpired s = []"
  | (unserved) "m_currentClient s = None"
      "continueWithNextRequest now (s\<lparr>m_responseTimeout := None\<rparr>) = (s', out)"
      "event_submits ops now ResponseTimerExpired s = []"
  | (answered) c d s1 out1 out2 where "m_currentClient s = Some c"
      "handlePcMessage ops now fake_answer (s\<lparr>m_responseTimeout := None\<rparr>) = Inr (s1, out1)"
      "continueWithNextRequest now s1 = (s', out2)" "out = out1 @ out2"
      "event_submits ops now ResponseTimerExpired s
        = event_submits ops now (PcMessageReceived fake_answer) (s\<lparr>m_responseTimeout := None\<rparr>)"
      "m_responseTimeout s = Some (FakeAnswer, d)" "d \<le> now"
  | (timeout) c d where "m_currentClient s = Some c"
      "continueWithNextRequest now
        (after_callback c (cl_timeout ops (s_clients s c)) (s\<lparr>m_responseTimeout := None\<rparr>)) = (s', out)"
      "event_submits ops now ResponseTimerExpired s = snd (cl_timeout ops (s_clients s c))"
      "m_responseTimeout s = Some (AnswerTimeout, d)" "d \<le> now"
proof (cases "case m_responseTimeout s of None \<Rightarrow> False | Some (w, d) \<Rightarrow> d \<le> now")
  case False
  then show ?thesis
    using idle assms by (auto simp: sched_event_def event_submits_def split: option.splits)
next
  case True
  then obtain w d where t: "m_responseTimeout s = Some (w, d)" "d \<le> now" by (auto split: option.splits)
  show ?thesis
  proof (cases "m_currentClient s")
    case None
    then show ?thesis
      using unserved assms t
      by (auto simp: sched_event_def event_submits_def onFakeAnswer_def onAnswerTimeout_def Let_def split: if_splits)
  next
    case (Some c)
    show ?thesis
    proof (cases w)
      case FakeAnswer
      then obtain s1 out1 where "handlePcMessage ops now fake_answer (s\<lparr>m_responseTimeout := None\<rparr>) = Inr (s1, out1)"
        "s' = fst (continueWithNextRequest now s1)" "out = out1 @ snd (continueWithNextRequest now s1)"
        using assms t Some by (auto simp: sched_event_def onFakeAnswer_def bindR_Inr_iff case_prod_beta)
      then show ?thesis
        using answered [of c s1 out1 "snd (continueWithNextRequest now s1)" d] t Some FakeAnswer
        by (simp add: event_submits_def)
    next
      case AnswerTimeout
      then show ?thesis
        using timeout [of c d] assms t Some by (simp add: sched_event_def event_submits_def onAnswerTimeout_def)
    qed
  qed
qed

lemma sendMessage_backlog:
  "backlog (fst (sendMessage now msg s)) + mset (snd (sendMessage now msg s)) = backlog s + {#msg#}"
  by (auto simp: sendMessage_def doSendMessage_def scheduleResponseTimeout_def backlog_def Let_def
      split: option.splits)

lemma backlog_pending:
  "backlog (s\<lparr>m_pending := ps\<rparr>) + mset (map snd (m_pending s)) = backlog s + mset (map snd ps)"
  by (simp add: backlog_def)

lemma continue_backlog:
  "backlog (fst (continueWithNextRequest now s)) + mset (snd (continueWithNextRequest now s)) = backlog s"
proof (cases "m_pending s")
  case Nil
  then show ?thesis by (simp add: continueWithNextRequest_def backlog_def)
next
  case (Cons x rest)
  obtain c msg where x: "x = (c, msg)" by (cases x)
  let ?s = "s\<lparr>m_currentClient := Some c\<rparr>"
  let ?r = "sendMessage now msg ?s"
  have "backlog (fst ?r) + mset (snd ?r) = backlog s + {#msg#}"
    using sendMessage_backlog [of now msg ?s] by (simp add: backlog_def)
  moreover have "backlog ((fst ?r)\<lparr>m_pending := rest\<rparr>) + {#msg#} = backlog (fst ?r)"
    using Cons x by (simp add: backlog_def)
  ultimately have "backlog ((fst ?r)\<lparr>m_pending := rest\<rparr>) + mset (snd ?r) + {#msg#} = backlog s + {#msg#}"
    by (metis (no_types, lifting) add.assoc add.commute)
  then show ?thesis
    using Cons x by (simp add: continueWithNextRequest_def case_prod_beta)
qed

lemma continue_backlog_eq:
  "continueWithNextRequest now s = (s', out) \<Longrightarrow> backlog s' + mset out = backlog s"
  using continue_backlog [of now s] by simp

lemma after_callback_backlog: "backlog (after_callback c r s) = backlog s + mset (snd r)"
  by (simp add: after_callback_def backlog_def comp_def)

lemma handlePcMessage_backlog:
  assumes "handlePcMessage ops now msg s = Inr (s', out)"
  shows "backlog s' + mset out = backlog s + mset (event_submits ops now (PcMessageReceived msg) s)"
proof (cases "m_currentClient s")
  case None
  with assms show ?thesis
    by (auto simp: handlePcMessage_def event_submits_def Let_def backlog_def dest!: continue_backlog_eq)
next
  case (Some c)
  with assms show ?thesis
    by (auto simp: handlePcMessage_def event_submits_def Let_def bindR_Inr_iff after_callback_backlog
        dest!: continue_backlog_eq) (simp add: backlog_def)
qed

text \<open>
  No event loses or duplicates a message: what was waiting before together with what the event submits
  is what it sends together with what is waiting after it.
\<close>

lemma event_backlog:
  assumes "sched_event ops now e s = Inr (s', out)"
  shows "backlog s' + mset out = backlog s + mset (event_submits ops now e s)"
proof (cases e)
  case (Submit c msg)
  then show ?thesis
    using assms by (auto simp: sched_event_def submit_def event_submits_def Let_def backlog_def
        split: if_splits dest!: continue_backlog_eq)
next
  case (PcMessageReceived msg)
  then show ?thesis
    using assms handlePcMessage_backlog by (simp add: sched_event_def)
next
  case ResponseTimerExpired
  have drop: "backlog (s\<lparr>m_responseTimeout := x\<rparr>) = backlog s" for x by (simp add: backlog_def)
  note e = ResponseTimerExpired
  from assms [unfolded e] show ?thesis
  proof (cases rule: timer_cases)
    case unserved
    then show ?thesis using continue_backlog_eq [OF unserved(2)] by (simp add: drop e)
  next
    case (answered c d s1 out1 out2)
    then show ?thesis
      using handlePcMessage_backlog [OF answered(2)] continue_backlog_eq [OF answered(3), symmetric] answered(4,5) drop
      by (simp add: e ac_simps)
  next
    case (timeout c d)
    then show ?thesis
      using continue_backlog_eq [OF timeout(2)] by (simp add: after_callback_backlog drop e)
  qed (simp add: e)
next
  case SendTimerExpired
  then show ?thesis
    using assms by (auto simp: sched_event_def event_submits_def doSendMessage_def
        scheduleResponseTimeout_def backlog_def Let_def split: option.splits if_splits)
next
  case PostedSend
  then show ?thesis
    using assms by (auto simp: sched_event_def event_submits_def doSendMessage_def
        scheduleResponseTimeout_def backlog_def Let_def split: list.splits)
qed

section \<open>Properties\<close>

text \<open>Clients that submit nothing on their own, as an example.\<close>

definition quiet_ops :: "unit client_ops" where
  "quiet_ops = \<lparr>cl_incoming = (\<lambda>c m. Inr (c, [])), cl_timeout = (\<lambda>c. (c, []))\<rparr>"

lemma submit_example:
  "sched_event quiet_ops 0 (Submit 3 fake_answer) (scheduler_init (\<lambda>_. ())) =
     Inr (submit 0 3 fake_answer (scheduler_init (\<lambda>_. ())))"
  by (simp add: sched_event_def)

text \<open>
  C16: in every reachable state, a client that is being served has a running timer or a posted
  handler behind it, and messages wait in the queue only while a client is served, so the queue
  never stalls.
\<close>

theorem scheduler_never_stalls:
  assumes "sched_run ops (scheduler_init clients) tes s out"
  shows "(m_currentClient s \<noteq> None \<longrightarrow> waiting s) \<and> (m_pending s \<noteq> [] \<longrightarrow> m_currentClient s \<noteq> None)"
  using sched_run_inv [OF assms sched_init_inv] by (simp add: sched_inv_def)

lemma scheduler_never_stalls_witness:
  "\<exists>s out. sched_run quiet_ops (scheduler_init (\<lambda>_. ())) [(0, Submit 3 fake_answer)] s out
     \<and> m_currentClient s = Some 3 \<and> waiting s"
proof -
  let ?r = "submit 0 3 fake_answer (scheduler_init (\<lambda>_. ()))"
  have "sched_run quiet_ops (scheduler_init (\<lambda>_. ())) ([] @ [(0, Submit 3 fake_answer)]) (fst ?r) ([] @ snd ?r)"
    by (rule sched_step [OF sched_start]) (simp add: submit_example)
  moreover have "m_currentClient (fst ?r) = Some 3"
    by (simp add: submit_def continueWithNextRequest_def scheduler_init_def case_prod_beta)
  ultimately show ?thesis using scheduler_never_stalls by fastforce
qed

text \<open>Without a current client and without submissions nobody hears anything.\<close>

lemma idle_event:
  assumes "m_currentClient s = None" and "m_pending s = []" and "sched_event ops now e s = Inr (s', out)"
    and "\<And>c msg. e \<noteq> Submit c msg"
  shows "m_currentClient s' = None \<and> m_pending s' = [] \<and> s_clients s' = s_clients s"
  using assms
  by (cases e) (auto simp: sched_event_def handlePcMessage_def onFakeAnswer_def onAnswerTimeout_def
      continueWithNextRequest_def doSendMessage_def scheduleResponseTimeout_def Let_def
      split: option.splits if_splits list.splits)

lemma idle_run:
  "sched_run ops s tes s' out \<Longrightarrow> m_currentClient s = None \<Longrightarrow> m_pending s = [] \<Longrightarrow>
     (\<forall>te \<in> set tes. \<forall>c msg. snd te \<noteq> Submit c msg) \<Longrightarrow>
     m_currentClient s' = None \<and> m_pending s' = [] \<and> s_clients s' = s_clients s"
proof (induction rule: sched_run.induct)
  case (sched_step s tes s' out now e s'' out')
  then show ?case using idle_event [of s' ops now e s'' out'] by simp
qed simp

lemma orphan:
  assumes "m_currentClient s = Some a" and "m_pending s = [(b, msg)]" and "b \<noteq> a"
    and "m_responseTimeout s = Some (FakeAnswer, deadline)" and "deadline \<le> now"
    and "cl_incoming ops (s_clients s a) fake_answer = Inr (ca, [])"
  shows "\<exists>s' out. sched_event ops now ResponseTimerExpired s = Inr (s', out)
    \<and> (out = [msg] \<or> (\<exists>t. m_sendTimer s' = Some (msg, t)))
    \<and> m_currentClient s' = None
    \<and> (\<forall>tes s'' out'. sched_run ops s' tes s'' out' \<longrightarrow>
         (\<forall>te \<in> set tes. \<forall>c m. snd te \<noteq> Submit c m) \<longrightarrow> s_clients s'' b = s_clients s b)"
proof -
  define s1 where "s1 = s\<lparr>m_lastCommTimes := RBT.insert (unat (m_source fake_answer)) now (m_lastCommTimes s),
    m_responseTimeout := None, s_clients := (s_clients s)(a := ca), m_pending := [(b, msg)]\<rparr>"
  define r where "r = sendMessage now msg (s1\<lparr>m_currentClient := Some b\<rparr>)"
  define s2 where "s2 = (fst r)\<lparr>m_pending := [], m_currentClient := None\<rparr>"
  have "handlePcMessage ops now fake_answer (s\<lparr>m_responseTimeout := None\<rparr>) =
      Inr ((fst r)\<lparr>m_pending := []\<rparr>, snd r)"
    using assms(1,2,6) by (simp add: handlePcMessage_def Let_def after_callback_def
        continueWithNextRequest_def r_def s1_def case_prod_beta)
  then have "sched_event ops now ResponseTimerExpired s = Inr (s2, snd r)"
    using assms(1,4,5) by (simp add: sched_event_def onFakeAnswer_def continueWithNextRequest_def s2_def)
  moreover have "snd r = [msg] \<or> (\<exists>t. m_sendTimer s2 = Some (msg, t))"
    by (auto simp: r_def s2_def sendMessage_def doSendMessage_def Let_def split: option.splits)
  moreover have idle: "m_currentClient s2 = None" "m_pending s2 = []" by (simp_all add: s2_def)
  moreover have "s_clients s2 b = s_clients s b"
    using assms(3) by (simp add: s2_def r_def s1_def)
  ultimately show ?thesis using idle_run [of ops s2] by (metis (no_types, lifting))
qed



end
