(* ===== verification/RequestOrder.thy ===== *)
theory RequestOrder
  imports CommandScheduler
begin

text \<open>
  The scheduler as a queue (\<open>CommandScheduler.cpp\<close>): requests are started in the order in which they
  are submitted, and a telegram keeps its distance from the last communication with its destination.
  The abstract specification is a first-in first-out queue of requests; a started request is on the bus
  or among the delayed ones, which wait for their distance.
\<close>

section \<open>Requests and their start\<close>

text \<open>The requests that an event submits, each with its client.\<close>

definition event_requests :: "'c client_ops \<Rightarrow> nat \<Rightarrow> event \<Rightarrow> 'c scheduler \<Rightarrow> (nat \<times> ems_message) list" where
  "event_requests ops now e s =
     (case e of
        Submit c msg \<Rightarrow> [(c, msg)]
      | _ \<Rightarrow> (case m_currentClient s of
               None \<Rightarrow> []
             | Some c \<Rightarrow> map (Pair c) (event_submits ops now e s)))"

lemma event_requests_submits: "map snd (event_requests ops now e s) = event_submits ops now e s"
  by (auto simp: event_requests_def event_submits_def comp_def Let_def split: event.split option.split)

text \<open>Started but not yet sent.\<close>

definition delayed :: "'c scheduler \<Rightarrow> ems_message multiset" where
  "delayed s = mset (m_postedSends s) + (case m_sendTimer s of None \<Rightarrow> {#} | Some (msg, _) \<Rightarrow> {#msg#})"

lemma backlog_delayed: "backlog s = mset (map snd (m_pending s)) + delayed s"
  by (simp add: backlog_def delayed_def)

lemma continue_takes_first:
  "\<exists>started. m_pending s = started @ m_pending (fst (continueWithNextRequest now s)) \<and> length started \<le> 1"
  by (cases "m_pending s") (auto simp: continueWithNextRequest_def case_prod_beta)

lemma handlePc_order:
  assumes "handlePcMessage ops now msg s = Inr (s', out)"
  shows "\<exists>started. m_pending s @ event_requests ops now (PcMessageReceived msg) s = started @ m_pending s'"
proof -
  define s1 where "s1 = s\<lparr>m_lastCommTimes := RBT.insert (unat (m_source msg)) now (m_lastCommTimes s),
                 m_responseTimeout := None\<rparr>"
  have p: "m_pending s1 = m_pending s" by (simp add: s1_def)
  show ?thesis
  proof (cases "m_currentClient s")
    case None
    then have "(s', out) = continueWithNextRequest now s1" "event_requests ops now (PcMessageReceived msg) s = []"
      using assms by (simp_all add: handlePcMessage_def Let_def s1_def event_requests_def)
    then show ?thesis
      using continue_takes_first [of s1 now] p by (metis append_Nil2 fst_conv)
  next
    case (Some c)
    then obtain r where r: "cl_incoming ops (s_clients s c) msg = Inr r"
      "continueWithNextRequest now (after_callback c r s1) = (s', out)"
      using assms by (auto simp: handlePcMessage_def Let_def s1_def bindR_Inr_iff)
    have "m_pending (after_callback c r s1) = m_pending s @ event_requests ops now (PcMessageReceived msg) s"
      using Some r(1) by (simp add: after_callback_def s1_def event_requests_def event_submits_def)
    then show ?thesis using continue_takes_first [of "after_callback c r s1" now] r(2) by auto
  qed
qed

lemma timer_order:
  assumes "sched_event ops now ResponseTimerExpired s = Inr (s', out)"
  shows "\<exists>started. m_pending s @ event_requests ops now ResponseTimerExpired s = started @ m_pending s'"
  using assms
proof (cases rule: timer_cases)
  case idle
  then show ?thesis by (auto simp: event_requests_def split: option.split)
next
  case unserved
  then show ?thesis
    using continue_takes_first [of "s\<lparr>m_responseTimeout := None\<rparr>" now] by (auto simp: event_requests_def)
next
  case (answered c d s1 out1 out2)
  then show ?thesis
    using handlePc_order [OF answered(2)] continue_takes_first [of s1 now]
    by (auto simp: event_requests_def)
next
  case (timeout c d)
  then show ?thesis
    using continue_takes_first
      [of "after_callback c (cl_timeout ops (s_clients s c)) (s\<lparr>m_responseTimeout := None\<rparr>)" now]
    by (auto simp: event_requests_def after_callback_def)
qed

lemma event_order:
  assumes "sched_event ops now e s = Inr (s', out)"
  shows "\<exists>started. m_pending s @ event_requests ops now e s = started @ m_pending s'"
proof (cases e)
  case (Submit c msg)
  let ?s = "s\<lparr>m_pending := m_pending s @ [(c, msg)]\<rparr>"
  have "s' = (if m_currentClient s = None then fst (continueWithNextRequest now ?s) else ?s)"
    using assms Submit by (auto simp: sched_event_def submit_def Let_def split: if_splits)
  then show ?thesis
    using continue_takes_first [of ?s now] Submit by (auto simp: event_requests_def)
next
  case (PcMessageReceived msg)
  then show ?thesis using assms handlePc_order by (simp add: sched_event_def)
next
  case ResponseTimerExpired
  then show ?thesis using assms timer_order by simp
next
  case SendTimerExpired
  then have "m_pending s' = m_pending s" "event_requests ops now e s = []"
    using assms by (auto simp: sched_event_def doSendMessage_def scheduleResponseTimeout_def Let_def
        event_requests_def event_submits_def split: option.splits if_splits)
  then show ?thesis by simp
next
  case PostedSend
  then have "m_pending s' = m_pending s" "event_requests ops now e s = []"
    using assms by (auto simp: sched_event_def doSendMessage_def scheduleResponseTimeout_def Let_def
        event_requests_def event_submits_def split: list.splits option.splits)
  then show ?thesis by simp
qed

section \<open>First in, first out\<close>

text \<open>A run of any server: the final state, everything it put out, and the requests it was given.\<close>

fun run_all :: "('e \<Rightarrow> 's \<Rightarrow> ('s \<times> 'm list) result) \<Rightarrow> ('e \<Rightarrow> 's \<Rightarrow> 'r list) \<Rightarrow> 'e list \<Rightarrow> 's \<Rightarrow>
    ('s \<times> 'm list \<times> 'r list) result" where
  "run_all step requests [] s = Inr (s, [], [])"
| "run_all step requests (e # es) s =
     bindR (step e s) (\<lambda>(s1, out1).
     bindR (run_all step requests es s1) (\<lambda>(s2, out2, reqs). Inr (s2, out1 @ out2, requests e s @ reqs)))"

text \<open>
  The contract of a queue: every step starts requests from the front and appends the new ones, and
  what was started is put out or held back.
\<close>

locale fifo_server =
  fixes step :: "'e \<Rightarrow> 's \<Rightarrow> ('s \<times> 'm list) result"
    and requests :: "'e \<Rightarrow> 's \<Rightarrow> 'r list"
    and queue :: "'s \<Rightarrow> 'r list"
    and held :: "'s \<Rightarrow> 'm multiset"
    and content :: "'r \<Rightarrow> 'm"
  assumes step_order: "step e s = Inr (s', out) \<Longrightarrow>
    \<exists>started. queue s @ requests e s = started @ queue s' \<and> mset out + held s' = held s + mset (map content started)"
begin

lemma run_order:
  "run_all step requests es s = Inr (s', out, reqs) \<Longrightarrow>
    \<exists>started. queue s @ reqs = started @ queue s' \<and> mset out + held s' = held s + mset (map content started)"
proof (induction es arbitrary: s out reqs)
  case Nil
  then show ?case by auto
next
  case (Cons e es)
  then obtain s1 out1 out2 reqs2 where 1: "step e s = Inr (s1, out1)"
    "run_all step requests es s1 = Inr (s', out2, reqs2)" "out = out1 @ out2" "reqs = requests e s @ reqs2"
    by (auto simp: bindR_Inr_iff)
  obtain st1 where st1: "queue s @ requests e s = st1 @ queue s1" "mset out1 + held s1 = held s + mset (map content st1)"
    using step_order [OF 1(1)] by blast
  obtain st2 where st2: "queue s1 @ reqs2 = st2 @ queue s'" "mset out2 + held s' = held s1 + mset (map content st2)"
    using Cons.IH [OF 1(2)] by blast
  have "queue s @ reqs = (st1 @ st2) @ queue s'"
    using st1(1) st2(1) 1(4) by (metis append.assoc)
  moreover have "mset out + held s' = held s + mset (map content (st1 @ st2))"
    using st1(2) st2(2) 1(3) by (simp add: ac_simps)
  ultimately show ?case by blast
qed

text \<open>A queue that was empty and holds nothing back in the end has put out everything in its order of start.\<close>

lemma run_from_empty:
  "run_all step requests es s = Inr (s', out, reqs) \<Longrightarrow> queue s = [] \<Longrightarrow> held s = {#} \<Longrightarrow>
    \<exists>started. reqs = started @ queue s' \<and> mset out + held s' = mset (map content started)"
  using run_order by fastforce

end

lemma multiset_balance:
  fixes a b c d :: "'a multiset"
  assumes "a + d' + put = b + d + c" and "b + c = st + a"
  shows "put + d' = d + st"
proof -
  have "a + (put + d') = (b + c) + d" using assms(1) by (simp add: ac_simps)
  also have "\<dots> = a + (d + st)" using assms(2) by (simp add: ac_simps)
  finally show ?thesis by simp
qed

interpretation sched: fifo_server "\<lambda>te. sched_event ops (fst te) (snd te)"
  "\<lambda>te. event_requests ops (fst te) (snd te)" m_pending delayed snd for ops
proof unfold_locales
  fix te :: "nat \<times> event" and s s' out
  assume e: "sched_event ops (fst te) (snd te) s = Inr (s', out)"
  obtain started where started: "m_pending s @ event_requests ops (fst te) (snd te) s = started @ m_pending s'"
    using event_order [OF e] by blast
  have "mset (map snd (m_pending s')) + delayed s' + mset out =
      mset (map snd (m_pending s)) + delayed s + mset (map snd (event_requests ops (fst te) (snd te) s))"
    using event_backlog [OF e] by (simp only: backlog_delayed event_requests_submits)
  moreover have "mset (map snd (m_pending s)) + mset (map snd (event_requests ops (fst te) (snd te) s)) =
      mset (map snd started) + mset (map snd (m_pending s'))"
    using arg_cong [OF started, of "\<lambda>xs. mset (map snd xs)"] by simp
  ultimately have "mset out + delayed s' = delayed s + mset (map snd started)"
    by (rule multiset_balance)
  then show "\<exists>started. m_pending s @ event_requests ops (fst te) (snd te) s = started @ m_pending s'
      \<and> mset out + delayed s' = delayed s + mset (map snd started)"
    using started by blast
qed

section \<open>Distance\<close>

lemma sendMessage_spaced:
  assumes "m \<in> set (snd (sendMessage now msg s))"
  shows "m = msg \<and> (\<forall>t. RBT.lookup (m_lastCommTimes s) (unat (m_dest m)) = Some t \<longrightarrow>
    t + MinDistanceBetweenRequests < now)"
  using assms by (auto simp: sendMessage_def doSendMessage_def Let_def split: option.splits if_splits)

lemma continue_spaced:
  assumes "m \<in> set (snd (continueWithNextRequest now s))"
    and "RBT.lookup (m_lastCommTimes s) (unat (m_dest m)) = Some t"
  shows "t + MinDistanceBetweenRequests < now"
proof -
  obtain c msg where "m \<in> set (snd (sendMessage now msg (s\<lparr>m_currentClient := Some c\<rparr>)))"
    using assms(1) by (auto simp: continueWithNextRequest_def case_prod_beta split: list.splits)
  then show ?thesis using sendMessage_spaced assms(2) by fastforce
qed

text \<open>Later communication only makes the distance shorter.\<close>

definition no_earlier :: "'c scheduler \<Rightarrow> 'c scheduler \<Rightarrow> nat \<Rightarrow> bool" where
  "no_earlier s s' now \<longleftrightarrow> (\<forall>d t. RBT.lookup (m_lastCommTimes s) d = Some t \<longrightarrow>
     RBT.lookup (m_lastCommTimes s') d \<in> {Some t, Some now})"

lemma no_earlier_spaced:
  assumes "no_earlier s s' now" and "m \<in> set (snd (continueWithNextRequest now s'))"
    and "RBT.lookup (m_lastCommTimes s) (unat (m_dest m)) = Some t"
  shows "t + MinDistanceBetweenRequests < now"
  using assms continue_spaced [of m now s'] by (auto simp: no_earlier_def)

lemma no_earlier_trans: "no_earlier s s1 now \<Longrightarrow> no_earlier s1 s2 now \<Longrightarrow> no_earlier s s2 now"
  unfolding no_earlier_def by (metis insertE insertI1 insertI2 singletonD)

lemma no_earlier_simps [simp]:
  "no_earlier s s now" "m_lastCommTimes s' = m_lastCommTimes s \<Longrightarrow> no_earlier s s' now"
  "m_lastCommTimes s' = RBT.insert d now (m_lastCommTimes s) \<Longrightarrow> no_earlier s s' now"
  by (simp_all add: no_earlier_def)

lemma continue_no_earlier: "no_earlier s (fst (continueWithNextRequest now s)) now"
proof -
  have "no_earlier s (fst (sendMessage now m (s\<lparr>m_currentClient := c\<rparr>))) now" for m c
    by (auto simp: sendMessage_def doSendMessage_def scheduleResponseTimeout_def Let_def split: option.splits)
  then show ?thesis
    by (auto simp: continueWithNextRequest_def case_prod_beta no_earlier_def split: list.splits)
qed

lemma handlePc_spaced:
  assumes "handlePcMessage ops now msg s = Inr (s', out)"
  shows "no_earlier s s' now \<and> (\<forall>m \<in> set out. \<forall>t. RBT.lookup (m_lastCommTimes s) (unat (m_dest m)) = Some t \<longrightarrow>
    t + MinDistanceBetweenRequests < now)"
proof -
  obtain s1 where s1: "continueWithNextRequest now s1 = (s', out)"
    "m_lastCommTimes s1 = RBT.insert (unat (m_source msg)) now (m_lastCommTimes s)"
    using assms by (auto simp: handlePcMessage_def Let_def bindR_Inr_iff after_callback_def split: option.splits)
  have ne: "no_earlier s s1 now" using s1(2) by simp
  have "no_earlier s1 s' now" using continue_no_earlier [of s1 now] s1(1) by simp
  then show ?thesis
    using no_earlier_trans [OF ne] no_earlier_spaced [OF ne] s1(1) by simp
qed

lemma event_spaced:
  assumes "sched_event ops now e s = Inr (s', out)" and "m \<in> set out"
    and "RBT.lookup (m_lastCommTimes s) (unat (m_dest m)) = Some t"
    and "e \<noteq> PostedSend" and "e \<noteq> SendTimerExpired"
  shows "t + MinDistanceBetweenRequests < now"
proof (cases e)
  case (Submit c msg)
  then have "m \<in> set (snd (continueWithNextRequest now (s\<lparr>m_pending := m_pending s @ [(c, msg)]\<rparr>)))"
    using assms(1,2) by (auto simp: sched_event_def submit_def Let_def split: if_splits)
  then show ?thesis using assms(3) by (rule no_earlier_spaced [of s, rotated]) simp
next
  case (PcMessageReceived msg)
  then show ?thesis using assms handlePc_spaced [of ops now msg s s' out] by (auto simp: sched_event_def)
next
  case ResponseTimerExpired
  have ne: "no_earlier s (s\<lparr>m_responseTimeout := None\<rparr>) now" by simp
  from assms(1) [unfolded ResponseTimerExpired] show ?thesis
  proof (cases rule: timer_cases)
    case unserved
    then show ?thesis using no_earlier_spaced [OF ne] assms(2,3) by simp
  next
    case (answered c d s1 out1 out2)
    note h = handlePc_spaced [OF answered(2)]
    have "no_earlier s s1 now" using h no_earlier_trans [OF ne] by blast
    then show ?thesis using no_earlier_spaced [of s s1 now m] h assms(2,3) answered(3,4) by auto
  next
    case (timeout c d)
    have "no_earlier s (after_callback c (cl_timeout ops (s_clients s c)) (s\<lparr>m_responseTimeout := None\<rparr>)) now"
      by (simp add: after_callback_def)
    then show ?thesis using no_earlier_spaced [of s _ now m] timeout(2) assms(2,3) by auto
  qed (use assms(2) in simp)
qed (use assms(4,5) in auto)

section \<open>Properties\<close>

text \<open>
  C13: the scheduler is a first-in first-out queue: whatever telegrams arrive and timers expire,
  the requests that were started are the first ones submitted, in their order, all others still wait,
  and the telegrams of the started ones are on the bus, each once, or delayed.
\<close>

theorem requests_started_in_order:
  assumes "run_all (\<lambda>te. sched_event ops (fst te) (snd te)) (\<lambda>te. event_requests ops (fst te) (snd te)) tes
     (scheduler_init clients) = Inr (s, out, reqs)"
  shows "\<exists>started. reqs = started @ m_pending s
    \<and> mset out + mset (m_postedSends s) + (case m_sendTimer s of None \<Rightarrow> {#} | Some (m, _) \<Rightarrow> {#m#}) =
        mset (map snd started)"
  using sched.run_from_empty [OF assms] by (simp add: scheduler_init_def delayed_def add.assoc)

lemma requests_started_in_order_witness:
  "\<exists>s out reqs. run_all (\<lambda>te. sched_event quiet_ops (fst te) (snd te)) (\<lambda>te. event_requests quiet_ops (fst te) (snd te))
      [(0, Submit 3 fake_answer), (5, Submit 4 fake_answer)] (scheduler_init (\<lambda>_. ())) = Inr (s, out, reqs)
    \<and> (\<exists>started. reqs = started @ m_pending s \<and> mset out + mset (m_postedSends s)
          + (case m_sendTimer s of None \<Rightarrow> {#} | Some (m, _) \<Rightarrow> {#m#}) = mset (map snd started))"
proof -
  obtain s out reqs where r: "run_all (\<lambda>te. sched_event quiet_ops (fst te) (snd te)) (\<lambda>te. event_requests quiet_ops (fst te) (snd te))
      [(0, Submit 3 fake_answer), (5, Submit 4 fake_answer)] (scheduler_init (\<lambda>_. ())) = Inr (s, out, reqs)"
    by (simp add: sched_event_def case_prod_beta)
  show ?thesis by (rule exI, rule exI, rule exI, rule conjI, rule r, rule requests_started_in_order [OF r])
qed

text \<open>
  the scheduler never sends a telegram within 100 milliseconds of the last communication with
  its destination, unless the handler of an aborted delay sends it: a telegram sent directly keeps
  the distance, and so does a delayed one whose timer was set for that communication.
\<close>

theorem request_spacing:
  assumes "sched_event ops now e s = Inr (s', out)" and "m \<in> set out" and "e \<noteq> PostedSend"
    and "RBT.lookup (m_lastCommTimes s) (unat (m_dest m)) = Some t"
    and "e = SendTimerExpired \<Longrightarrow> m_sendTimer s = Some (m, t + MinDistanceBetweenRequests)"
  shows "t + MinDistanceBetweenRequests \<le> now"
proof (cases "e = SendTimerExpired")
  case True
  then show ?thesis using assms(1,2,5) by (auto simp: sched_event_def split: if_splits)
qed (use event_spaced [OF assms(1,2,4,3)] in auto)

lemma request_spacing_witness:
  "\<exists>s' out. sched_event quiet_ops 350 SendTimerExpired
      ((scheduler_init (\<lambda>_. ()))\<lparr>m_currentClient := Some 1, m_sendTimer := Some (fake_answer, 350),
         m_lastCommTimes := RBT.insert (unat (m_dest fake_answer)) 250 RBT.empty\<rparr>) = Inr (s', out)
    \<and> out = [fake_answer] \<and> 250 + MinDistanceBetweenRequests \<le> 350"
proof -
  let ?s = "(scheduler_init (\<lambda>_. ()))\<lparr>m_currentClient := Some 1, m_sendTimer := Some (fake_answer, 350),
         m_lastCommTimes := RBT.insert (unat (m_dest fake_answer)) 250 RBT.empty\<rparr>"
  obtain s' where "sched_event quiet_ops 350 SendTimerExpired ?s = Inr (s', [fake_answer])"
    by (simp add: sched_event_def doSendMessage_def Let_def)
  then show ?thesis
    using request_spacing [of quiet_ops 350 SendTimerExpired ?s s' "[fake_answer]" fake_answer 250]
    by (simp add: MinDistanceBetweenRequests_def)
qed

end
