(* ===== verification/CommandHandler.thy ===== *)
theory CommandHandler
  imports CommandScheduler CommandSafety
begin

text \<open>
  The TCP command port (\<open>CommandHandler.h\<close>, \<open>CommandHandler.cpp\<close>): connections that read request
  lines, run them through a parser of their own and write the answers; the handler that keeps the
  connections is in \<open>CommandPort\<close>.  A connection is a client of the scheduler (\<open>connection_ops\<close>).  Sockets are
  replaced by the lines written (\<open>c_written\<close>, without the final newline that \<open>respond\<close> adds).
\<close>

section \<open>Connections\<close>

record connection =
  c_request :: string
  c_parser :: parser
  c_written :: "string list"
  c_posted :: "test_wait list"

definition connection_init :: "parser \<Rightarrow> connection" where
  "connection_init memory = \<lparr>c_request = [], c_parser = parser_init memory, c_written = [], c_posted = []\<rparr>"

definition sends_of :: "effect list \<Rightarrow> ems_message list" where
  "sends_of es = concat (map (\<lambda>e. case e of Send m \<Rightarrow> [m] | _ \<Rightarrow> []) es)"

definition posted_of :: "effect list \<Rightarrow> test_wait list" where
  "posted_of es = concat (map (\<lambda>e. case e of Aborted w \<Rightarrow> [w] | _ \<Rightarrow> []) es)"

definition respond :: "string \<Rightarrow> connection \<Rightarrow> connection" where
  "respond response c = c\<lparr>c_written := c_written c @ [response]\<rparr>"

text \<open>The effects of the parser: lines are written, aborted waits are posted.\<close>

definition absorb :: "parser \<Rightarrow> effect list \<Rightarrow> connection \<Rightarrow> connection" where
  "absorb p es c = c\<lparr>c_parser := p, c_written := c_written c @ lines_of es,
     c_posted := c_posted c @ posted_of es\<rparr>"

fun answer :: "command_result \<Rightarrow> connection \<Rightarrow> connection" where
  "answer Ok c = c"
| "answer Busy c = respond ''ERRBUSY'' c"
| "answer InvalidCmd c = respond ''ERRCMD'' c"
| "answer InvalidArgs c = respond ''ERRARGS'' c"

text \<open>
  A request line has arrived.  The whole buffer is one stream, so the parser may read beyond the
  line; what it left is then dropped up to the next newline.
\<close>

definition handleRequest ::
    "environment \<Rightarrow> value_cache \<Rightarrow> connection \<Rightarrow> (connection \<times> ems_message list) result" where
  "handleRequest env cache c =
     bindR (if 2 < length (c_request c)
            then parse env (Some cache) (stream_of (c_request c)) (c_parser c)
            else reply InvalidCmd (stream_of (c_request c)) (c_parser c, []))
       (\<lambda>(result, is, p, es).
          Inr ((answer result (absorb p es c))\<lparr>c_request := is_rest (drop_line (clear_bits is))\<rparr>,
               sends_of es))"

definition connection_onIncomingMessage ::
    "(nat \<Rightarrow> u8) \<Rightarrow> connection \<Rightarrow> ems_message \<Rightarrow> (connection \<times> ems_message list) result" where
  "connection_onIncomingMessage junk c m =
     bindR (onIncomingMessage junk (c_parser c) m) (\<lambda>(result, p, es).
       let c' = absorb p es c
       in Inr (case result of Yes \<Rightarrow> respond ''OK'' c' | No \<Rightarrow> respond ''FAIL'' c' | Indeterminate \<Rightarrow> c',
               sends_of es))"

definition connection_onTimeout :: "connection \<Rightarrow> connection \<times> ems_message list" where
  "connection_onTimeout c =
     (case onTimeout (c_parser c) of (gave_up, p, es) \<Rightarrow>
        (let c' = absorb p es c
         in (if gave_up then respond ''ERRTIMEOUT'' c' else c', sends_of es)))"

definition connection_ops :: "(nat \<Rightarrow> u8) \<Rightarrow> connection client_ops" where
  "connection_ops junk =
     \<lparr>cl_incoming = connection_onIncomingMessage junk, cl_timeout = connection_onTimeout\<rparr>"

text \<open>The test mode timer of a connection: it expires (at a time the event loop knows), or a posted handler of an aborted wait runs.\<close>

definition connection_testTimer :: "connection \<Rightarrow> connection \<times> ems_message list" where
  "connection_testTimer c =
     (case m_testMode (c_parser c) of
        None \<Rightarrow> (c, [])
      | Some (w, ms) \<Rightarrow>
          (case onTestWait w False ((c_parser c)\<lparr>m_testMode := None\<rparr>) of
             (p, es) \<Rightarrow> (absorb p es c, sends_of es)))"

definition connection_postedWait :: "connection \<Rightarrow> connection \<times> ems_message list" where
  "connection_postedWait c =
     (case c_posted c of
        [] \<Rightarrow> (c, [])
      | w # ws \<Rightarrow>
          (case onTestWait w True (c_parser c) of
             (p, es) \<Rightarrow> (absorb p es (c\<lparr>c_posted := ws\<rparr>), sends_of es)))"

section \<open>Reading ahead\<close>

lemma read_string_eof:
  assumes "is_eof s \<longrightarrow> is_rest s = []" and "\<not> is_fail s"
  shows "(is_eof (snd (read_string s)) \<longrightarrow> is_rest (snd (read_string s)) = []) \<and>
     (is_fail (snd (read_string s)) \<longrightarrow> is_rest (snd (read_string s)) = [])"
  using assms by (simp add: read_string_def sentry_def Let_def)

lemma read_tokens_all:
  "is_eof s \<longrightarrow> is_rest s = [] \<Longrightarrow> is_fail s \<longrightarrow> is_rest s = [] \<Longrightarrow> is_rest (snd (read_tokens s)) = []"
proof (induction s rule: read_tokens.induct)
  case (1 s)
  show ?case
  proof (cases "is_fail s")
    case True
    then show ?thesis using "1.prems" by (subst read_tokens.simps) simp
  next
    case False
    obtain t s' where r: "read_string s = (t, s')" by (cases "read_string s")
    have "is_rest (snd (read_tokens s')) = []"
      using "1.IH" [OF False r [symmetric]] read_string_eof [OF "1.prems"(1) False] r by simp
    then show ?thesis using False r by (subst read_tokens.simps) (simp add: case_prod_beta)
  qed
qed

section \<open>Properties\<close>

text \<open>
  while a request is active every further line is answered with ERRBUSY and dropped, and
  neither the parser nor the bus notices.
\<close>

theorem busy_connection:
  assumes "m_activeRequest (c_parser c) \<noteq> None" and "2 < length (c_request c)"
  shows "handleRequest env cache c =
     Inr (c\<lparr>c_written := c_written c @ [''ERRBUSY''],
            c_request := drop 1 (dropWhile (\<lambda>x. x \<noteq> CHR ''\<newline>'') (c_request c))\<rparr>, [])"
  using assms
  by (simp add: handleRequest_def parse_def reply_def absorb_def respond_def lines_of_def sends_of_def
      posted_of_def drop_line_def clear_bits_def stream_of_def)

lemma busy_connection_witness:
  "\<exists>c'. handleRequest example_env RBT.empty
     ((connection_init idle_parser)\<lparr>c_parser := reading_parser, c_request := ''rc help\<newline>''\<rparr>) = Inr (c', [])
     \<and> c_request c' = [] \<and> c_written c' = [''ERRBUSY'']"
  using busy_connection [of "(connection_init idle_parser)\<lparr>c_parser := reading_parser, c_request := ''rc help\<newline>''\<rparr>"]
  by (simp add: connection_init_def)

text \<open>
  a request that is refused costs its client exactly one error line; nothing is sent to the
  bus and the parser is as before.
\<close>

theorem refused_request:
  assumes "parser_inv (c_parser c)" and "handleRequest env cache c = Inr (c', ms)"
    and "2 < length (c_request c)"
    and "parse env (Some cache) (stream_of (c_request c)) (c_parser c) = Inr (r, s, p, es)" and "r \<noteq> Ok"
  shows "ms = [] \<and> c_parser c' = c_parser c \<and>
     c_written c' = c_written c @ [if r = Busy then ''ERRBUSY'' else if r = InvalidCmd then ''ERRCMD'' else ''ERRARGS'']"
proof -
  have "p = c_parser c" "es = []"
    using parse_safe(2) [OF assms(1), of env "Some cache" "stream_of (c_request c)"] assms(4,5)
    by (simp_all add: safe_outcome_def)
  then show ?thesis
    using assms(2-5)
    by (cases r) (auto simp: handleRequest_def absorb_def respond_def lines_of_def sends_of_def)
qed

lemma refused_request_witness:
  "\<exists>c'. handleRequest example_env RBT.empty ((connection_init idle_parser)\<lparr>c_request := ''boiler off''\<rparr>) = Inr (c', [])
     \<and> c_written c' = [''ERRCMD'']"
proof -
  let ?c = "(connection_init idle_parser)\<lparr>c_request := ''boiler off''\<rparr>"
  have p: "c_parser ?c = idle_parser" "c_request ?c = ''boiler off''" "c_written ?c = []"
    by (simp_all add: connection_init_def idle_parser_def parser_init_def)
  have e: "parse example_env (Some RBT.empty) (stream_of (c_request ?c)) (c_parser ?c) =
      Inr (InvalidCmd, snd (read_string (stream_of ''boiler off'')), idle_parser, [])"
    unfolding p parse_def using unknown_words by (simp add: case_prod_beta reply_def)
  then obtain c' ms where h: "handleRequest example_env RBT.empty ?c = Inr (c', ms)"
    by (simp add: handleRequest_def p)
  show ?thesis
    using refused_request [OF _ h _ e] h p by (simp del: connection.simps)
qed

text \<open>
  a listing of the cache swallows the requests behind it: all complete lines that a client has
  sent ahead are read as selectors, so they are never executed.
\<close>

theorem cache_fetch_swallows_pipeline:
  assumes "m_activeRequest (c_parser c) = None" and "c_request c = ''cache fetch '' @ rest"
    and "handleRequest env cache c = Inr (c', ms)"
  shows "c_request c' = [] \<and> ms = [] \<and> c_parser c' = c_parser c"
proof -
  have w1: "read_string (stream_of (''cache fetch '' @ rest)) = (''cache'', stream_of ('' fetch '' @ rest))"
    using read_string_token [of "stream_of (''cache fetch '' @ rest)" "[]" "''cache''" "'' fetch '' @ rest"]
    by (simp add: stream_of_def ends_token_def is_space_def)
  have w2: "read_string (stream_of ('' fetch '' @ rest)) = (''fetch'', stream_of ('' '' @ rest))"
    using read_string_token [of "stream_of ('' fetch '' @ rest)" "'' ''" "''fetch''" "'' '' @ rest"]
    by (simp add: stream_of_def ends_token_def is_space_def)
  have w3: "is_rest (snd (read_tokens (stream_of ('' '' @ rest)))) = []"
    by (rule read_tokens_all) (simp_all add: stream_of_def)
  obtain r s p es where P: "parse env (Some cache) (stream_of (c_request c)) (c_parser c) = Inr (r, s, p, es)"
    and c': "c' = (answer r (absorb p es c))\<lparr>c_request := is_rest (drop_line (clear_bits s))\<rparr>" "ms = sends_of es"
    using assms(2,3) by (auto simp: handleRequest_def bindR_Inr_iff)
  have "r = Ok" "is_rest s = []" "p = c_parser c" "\<exists>l. es = [Output l, Output ''OK'']"
    using P assms(1) w3 unfolding parse_def assms(2) w1 prod.case handleCacheCommand_def w2
    by (auto simp: case_prod_beta bindR_Inr_iff reply_def and_then_def emit_def)
  then show ?thesis
    using c' by (auto simp: drop_line_def clear_bits_def absorb_def sends_of_def)
qed

lemma cache_fetch_swallows_pipeline_witness:
  "\<exists>c' ms. handleRequest example_env RBT.empty
     ((connection_init idle_parser)\<lparr>c_request := ''cache fetch '' @ ''ww\<newline>ww mode off\<newline>''\<rparr>) = Inr (c', ms) \<and> c_request c' = []"
proof -
  let ?c = "(connection_init idle_parser)\<lparr>c_request := ''cache fetch '' @ ''ww\<newline>ww mode off\<newline>''\<rparr>"
  have p: "m_activeRequest (c_parser ?c) = None"
    by (simp add: connection_init_def parser_init_def)
  have "\<exists>r. parse example_env (Some RBT.empty) (stream_of (c_request ?c)) (c_parser ?c) = Inr r"
  proof (rule ccontr)
    assume "\<not> ?thesis"
    then obtain f where f: "parse example_env (Some RBT.empty) (stream_of (c_request ?c)) (c_parser ?c) = Inl f"
      by (cases "parse example_env (Some RBT.empty) (stream_of (c_request ?c)) (c_parser ?c)") auto
    have w: "read_string (stream_of (c_request ?c)) = (''cache'', stream_of '' fetch ww\<newline>ww mode off\<newline>'')"
      "read_string (stream_of '' fetch ww\<newline>ww mode off\<newline>'') = (''fetch'', stream_of '' ww\<newline>ww mode off\<newline>'')"
      using read_string_token [of "stream_of (c_request ?c)" "[]" "''cache''" "'' fetch ww\<newline>ww mode off\<newline>''"]
        read_string_token [of "stream_of '' fetch ww\<newline>ww mode off\<newline>''" "'' ''" "''fetch''" "'' ww\<newline>ww mode off\<newline>''"]
      by (simp_all add: stream_of_def ends_token_def is_space_def connection_init_def)
    show False
      using f p listing_total [OF cache_inv_empty] unfolding parse_def w prod.case handleCacheCommand_def
      by (auto simp: case_prod_beta bindR_Inl_iff reply_def) (metis sum.distinct(1))
  qed
  then obtain c' ms where h: "handleRequest example_env RBT.empty ?c = Inr (c', ms)"
    by (auto simp: handleRequest_def connection_init_def case_prod_beta)
  then show ?thesis
    using cache_fetch_swallows_pipeline [OF p _ h] by (auto simp: connection_init_def)
qed

text \<open>
  the queue error of the scheduler seen from the command port: when the write of one
  connection is followed by exactly one waiting request of another, the second connection gets no
  answer and no timeout and answers ERRBUSY to all its further requests, for as long as nothing
  new is submitted.
\<close>

theorem second_connection_stays_busy:
  assumes "m_currentClient s = Some a" and "m_pending s = [(b, msg)]" and "b \<noteq> a"
    and "m_responseTimeout s = Some (FakeAnswer, deadline)" and "deadline \<le> now"
    and "m_activeRequest (c_parser (s_clients s b)) \<noteq> None"
  shows "\<exists>s' out. sched_event (connection_ops junk) now ResponseTimerExpired s = Inr (s', out)
    \<and> (\<forall>tes s'' out'. sched_run (connection_ops junk) s' tes s'' out' \<longrightarrow>
         (\<forall>te \<in> set tes. \<forall>c m. snd te \<noteq> Submit c m) \<longrightarrow>
         (\<forall>line. 2 < length line \<longrightarrow>
            (\<exists>c'. handleRequest env cache ((s_clients s'' b)\<lparr>c_request := line\<rparr>) = Inr (c', [])
               \<and> c_written c' = c_written (s_clients s b) @ [''ERRBUSY''])))"
proof -
  have "\<exists>ca. cl_incoming (connection_ops junk) (s_clients s a) fake_answer = Inr (ca, [])"
    by (simp add: connection_ops_def connection_onIncomingMessage_def onIncomingMessage_def
        fake_answer_def getType_ctor sends_of_def Let_def)
  then obtain ca where "cl_incoming (connection_ops junk) (s_clients s a) fake_answer = Inr (ca, [])" ..
  from orphan [OF assms(1-5) this] obtain s' out where
    e: "sched_event (connection_ops junk) now ResponseTimerExpired s = Inr (s', out)"
    and r: "\<And>tes s'' out'. sched_run (connection_ops junk) s' tes s'' out' \<Longrightarrow>
         \<forall>te \<in> set tes. \<forall>c m. snd te \<noteq> Submit c m \<Longrightarrow> s_clients s'' b = s_clients s b"
    by blast
  show ?thesis
    using e r assms(6)
    by (intro exI [of _ s'] exI [of _ out])
      (simp add: handleRequest_def parse_def reply_def absorb_def respond_def lines_of_def sends_of_def
        posted_of_def)
qed

definition two_connections :: "connection scheduler" where
  "two_connections = (scheduler_init (\<lambda>_. (connection_init idle_parser)\<lparr>c_parser := reading_parser\<rparr>))
     \<lparr>m_currentClient := Some 1, m_pending := [(2, fake_answer)], m_responseTimeout := Some (FakeAnswer, 200)\<rparr>"

lemma second_connection_stays_busy_witness:
  "\<exists>s' out. sched_event (connection_ops (\<lambda>_. 0)) 200 ResponseTimerExpired two_connections = Inr (s', out)
     \<and> (\<exists>c'. handleRequest example_env RBT.empty ((s_clients s' 2)\<lparr>c_request := ''rc help''\<rparr>) = Inr (c', [])
          \<and> c_written c' = [''ERRBUSY''])"
proof -
  have a: "m_activeRequest (c_parser (s_clients two_connections 2)) \<noteq> None" "c_written (s_clients two_connections 2) = []"
    using reading_parser_simps(1) by (simp_all add: two_connections_def scheduler_init_def connection_init_def del: not_None_eq)
  have "\<exists>s' out. sched_event (connection_ops (\<lambda>_. 0)) 200 ResponseTimerExpired two_connections = Inr (s', out)
    \<and> (\<forall>tes s'' out'. sched_run (connection_ops (\<lambda>_. 0)) s' tes s'' out' \<longrightarrow>
         (\<forall>te \<in> set tes. \<forall>c m. snd te \<noteq> Submit c m) \<longrightarrow>
         (\<forall>line. 2 < length line \<longrightarrow>
            (\<exists>c'. handleRequest example_env RBT.empty ((s_clients s'' 2)\<lparr>c_request := line\<rparr>) = Inr (c', [])
               \<and> c_written c' = c_written (s_clients two_connections 2) @ [''ERRBUSY''])))"
    using a(1) by (intro second_connection_stays_busy [of _ 1 2 fake_answer 200 200])
      (simp_all add: two_connections_def scheduler_init_def)
  then obtain s' out where e: "sched_event (connection_ops (\<lambda>_. 0)) 200 ResponseTimerExpired two_connections = Inr (s', out)"
    and r: "\<And>tes s'' out' line. sched_run (connection_ops (\<lambda>_. 0)) s' tes s'' out' \<Longrightarrow>
         \<forall>te \<in> set tes. \<forall>c m. snd te \<noteq> Submit c m \<Longrightarrow> 2 < length line \<Longrightarrow>
         \<exists>c'. handleRequest example_env RBT.empty ((s_clients s'' 2)\<lparr>c_request := line\<rparr>) = Inr (c', [])
            \<and> c_written c' = c_written (s_clients two_connections 2) @ [''ERRBUSY'']"
    by blast
  show ?thesis
    using r [OF sched_start, of "''rc help''"] e a(2) by simp
qed

end
