(* ===== verification/CommandPort.thy ===== *)
theory CommandPort
  imports CommandHandler
begin

text \<open>
  The command port as it runs (\<open>CommandHandler.h\<close>, \<open>CommandHandler.cpp\<close>): the acceptor, the connections
  with the operations that are under way on their sockets, and the scheduler they share.  A connection
  object is kept alive by the set of the handler and by the \<open>shared_ptr\<close> bound into each pending
  operation; the scheduler reaches it by a plain pointer (\<open>CommandClient\<close>), and so does the test mode
  timer of its parser.  Calling a handler through such a pointer after the object is gone is the fault
  \<open>UseAfterFree\<close>.
\<close>

section \<open>The set of connections\<close>

datatype io_outcome = Success | OperationAborted | Failure

text \<open>
  \<open>ch_reading\<close> and \<open>ch_writing\<close>: the operations whose handlers have not run yet, one entry for each;
  \<open>ch_accepting\<close>: the connection made for the pending accept.  Connections are numbered in the order in
  which they are made.
\<close>

record command_handler =
  ch_connections :: "nat list"
  ch_reading :: "nat list"
  ch_writing :: "nat list"
  ch_accepting :: "nat option"
  ch_next :: nat

definition startAccepting :: "command_handler \<Rightarrow> command_handler" where
  "startAccepting h = h\<lparr>ch_accepting := Some (ch_next h), ch_next := ch_next h + 1\<rparr>"

definition command_handler_init :: command_handler where
  "command_handler_init = startAccepting
     \<lparr>ch_connections = [], ch_reading = [], ch_writing = [], ch_accepting = None, ch_next = 0\<rparr>"

definition startConnection :: "nat \<Rightarrow> command_handler \<Rightarrow> command_handler" where
  "startConnection c h =
     h\<lparr>ch_connections := List.insert c (ch_connections h), ch_reading := ch_reading h @ [c]\<rparr>"

text \<open>Closing the socket makes the operations under way fail; their handlers still run.\<close>

definition stopConnection :: "nat \<Rightarrow> command_handler \<Rightarrow> command_handler" where
  "stopConnection c h = h\<lparr>ch_connections := removeAll c (ch_connections h)\<rparr>"

text \<open>After an accept error no further accept is started.\<close>

definition handleAccept :: "io_outcome \<Rightarrow> command_handler \<Rightarrow> command_handler" where
  "handleAccept outcome h =
     (case ch_accepting h of
        None \<Rightarrow> h
      | Some c \<Rightarrow>
          let h' = h\<lparr>ch_accepting := None\<rparr>
          in if outcome = Success then startAccepting (startConnection c h') else h')"

text \<open>A read that ends without a line, and the end of a write.\<close>

definition readFailed :: "io_outcome \<Rightarrow> nat \<Rightarrow> command_handler \<Rightarrow> command_handler" where
  "readFailed outcome c h =
     (let h' = h\<lparr>ch_reading := remove1 c (ch_reading h)\<rparr>
      in if outcome = OperationAborted then h' else stopConnection c h')"

definition handleWrite :: "io_outcome \<Rightarrow> nat \<Rightarrow> command_handler \<Rightarrow> command_handler" where
  "handleWrite outcome c h =
     (let h' = h\<lparr>ch_writing := remove1 c (ch_writing h)\<rparr>
      in if outcome = Failure then stopConnection c h' else h')"

definition destroyHandler :: "command_handler \<Rightarrow> command_handler" where
  "destroyHandler h = h\<lparr>ch_accepting := None, ch_connections := []\<rparr>"

definition alive :: "command_handler \<Rightarrow> nat \<Rightarrow> bool" where
  "alive h c \<longleftrightarrow> c \<in> set (ch_connections h) \<or> c \<in> set (ch_reading h) \<or> c \<in> set (ch_writing h)
     \<or> ch_accepting h = Some c"

section \<open>The port\<close>

record port =
  po_handler :: command_handler
  po_sched :: "connection scheduler"

definition port_init :: "(nat \<Rightarrow> parser) \<Rightarrow> port" where
  "port_init memory = \<lparr>po_handler = command_handler_init,
     po_sched = scheduler_init (\<lambda>c. connection_init (memory c))\<rparr>"

definition client :: "port \<Rightarrow> nat \<Rightarrow> connection" where
  "client po c = s_clients (po_sched po) c"

text \<open>What the surroundings bring to an event: the time, what the parser asks its surroundings, the cache.\<close>

record port_env =
  pe_now :: nat
  pe_env :: environment
  pe_cache :: value_cache
  pe_junk :: "nat \<Rightarrow> u8"

fun submit_all :: "nat \<Rightarrow> nat \<Rightarrow> ems_message list \<Rightarrow> connection scheduler \<Rightarrow>
    connection scheduler \<times> ems_message list" where
  "submit_all now c [] s = (s, [])"
| "submit_all now c (m # ms) s =
     (case submit now c m s of (s1, out1) \<Rightarrow>
        (case submit_all now c ms s1 of (s2, out2) \<Rightarrow> (s2, out1 @ out2)))"

text \<open>Each line that a connection writes is an operation of its own.\<close>

definition started_writes :: "nat \<Rightarrow> connection \<Rightarrow> connection \<Rightarrow> command_handler \<Rightarrow> command_handler" where
  "started_writes c conn conn' h =
     h\<lparr>ch_writing := ch_writing h @ replicate (length (c_written conn') - length (c_written conn)) c\<rparr>"

text \<open>A handler of connection \<open>c\<close> has run: its new state and the telegrams it submits.\<close>

definition connection_ran ::
    "nat \<Rightarrow> nat \<Rightarrow> connection \<times> ems_message list \<Rightarrow> port \<Rightarrow> port \<times> ems_message list" where
  "connection_ran now c r po =
     (case submit_all now c (snd r) ((po_sched po)\<lparr>s_clients := (s_clients (po_sched po))(c := fst r)\<rparr>) of
        (s', out) \<Rightarrow>
          (\<lparr>po_handler = started_writes c (client po c) (fst r) (po_handler po), po_sched = s'\<rparr>, out))"

text \<open>The client whose callback an event of the scheduler runs.\<close>

definition callback_of :: "nat \<Rightarrow> event \<Rightarrow> 'c scheduler \<Rightarrow> nat option" where
  "callback_of now e s =
     (case e of
        PcMessageReceived m \<Rightarrow> m_currentClient s
      | ResponseTimerExpired \<Rightarrow>
          (case m_responseTimeout s of
             Some (w, deadline) \<Rightarrow> if deadline \<le> now then m_currentClient s else None
           | None \<Rightarrow> None)
      | _ \<Rightarrow> None)"

definition bus_event :: "port_env \<Rightarrow> event \<Rightarrow> port \<Rightarrow> (port \<times> ems_message list) result" where
  "bus_event pe e po =
     (let run = bindR (sched_event (connection_ops (pe_junk pe)) (pe_now pe) e (po_sched po))
      in case callback_of (pe_now pe) e (po_sched po) of
           None \<Rightarrow> run (\<lambda>(s', out). Inr (po\<lparr>po_sched := s'\<rparr>, out))
         | Some a \<Rightarrow>
             if \<not> alive (po_handler po) a then Inl UseAfterFree
             else run (\<lambda>(s', out).
               Inr (\<lparr>po_handler = started_writes a (client po a) (s_clients s' a) (po_handler po),
                     po_sched = s'\<rparr>, out)))"

text \<open>
  The test mode timer.  With the connection its timer is gone, which aborts a wait: the handler of the
  first wait does not look at the error and calls the parser, the handler of the others returns.
\<close>

definition test_timer :: "port_env \<Rightarrow> nat \<Rightarrow> port \<Rightarrow> (port \<times> ems_message list) result" where
  "test_timer pe c po =
     (if alive (po_handler po) c
      then Inr (connection_ran (pe_now pe) c (connection_testTimer (client po c)) po)
      else (case m_testMode (c_parser (client po c)) of
              Some (FirstWait, _) \<Rightarrow> Inl UseAfterFree
            | _ \<Rightarrow> Inr (po, [])))"

definition posted_wait :: "port_env \<Rightarrow> nat \<Rightarrow> port \<Rightarrow> (port \<times> ems_message list) result" where
  "posted_wait pe c po =
     (if alive (po_handler po) c
      then Inr (connection_ran (pe_now pe) c (connection_postedWait (client po c)) po)
      else (case c_posted (client po c) of
              FirstWait # _ \<Rightarrow> Inl UseAfterFree
            | RepeatWait # ws \<Rightarrow>
                Inr (po\<lparr>po_sched := (po_sched po)\<lparr>s_clients := (s_clients (po_sched po))
                       (c := (client po c)\<lparr>c_posted := ws\<rparr>)\<rparr>\<rparr>, [])
            | [] \<Rightarrow> Inr (po, [])))"

text \<open>A read that ends with a line: \<open>data\<close> is what was received since the last one.\<close>

definition request_read :: "port_env \<Rightarrow> nat \<Rightarrow> string \<Rightarrow> port \<Rightarrow> (port \<times> ems_message list) result" where
  "request_read pe c data po =
     (if c \<notin> set (ch_reading (po_handler po)) then Inr (po, [])
      else bindR (handleRequest (pe_env pe) (pe_cache pe)
                    ((client po c)\<lparr>c_request := c_request (client po c) @ data\<rparr>))
             (\<lambda>r. Inr (connection_ran (pe_now pe) c r po)))"

datatype port_event =
    AcceptDone io_outcome
  | RequestRead nat string
  | ReadFailed nat io_outcome
  | WriteDone nat io_outcome
  | TestTimer nat
  | PostedWait nat
  | Bus event

fun port_step :: "port_env \<Rightarrow> port_event \<Rightarrow> port \<Rightarrow> (port \<times> ems_message list) result" where
  "port_step pe (AcceptDone o1) po = Inr (po\<lparr>po_handler := handleAccept o1 (po_handler po)\<rparr>, [])"
| "port_step pe (RequestRead c data) po = request_read pe c data po"
| "port_step pe (ReadFailed c o1) po = Inr (po\<lparr>po_handler := readFailed o1 c (po_handler po)\<rparr>, [])"
| "port_step pe (WriteDone c o1) po = Inr (po\<lparr>po_handler := handleWrite o1 c (po_handler po)\<rparr>, [])"
| "port_step pe (TestTimer c) po = test_timer pe c po"
| "port_step pe (PostedWait c) po = posted_wait pe c po"
| "port_step pe (Bus e) po = bus_event pe e po"

fun port_run :: "(port_env \<times> port_event) list \<Rightarrow> port \<Rightarrow> (port \<times> ems_message list) result" where
  "port_run [] po = Inr (po, [])"
| "port_run ((pe, e) # evs) po =
     bindR (port_step pe e po) (\<lambda>(po1, out1).
     bindR (port_run evs po1) (\<lambda>(po2, out2). Inr (po2, out1 @ out2)))"

lemma port_run_append:
  "port_run (evs @ evs') po = bindR (port_run evs po) (\<lambda>(po1, out1).
     bindR (port_run evs' po1) (\<lambda>(po2, out2). Inr (po2, out1 @ out2)))"
proof (induction evs arbitrary: po)
  case Nil
  then show ?case by (simp add: bindR_def split: sum.split)
next
  case (Cons x evs)
  obtain pe e where x: "x = (pe, e)" by (cases x)
  show ?case
  proof (cases "port_step pe e po")
    case (Inr r)
    then show ?thesis
      using x Cons.IH [of "fst r"] by (cases "port_run evs (fst r)") (auto simp: case_prod_beta bindR_def split: sum.split)
  qed (simp add: x)
qed

section \<open>The clients of the scheduler\<close>

definition clients_of :: "'c scheduler \<Rightarrow> nat set" where
  "clients_of s = set_option (m_currentClient s) \<union> fst ` set (m_pending s)"

lemma sendMessage_clients:
  "m_currentClient (fst (sendMessage now m s)) = m_currentClient s"
  "m_pending (fst (sendMessage now m s)) = m_pending s" "s_clients (fst (sendMessage now m s)) = s_clients s"
  by (simp_all add: sendMessage_def doSendMessage_def scheduleResponseTimeout_def Let_def split: option.splits)

lemma doSendMessage_clients:
  "clients_of (fst (doSendMessage now m s)) = clients_of s" "s_clients (fst (doSendMessage now m s)) = s_clients s"
  by (simp_all add: clients_of_def doSendMessage_def scheduleResponseTimeout_def Let_def)

lemma timer_clients [simp]:
  "clients_of (s\<lparr>m_sendTimer := t\<rparr>) = clients_of s" "clients_of (s\<lparr>m_postedSends := ps\<rparr>) = clients_of s"
  by (simp_all add: clients_of_def)

lemma continue_clients:
  "clients_of (fst (continueWithNextRequest now s)) \<subseteq> clients_of s"
  "s_clients (fst (continueWithNextRequest now s)) = s_clients s"
  by (auto simp: continueWithNextRequest_def clients_of_def case_prod_beta sendMessage_clients split: list.splits)

lemma submit_clients:
  "clients_of (fst (submit now c m s)) \<subseteq> insert c (clients_of s)"
  "s_clients (fst (submit now c m s)) = s_clients s"
  using continue_clients [of now "s\<lparr>m_pending := m_pending s @ [(c, m)]\<rparr>"]
  by (auto simp: submit_def Let_def clients_of_def)

lemma submit_all_clients:
  "clients_of (fst (submit_all now c ms s)) \<subseteq> insert c (clients_of s)
     \<and> s_clients (fst (submit_all now c ms s)) = s_clients s"
proof (induction ms arbitrary: s)
  case (Cons m ms)
  show ?case
    using submit_clients [of now c m s] Cons.IH [of "fst (submit now c m s)"]
    by (auto simp: case_prod_beta)
qed auto

lemma after_callback_clients:
  assumes "m_currentClient s = Some a"
  shows "clients_of (after_callback a r s) = clients_of s
     \<and> (\<forall>b. b \<noteq> a \<longrightarrow> s_clients (after_callback a r s) b = s_clients s b)"
  using assms by (auto simp: after_callback_def clients_of_def image_image)

lemma handlePc_clients:
  assumes "handlePcMessage ops now m s = Inr (s', out)"
  shows "clients_of s' \<subseteq> clients_of s \<and> (\<forall>b. m_currentClient s \<noteq> Some b \<longrightarrow> s_clients s' b = s_clients s b)"
proof -
  define s1 where "s1 = s\<lparr>m_lastCommTimes := RBT.insert (unat (m_source m)) now (m_lastCommTimes s),
                 m_responseTimeout := None\<rparr>"
  have c1: "clients_of s1 = clients_of s" "s_clients s1 = s_clients s" "m_currentClient s1 = m_currentClient s"
    by (simp_all add: s1_def clients_of_def)
  show ?thesis
  proof (cases "m_currentClient s")
    case None
    then have "(s', out) = continueWithNextRequest now s1"
      using assms by (simp add: handlePcMessage_def Let_def s1_def)
    then show ?thesis using continue_clients [of now s1] c1 by (metis fst_conv)
  next
    case (Some a)
    then obtain r where "continueWithNextRequest now (after_callback a r s1) = (s', out)"
      using assms by (auto simp: handlePcMessage_def Let_def s1_def bindR_Inr_iff)
    then show ?thesis
      using continue_clients [of now "after_callback a r s1"] after_callback_clients [of s1 a r] c1 Some
      by (metis fst_conv option.inject)
  qed
qed

lemma timer_event_clients:
  assumes "sched_event ops now ResponseTimerExpired s = Inr (s', out)"
  shows "clients_of s' \<subseteq> clients_of s
    \<and> (\<forall>b. callback_of now ResponseTimerExpired s \<noteq> Some b \<longrightarrow> s_clients s' b = s_clients s b)"
proof -
  define s0 where "s0 = s\<lparr>m_responseTimeout := None\<rparr>"
  have c0: "clients_of s0 = clients_of s" "s_clients s0 = s_clients s" "m_currentClient s0 = m_currentClient s"
    by (simp_all add: s0_def clients_of_def)
  from assms show ?thesis
  proof (cases rule: timer_cases)
    case unserved
    then show ?thesis using continue_clients [of now s0] c0 by (simp add: s0_def)
  next
    case (answered a d s1 out1 out2)
    then show ?thesis
      using handlePc_clients [OF answered(2)] continue_clients [of now s1] c0
      by (auto simp: callback_of_def s0_def)
  next
    case (timeout a d)
    then show ?thesis
      using continue_clients [of now "after_callback a (cl_timeout ops (s_clients s a)) s0"]
        after_callback_clients [of s0 a "cl_timeout ops (s_clients s a)"] c0
      by (auto simp: callback_of_def s0_def)
  qed simp
qed

lemma sched_event_clients:
  assumes "sched_event ops now e s = Inr (s', out)" and "\<And>c m. e \<noteq> Submit c m"
  shows "clients_of s' \<subseteq> clients_of s \<and> (\<forall>b. callback_of now e s \<noteq> Some b \<longrightarrow> s_clients s' b = s_clients s b)"
proof (cases e)
  case (Submit c m)
  then show ?thesis using assms(2) by blast
next
  case (PcMessageReceived m)
  then show ?thesis using assms(1) handlePc_clients by (simp add: sched_event_def callback_of_def)
next
  case ResponseTimerExpired
  then show ?thesis using assms(1) timer_event_clients by simp
next
  case SendTimerExpired
  then show ?thesis
    using assms(1) doSendMessage_clients [of now _ "s\<lparr>m_sendTimer := None\<rparr>"]
    by (auto simp: sched_event_def split: option.splits if_splits dest!: arg_cong [where f = fst])
next
  case PostedSend
  then show ?thesis
    using assms(1) doSendMessage_clients [of now _ "s\<lparr>m_postedSends := tl (m_postedSends s)\<rparr>"]
    by (auto simp: sched_event_def split: list.splits dest!: arg_cong [where f = fst])
qed

section \<open>Only two faults besides\<close>

text \<open>
  What the code of a connection can raise itself: the conversion error of the contact information,
  and reading the answer to a version request beyond its end.
\<close>

definition known_fault :: "fault \<Rightarrow> bool" where
  "known_fault f \<longleftrightarrow> f = OutOfBounds \<or> f = RangeErrorThrown"

lemma contact_lines_fault: "contact_lines junk bs = Inl f \<Longrightarrow> known_fault f"
proof (induction junk bs rule: contact_lines.induct)
  case (1 junk bs)
  then show ?case
    by (subst (asm) (2) contact_lines.simps)
      (auto simp: Let_def known_fault_def bindR_Inl_iff split: if_splits option.splits)
qed

lemma onIncomingMessage_fault: "onIncomingMessage junk p m = Inl f \<Longrightarrow> known_fault f"
  by (auto simp: onIncomingMessage_def handleResponse_def handleVersionResponse_def Let_def bindR_Inl_iff
      vec_index_def known_fault_def [of OutOfBounds] contact_lines_fault
      split: if_splits option.splits prod.splits bool.splits)

lemma handleRequest_fault:
  assumes "cache_inv cache" and "handleRequest env cache c = Inl f"
  shows "known_fault f"
proof -
  have "only_range_error (parse env (Some cache) (stream_of (c_request c)) (c_parser c))"
    using assms(1) by (intro parse_only_range_error) simp
  then show ?thesis
    using assms(2)
    by (auto simp: handleRequest_def bindR_Inl_iff reply_def known_fault_def only_range_error_def split: if_splits)
qed

lemma sched_event_fault:
  assumes "sched_event (connection_ops junk) now e s = Inl f"
  shows "known_fault f"
proof -
  have "known_fault f" if "handlePcMessage (connection_ops junk) now m s = Inl f" for m s
    using that onIncomingMessage_fault
    by (auto simp: handlePcMessage_def Let_def bindR_Inl_iff connection_ops_def connection_onIncomingMessage_def
        split: option.splits)
  then show ?thesis
    using assms
    by (cases e) (auto simp: sched_event_def onFakeAnswer_def bindR_Inl_iff Let_def
        split: option.splits if_splits list.splits prod.splits)
qed

section \<open>Who may hang up\<close>

text \<open>
  A connection owes nothing when the scheduler does not know it and no wait of its test mode is under
  way.  Well-behaved surroundings: peers only go away when their connection owes nothing, and a line
  is only handed to a connection that is still open.
\<close>

definition waits :: "connection \<Rightarrow> bool" where
  "waits conn \<longleftrightarrow> m_testMode (c_parser conn) \<noteq> None \<or> c_posted conn \<noteq> []"

definition owes_nothing :: "nat \<Rightarrow> port \<Rightarrow> bool" where
  "owes_nothing c po \<longleftrightarrow> c \<notin> clients_of (po_sched po) \<and> \<not> waits (client po c)"

fun polite :: "port_event \<Rightarrow> port \<Rightarrow> bool" where
  "polite (AcceptDone o1) po = True"
| "polite (RequestRead c data) po = (c \<in> set (ch_connections (po_handler po)))"
| "polite (ReadFailed c o1) po = (o1 \<noteq> OperationAborted \<longrightarrow> owes_nothing c po)"
| "polite (WriteDone c o1) po = (o1 = Failure \<longrightarrow> owes_nothing c po)"
| "polite (TestTimer c) po = True"
| "polite (PostedWait c) po = True"
| "polite (Bus (Submit c m)) po = False"
| "polite (Bus e) po = True"

fun polite_run :: "(port_env \<times> port_event) list \<Rightarrow> port \<Rightarrow> bool" where
  "polite_run [] po = True"
| "polite_run ((pe, e) # evs) po =
     (cache_inv (pe_cache pe) \<and> polite e po
      \<and> (case port_step pe e po of Inl f \<Rightarrow> True | Inr (po', out) \<Rightarrow> polite_run evs po'))"

text \<open>The invariant: whatever can be called back is registered.\<close>

definition port_inv :: "port \<Rightarrow> bool" where
  "port_inv po \<longleftrightarrow> clients_of (po_sched po) \<subseteq> set (ch_connections (po_handler po))
     \<and> (\<forall>c. waits (client po c) \<longrightarrow> c \<in> set (ch_connections (po_handler po)))"

lemma port_init_inv: "port_inv (port_init memory)"
  by (simp add: port_inv_def port_init_def clients_of_def scheduler_init_def client_def waits_def
      connection_init_def parser_init_def)

lemma started_writes_connections [simp]:
  "ch_connections (started_writes c conn conn' h) = ch_connections h"
  by (simp add: started_writes_def)

lemma handleAccept_connections: "set (ch_connections h) \<subseteq> set (ch_connections (handleAccept o1 h))"
  by (auto simp: handleAccept_def startConnection_def startAccepting_def Let_def
      split: option.splits)

lemma readFailed_connections:
  "set (ch_connections (readFailed outcome c h))
     = set (ch_connections h) - (if outcome = OperationAborted then {} else {c})"
  by (simp add: readFailed_def stopConnection_def Let_def)

lemma handleWrite_connections:
  "set (ch_connections (handleWrite outcome c h)) = set (ch_connections h) - (if outcome = Failure then {c} else {})"
  by (simp add: handleWrite_def stopConnection_def Let_def)

lemma connection_ran_inv:
  assumes "port_inv po" and "c \<in> set (ch_connections (po_handler po))"
  shows "port_inv (fst (connection_ran now c r po))"
proof -
  let ?s = "(po_sched po)\<lparr>s_clients := (s_clients (po_sched po))(c := fst r)\<rparr>"
  have "clients_of ?s = clients_of (po_sched po)" by (simp add: clients_of_def)
  then show ?thesis
    using submit_all_clients [of now c "snd r" ?s] assms
    by (auto simp: port_inv_def connection_ran_def case_prod_beta client_def split: if_splits)
qed

lemma connection_ran_same:
  assumes "\<not> waits (client po c)"
  shows "connection_ran now c (connection_testTimer (client po c)) po = (po, [])"
    "connection_ran now c (connection_postedWait (client po c)) po = (po, [])"
proof -
  have "m_testMode (c_parser (client po c)) = None" "c_posted (client po c) = []"
    using assms by (cases "m_testMode (c_parser (client po c))"; simp add: waits_def)+
  then show "connection_ran now c (connection_testTimer (client po c)) po = (po, [])"
    "connection_ran now c (connection_postedWait (client po c)) po = (po, [])"
    by (simp_all add: connection_testTimer_def connection_postedWait_def connection_ran_def client_def
        started_writes_def)
qed

lemma timer_inv:
  assumes "port_inv po"
  shows "port_inv (fst (connection_ran now c (connection_testTimer (client po c)) po))"
    "port_inv (fst (connection_ran now c (connection_postedWait (client po c)) po))"
proof -
  have "c \<in> set (ch_connections (po_handler po))" if "waits (client po c)"
    using assms that by (simp add: port_inv_def)
  then show "port_inv (fst (connection_ran now c (connection_testTimer (client po c)) po))"
    "port_inv (fst (connection_ran now c (connection_postedWait (client po c)) po))"
    using connection_ran_inv [OF assms] connection_ran_same [of po c] assms
    by (cases "waits (client po c)"; simp)+
qed

lemma remove_inv:
  assumes "port_inv po" and "owes_nothing c po" and "set (ch_connections h) = set (ch_connections (po_handler po)) - {c}"
  shows "port_inv (po\<lparr>po_handler := h\<rparr>)"
  using assms by (auto simp: port_inv_def owes_nothing_def client_def)

lemma grow_inv:
  "port_inv po \<Longrightarrow> set (ch_connections (po_handler po)) \<subseteq> set (ch_connections h) \<Longrightarrow> port_inv (po\<lparr>po_handler := h\<rparr>)"
  unfolding port_inv_def client_def by (simp, blast)

lemma bus_event_inv:
  assumes "port_inv po" and "bus_event pe e po = Inr (po', out)" and "\<And>c m. e \<noteq> Submit c m"
  shows "port_inv po'"
proof -
  obtain s' where s': "sched_event (connection_ops (pe_junk pe)) (pe_now pe) e (po_sched po) = Inr (s', out)"
    "po_sched po' = s'" "ch_connections (po_handler po') = ch_connections (po_handler po)"
    using assms(2) by (auto simp: bus_event_def Let_def bindR_Inr_iff split: option.splits if_splits)
  have c: "clients_of s' \<subseteq> clients_of (po_sched po)"
    "\<And>b. callback_of (pe_now pe) e (po_sched po) \<noteq> Some b \<Longrightarrow> s_clients s' b = s_clients (po_sched po) b"
    using sched_event_clients [OF s'(1) assms(3)] by auto
  have "b \<in> clients_of (po_sched po)" if "callback_of (pe_now pe) e (po_sched po) = Some b" for b
    using that by (auto simp: callback_of_def clients_of_def split: event.splits option.splits if_splits)
  then show ?thesis
    using c s'(2,3) assms(1) unfolding port_inv_def client_def by (metis subsetD subset_trans)
qed

lemma port_step_inv:
  assumes "port_inv po" and "polite e po" and "port_step pe e po = Inr (po', out)"
  shows "port_inv po'"
proof (cases e)
  case (AcceptDone o1)
  then show ?thesis using assms handleAccept_connections by (auto intro: grow_inv)
next
  case (RequestRead c data)
  then show ?thesis
    using assms connection_ran_inv [of po c] by (auto simp: request_read_def bindR_Inr_iff split: if_splits dest: sym)
      (metis fst_conv)
next
  case (ReadFailed c o1)
  then show ?thesis
    using readFailed_connections [of o1 c "po_handler po"] assms ReadFailed remove_inv [OF assms(1)] grow_inv [OF assms(1)]
    by (cases "o1 = OperationAborted") auto
next
  case (WriteDone c o1)
  then show ?thesis
    using handleWrite_connections [of o1 c "po_handler po"] assms WriteDone remove_inv [OF assms(1)] grow_inv [OF assms(1)]
    by (cases "o1 = Failure") auto
next
  case (TestTimer c)
  then show ?thesis
    using assms timer_inv(1) [OF assms(1), of "pe_now pe" c]
    by (auto simp: test_timer_def split: if_splits option.splits prod.splits test_wait.splits)
next
  case (PostedWait c)
  have "c_posted (client po c) = []" if "\<not> alive (po_handler po) c"
    using that assms(1) by (auto simp: port_inv_def alive_def waits_def)
  then show ?thesis
    using PostedWait assms timer_inv(2) [OF assms(1), of "pe_now pe" c]
    by (auto simp: posted_wait_def split: if_splits)
next
  case (Bus e')
  then show ?thesis
    using assms bus_event_inv [of po pe e' po' out] by (cases e') auto
qed

lemma callback_client:
  assumes "callback_of now e s = Some a"
  shows "a \<in> clients_of s"
  using assms by (auto simp: callback_of_def clients_of_def split: event.splits option.splits if_splits)

lemma port_step_fault:
  assumes "port_inv po" and "polite e po" and "cache_inv (pe_cache pe)" and "port_step pe e po = Inl f"
  shows "known_fault f"
proof (cases e)
  case (RequestRead c data)
  then show ?thesis
    using assms(3,4) handleRequest_fault by (auto simp: request_read_def bindR_Inl_iff split: if_splits)
next
  case (TestTimer c)
  then have "\<not> alive (po_handler po) c" "waits (client po c)"
    using assms(4) by (auto simp: test_timer_def waits_def split: if_splits option.splits prod.splits)
  then show ?thesis using assms(1) by (auto simp: port_inv_def alive_def)
next
  case (PostedWait c)
  then have "\<not> alive (po_handler po) c" "waits (client po c)"
    using assms(4) by (auto simp: posted_wait_def waits_def split: if_splits list.splits test_wait.splits)
  then show ?thesis using assms(1) by (auto simp: port_inv_def alive_def)
next
  case (Bus e')
  have "alive (po_handler po) a" if "callback_of (pe_now pe) e' (po_sched po) = Some a" for a
    using callback_client [OF that] assms(1) by (auto simp: port_inv_def alive_def)
  then show ?thesis
    using Bus assms(4) sched_event_fault
    by (auto simp: bus_event_def Let_def bindR_Inl_iff split: option.splits if_splits)
qed (use assms(4) in auto)

lemma port_run_safe:
  assumes "polite_run evs po" and "port_inv po"
  shows "case port_run evs po of Inl f \<Rightarrow> known_fault f | Inr (po', out) \<Rightarrow> port_inv po'"
  using assms
proof (induction evs arbitrary: po)
  case (Cons x evs)
  obtain pe e where x: "x = (pe, e)" by (cases x)
  show ?case
  proof (cases "port_step pe e po")
    case (Inl f)
    then show ?thesis using port_step_fault [of po e pe f] Cons.prems x by simp
  next
    case (Inr r)
    then have "port_inv (fst r)" "polite_run evs (fst r)"
      using port_step_inv [of po e pe "fst r" "snd r"] Cons.prems x by (auto simp: case_prod_beta)
    then show ?thesis
      using Cons.IH [of "fst r"] Inr x by (auto simp: case_prod_beta split: sum.splits)
  qed
qed simp

section \<open>Properties\<close>

text \<open>Surroundings, and a port whose first client is connected, as examples.\<close>

definition port_env_example :: "nat \<Rightarrow> port_env" where
  "port_env_example now = \<lparr>pe_now = now, pe_env = example_env, pe_cache = RBT.empty, pe_junk = (\<lambda>_. 0)\<rparr>"

definition connected_port :: port where
  "connected_port = (port_init (\<lambda>_. idle_parser))\<lparr>po_handler := handleAccept Success command_handler_init\<rparr>"

definition eco_line :: string where
  "eco_line = ''ww mode eco\<newline>''"

definition eco_write :: ems_message where
  "eco_write = sendMessage_ctor addressUI800 0x01f5 2 [1] False"

text \<open>
  as long as no peer goes away while its connection has a request queued or under way or its
  test mode timer runs, no sequence of events calls a connection that no longer exists, and the only
  faults left are the two known ones; and whomever the scheduler knows is still connected.
\<close>

theorem polite_port_safe:
  assumes "polite_run evs (port_init memory)"
  shows "case port_run evs (port_init memory) of
      Inl f \<Rightarrow> f = OutOfBounds \<or> f = RangeErrorThrown
    | Inr (po, out) \<Rightarrow> clients_of (po_sched po) \<subseteq> set (ch_connections (po_handler po))"
  using port_run_safe [OF assms port_init_inv]
  by (auto simp: known_fault_def port_inv_def split: sum.splits)

lemma polite_port_safe_witness:
  "\<exists>po out. port_run [(port_env_example 0, AcceptDone Success), (port_env_example 1000, RequestRead 0 eco_line)]
       (port_init (\<lambda>_. idle_parser)) = Inr (po, out)
    \<and> out = [eco_write] \<and> clients_of (po_sched po) \<subseteq> set (ch_connections (po_handler po))"
proof -
  let ?evs = "[(port_env_example 0, AcceptDone Success), (port_env_example 1000, RequestRead 0 eco_line)]"
  have "polite_run ?evs (port_init (\<lambda>_. idle_parser))"
    using cache_inv_empty by (simp add: port_env_example_def port_init_def command_handler_init_def
        startAccepting_def handleAccept_def startConnection_def Let_def split: sum.splits prod.splits)
  note safe = polite_port_safe [OF this]
  have "case port_run ?evs (port_init (\<lambda>_. idle_parser)) of Inl f \<Rightarrow> False | Inr (po, out) \<Rightarrow> out = [eco_write]"
    by code_simp
  then show ?thesis using safe by (auto split: sum.splits prod.splits)
qed

text \<open>
  a peer that goes away while its request is under way, and to which nothing is being
  written, takes its connection object with it, but the scheduler keeps calling it: whatever telegram
  for the collector arrives next, and the expiration of the response timer, use the freed object.
\<close>

theorem hangup_uses_freed_connection:
  assumes "m_currentClient (po_sched po) = Some c" and "distinct (ch_reading (po_handler po))"
    and "c \<notin> set (ch_writing (po_handler po))" and "ch_accepting (po_handler po) \<noteq> Some c"
    and "m_responseTimeout (po_sched po) = Some (w, deadline)"
  shows "\<exists>po'. port_step pe (ReadFailed c Failure) po = Inr (po', [])
    \<and> (\<forall>pe' m. port_step pe' (Bus (PcMessageReceived m)) po' = Inl UseAfterFree)
    \<and> port_step (pe\<lparr>pe_now := deadline\<rparr>) (Bus ResponseTimerExpired) po' = Inl UseAfterFree"
  using assms
  by (simp add: readFailed_def stopConnection_def bus_event_def callback_of_def alive_def Let_def)

lemma hangup_uses_freed_connection_witness:
  "port_run [(port_env_example 0, AcceptDone Success), (port_env_example 1000, RequestRead 0 eco_line),
      (port_env_example 1001, ReadFailed 0 Failure), (port_env_example 1200, Bus ResponseTimerExpired)]
     (port_init (\<lambda>_. idle_parser)) = Inl UseAfterFree"
proof -
  let ?evs = "[(port_env_example 0, AcceptDone Success), (port_env_example 1000, RequestRead 0 eco_line)]"
  let ?tail = "[(port_env_example 1001, ReadFailed 0 Failure), (port_env_example 1200, Bus ResponseTimerExpired)]"
  have "case port_run ?evs (port_init (\<lambda>_. idle_parser)) of Inl f \<Rightarrow> False
    | Inr (po, out) \<Rightarrow> m_currentClient (po_sched po) = Some 0 \<and> ch_reading (po_handler po) = [0]
        \<and> ch_writing (po_handler po) = [] \<and> ch_accepting (po_handler po) = Some 1
        \<and> m_responseTimeout (po_sched po) = Some (FakeAnswer, 1200)"
    by code_simp
  then obtain po out where po: "port_run ?evs (port_init (\<lambda>_. idle_parser)) = Inr (po, out)"
    "m_currentClient (po_sched po) = Some 0" "ch_reading (po_handler po) = [0]" "ch_writing (po_handler po) = []"
    "ch_accepting (po_handler po) = Some 1" "m_responseTimeout (po_sched po) = Some (FakeAnswer, 1200)"
    by (auto split: sum.splits prod.splits)
  have "port_run ?tail po = Inl UseAfterFree"
    using hangup_uses_freed_connection [of po 0 FakeAnswer 1200 "port_env_example 1001"] po(2-6)
    by (auto simp: port_env_example_def)
  then show ?thesis using po(1) port_run_append [of ?evs ?tail "port_init (\<lambda>_. idle_parser)"] by simp
qed

end
