(* ===== verification/CommandService.thy ===== *)
theory CommandService
  imports CommandPort
begin

text \<open>
  What a client of the command port gets: one request followed through the connection, the scheduler
  and its timers (\<open>CommandHandler.cpp\<close>, \<open>CommandScheduler.cpp\<close>, \<open>ApiCommandParser.cpp\<close>), for a device
  that takes a write and for one that does not answer a read.
\<close>

unbundle bit_operations_syntax

section \<open>Serving one request\<close>

text \<open>Nothing is under way and the last communication with \<open>d\<close> is long enough ago.\<close>

definition bus_idle :: "nat \<Rightarrow> u8 \<Rightarrow> 'c scheduler \<Rightarrow> bool" where
  "bus_idle now d s \<longleftrightarrow> m_currentClient s = None \<and> m_pending s = []
     \<and> (case RBT.lookup (m_lastCommTimes s) (unat d) of None \<Rightarrow> True
        | Some t \<Rightarrow> t + MinDistanceBetweenRequests < now)"

lemma sendMessage_free:
  assumes "case RBT.lookup (m_lastCommTimes s) (unat (m_dest m)) of None \<Rightarrow> True
        | Some t \<Rightarrow> t + MinDistanceBetweenRequests < now"
  shows "sendMessage now m s = doSendMessage now m s"
  using assms by (auto simp: sendMessage_def split: option.splits)

text \<open>Client \<open>c\<close> is served: \<open>m\<close> was sent at \<open>now\<close>, and nobody else waits.\<close>

definition serving :: "nat \<Rightarrow> ems_message \<Rightarrow> nat \<Rightarrow> 'c scheduler \<Rightarrow> bool" where
  "serving c m now s \<longleftrightarrow> m_currentClient s = Some c \<and> m_pending s = []
     \<and> m_responseTimeout s = Some (if m_dest m AND 0x80 = 0 then (FakeAnswer, now + FakeAnswerDelay)
                                 else (AnswerTimeout, now + RequestTimeout))
     \<and> RBT.lookup (m_lastCommTimes s) (unat (m_dest m)) = Some now"

lemma submit_serving:
  assumes "bus_idle now (m_dest m) s"
  shows "\<exists>s'. submit now c m s = (s', [m]) \<and> serving c m now s' \<and> s_clients s' = s_clients s"
proof -
  let ?s = "s\<lparr>m_pending := [(c, m)], m_currentClient := Some c\<rparr>"
  have "sendMessage now m ?s = doSendMessage now m ?s"
    using assms by (intro sendMessage_free) (simp add: bus_idle_def)
  then show ?thesis
    using assms
    by (auto simp: submit_def continueWithNextRequest_def bus_idle_def doSendMessage_def Let_def
        scheduleResponseTimeout_def serving_def)
qed

text \<open>The connection waits for the answer to \<open>m\<close> with \<open>n\<close> tries left.\<close>

definition asking :: "ems_message \<Rightarrow> nat \<Rightarrow> connection \<Rightarrow> bool" where
  "asking m n conn \<longleftrightarrow> m_activeRequest (c_parser conn) = Some m \<and> unat (m_retriesLeft (c_parser conn)) = n"

lemma timeout_resends:
  assumes "asking m (Suc (Suc n)) conn"
  shows "\<exists>conn'. connection_onTimeout conn = (conn', [m]) \<and> asking m (Suc n) conn'
    \<and> c_written conn' = c_written conn"
proof -
  have "unat (m_retriesLeft (c_parser conn) - 1) = Suc n"
    using assms by (subst unat_minus_one) (auto simp: asking_def)
  moreover from this have "m_retriesLeft (c_parser conn) - 1 \<noteq> 0" by auto
  ultimately show ?thesis
    using assms by (simp add: asking_def connection_onTimeout_def onTimeout_def Let_def sendActiveRequest_def
        absorb_def lines_of_def sends_of_def)
qed

lemma timeout_gives_up:
  assumes "asking m 1 conn"
  shows "\<exists>conn'. connection_onTimeout conn = (conn', []) \<and> m_activeRequest (c_parser conn') = None
    \<and> c_written conn' = c_written conn @ [''ERRTIMEOUT'']"
proof -
  have "m_retriesLeft (c_parser conn) = 1"
    using assms by (simp add: asking_def word_unat_eq_iff)
  then show ?thesis
    using assms by (simp add: asking_def connection_onTimeout_def onTimeout_def Let_def respond_def
        absorb_def lines_of_def sends_of_def)
qed

lemma expire_resends:
  assumes "serving c m now s" and "m_dest m AND 0x80 \<noteq> 0" and "asking m (Suc (Suc n)) (s_clients s c)"
  shows "\<exists>s'. sched_event (connection_ops junk) (now + RequestTimeout) ResponseTimerExpired s = Inr (s', [m])
    \<and> serving c m (now + RequestTimeout) s' \<and> asking m (Suc n) (s_clients s' c)
    \<and> c_written (s_clients s' c) = c_written (s_clients s c)"
proof -
  obtain conn' where conn': "connection_onTimeout (s_clients s c) = (conn', [m])" "asking m (Suc n) conn'"
    "c_written conn' = c_written (s_clients s c)"
    using timeout_resends [OF assms(3)] by blast
  define s2 where "s2 = s\<lparr>m_responseTimeout := None, s_clients := (s_clients s)(c := conn'), m_pending := [(c, m)],
    m_currentClient := Some c\<rparr>"
  have "sendMessage (now + RequestTimeout) m s2 = doSendMessage (now + RequestTimeout) m s2"
    using assms(1) by (intro sendMessage_free)
      (simp add: s2_def serving_def RequestTimeout_def MinDistanceBetweenRequests_def)
  then show ?thesis
    using assms(1,2) conn'
    by (simp add: sched_event_def serving_def onAnswerTimeout_def connection_ops_def after_callback_def
        continueWithNextRequest_def doSendMessage_def scheduleResponseTimeout_def s2_def Let_def)
qed

lemma expire_gives_up:
  assumes "serving c m now s" and "m_dest m AND 0x80 \<noteq> 0" and "asking m 1 (s_clients s c)"
  shows "\<exists>s'. sched_event (connection_ops junk) (now + RequestTimeout) ResponseTimerExpired s = Inr (s', [])
    \<and> m_currentClient s' = None \<and> m_pending s' = [] \<and> m_activeRequest (c_parser (s_clients s' c)) = None
    \<and> c_written (s_clients s' c) = c_written (s_clients s c) @ [''ERRTIMEOUT'']"
proof -
  obtain conn' where conn': "connection_onTimeout (s_clients s c) = (conn', [])" "m_activeRequest (c_parser conn') = None"
    "c_written conn' = c_written (s_clients s c) @ [''ERRTIMEOUT'']"
    using timeout_gives_up [OF assms(3)] by blast
  then show ?thesis
    using assms(1,2)
    by (simp add: sched_event_def serving_def onAnswerTimeout_def connection_ops_def after_callback_def
        continueWithNextRequest_def Let_def)
qed

lemma fake_answer_confirms:
  assumes "serving c m now s" and "m_dest m AND 0x80 = 0" and "m_activeRequest (c_parser (s_clients s c)) \<noteq> None"
    and "now + FakeAnswerDelay \<le> later"
  shows "\<exists>s'. sched_event (connection_ops junk) later ResponseTimerExpired s = Inr (s', [])
    \<and> m_currentClient s' = None \<and> m_pending s' = [] \<and> m_activeRequest (c_parser (s_clients s' c)) = None
    \<and> c_written (s_clients s' c) = c_written (s_clients s c) @ [''OK'']"
proof -
  have "\<exists>conn'. connection_onIncomingMessage junk (s_clients s c) fake_answer = Inr (conn', [])
    \<and> m_activeRequest (c_parser conn') = None \<and> c_written conn' = c_written (s_clients s c) @ [''OK'']"
    using assms(3) by (auto simp: connection_onIncomingMessage_def onIncomingMessage_def fake_answer_def
        getType_ctor absorb_def respond_def lines_of_def sends_of_def Let_def)
  then obtain conn' where "connection_onIncomingMessage junk (s_clients s c) fake_answer = Inr (conn', [])"
    "m_activeRequest (c_parser conn') = None" "c_written conn' = c_written (s_clients s c) @ [''OK'']"
    by blast
  then show ?thesis
    using assms(1,2,4)
    by (simp add: sched_event_def serving_def onFakeAnswer_def handlePcMessage_def connection_ops_def
        after_callback_def continueWithNextRequest_def Let_def)
qed

text \<open>Expirations of the response timer, one each second.\<close>

fun expiries :: "port_env \<Rightarrow> nat \<Rightarrow> (port_env \<times> port_event) list" where
  "expiries pe 0 = []"
| "expiries pe (Suc n) =
     (let pe' = pe\<lparr>pe_now := pe_now pe + RequestTimeout\<rparr>
      in (pe', Bus ResponseTimerExpired) # expiries pe' n)"

text \<open>The surroundings of connection \<open>c\<close> are as before.\<close>

definition others_same :: "nat \<Rightarrow> port \<Rightarrow> port \<Rightarrow> bool" where
  "others_same c po po' \<longleftrightarrow> (\<forall>b. b \<noteq> c \<longrightarrow> client po' b = client po b)
     \<and> ch_connections (po_handler po') = ch_connections (po_handler po)
     \<and> ch_reading (po_handler po') = ch_reading (po_handler po)"

lemma others_same_trans: "others_same c po po1 \<Longrightarrow> others_same c po1 po2 \<Longrightarrow> others_same c po po2"
  by (simp add: others_same_def)

lemma bus_timer_step:
  assumes "serving c m sent (po_sched po)" and "c \<in> set (ch_connections (po_handler po))"
    and "sched_event (connection_ops (pe_junk pe)) (pe_now pe) ResponseTimerExpired (po_sched po) = Inr (s', out)"
    and "sent + (if m_dest m AND 0x80 = 0 then FakeAnswerDelay else RequestTimeout) \<le> pe_now pe"
  shows "\<exists>po'. port_step pe (Bus ResponseTimerExpired) po = Inr (po', out) \<and> po_sched po' = s' \<and> others_same c po po'"
proof -
  have cb: "callback_of (pe_now pe) ResponseTimerExpired (po_sched po) = Some c"
    using assms(1,4) by (auto simp: callback_of_def serving_def split: if_splits)
  have "s_clients s' b = s_clients (po_sched po) b" if "b \<noteq> c" for b
    using sched_event_clients [OF assms(3)] cb that by auto
  then show ?thesis
    using assms(2,3) cb by (simp add: bus_event_def Let_def alive_def others_same_def client_def started_writes_def)
qed

lemma silent_run:
  assumes "serving c m (pe_now pe) (po_sched po)" and "m_dest m AND 0x80 \<noteq> 0" and "asking m (Suc n) (client po c)"
    and "c \<in> set (ch_connections (po_handler po))"
  shows "\<exists>po'. port_run (expiries pe (Suc n)) po = Inr (po', replicate n m)
    \<and> m_currentClient (po_sched po') = None \<and> m_pending (po_sched po') = []
    \<and> m_activeRequest (c_parser (client po' c)) = None
    \<and> c_written (client po' c) = c_written (client po c) @ [''ERRTIMEOUT''] \<and> others_same c po po'"
  using assms
proof (induction n arbitrary: pe po)
  case 0
  let ?pe = "pe\<lparr>pe_now := pe_now pe + RequestTimeout\<rparr>"
  obtain s' where s': "sched_event (connection_ops (pe_junk ?pe)) (pe_now ?pe) ResponseTimerExpired (po_sched po) = Inr (s', [])"
    "m_currentClient s' = None" "m_pending s' = []" "m_activeRequest (c_parser (s_clients s' c)) = None"
    "c_written (s_clients s' c) = c_written (client po c) @ [''ERRTIMEOUT'']"
    using expire_gives_up [OF 0(1,2), of "pe_junk ?pe"] 0(3) by (auto simp: client_def)
  then show ?case
    using bus_timer_step [OF 0(1,4) s'(1)] 0(2) by (auto simp: Let_def client_def)
next
  case (Suc n)
  let ?pe = "pe\<lparr>pe_now := pe_now pe + RequestTimeout\<rparr>"
  obtain s' where s': "sched_event (connection_ops (pe_junk ?pe)) (pe_now ?pe) ResponseTimerExpired (po_sched po) = Inr (s', [m])"
    "serving c m (pe_now ?pe) s'" "asking m (Suc n) (s_clients s' c)"
    "c_written (s_clients s' c) = c_written (client po c)"
    using expire_resends [OF Suc.prems(1,2), of n "pe_junk ?pe"] Suc.prems(3) by (auto simp: client_def)
  obtain po1 where po1: "port_step ?pe (Bus ResponseTimerExpired) po = Inr (po1, [m])" "po_sched po1 = s'"
    "others_same c po po1"
    using bus_timer_step [OF Suc.prems(1,4) s'(1)] Suc.prems(2) by auto
  obtain po2 where "port_run (expiries ?pe (Suc n)) po1 = Inr (po2, replicate n m)"
    "m_currentClient (po_sched po2) = None" "m_pending (po_sched po2) = []"
    "m_activeRequest (c_parser (client po2 c)) = None"
    "c_written (client po2 c) = c_written (client po1 c) @ [''ERRTIMEOUT'']" "others_same c po1 po2"
    using Suc.IH [of ?pe po1] s' po1(2,3) Suc.prems(2,4) by (auto simp: client_def others_same_def)
  then show ?case
    using po1 s'(4) others_same_trans [OF po1(3)]
    by (subst expiries.simps) (auto simp: Let_def client_def simp del: expiries.simps)
qed

text \<open>A line whose command is to send one telegram.\<close>

lemma request_submits:
  assumes "c \<in> set (ch_reading (po_handler po))" and "2 < length (c_request (client po c) @ data)"
    and "parse (pe_env pe) (Some (pe_cache pe)) (stream_of (c_request (client po c) @ data)) (c_parser (client po c)) =
      reply Ok is (p, [Send m])"
    and "bus_idle (pe_now pe) (m_dest m) (po_sched po)"
  shows "\<exists>po'. port_step pe (RequestRead c data) po = Inr (po', [m]) \<and> serving c m (pe_now pe) (po_sched po')
    \<and> c_parser (client po' c) = p \<and> c_written (client po' c) = c_written (client po c) \<and> others_same c po po'"
proof -
  let ?conn = "(client po c)\<lparr>c_request := c_request (client po c) @ data\<rparr>"
  obtain conn' where h: "handleRequest (pe_env pe) (pe_cache pe) ?conn = Inr (conn', [m])"
    "c_parser conn' = p" "c_written conn' = c_written (client po c)"
    using assms(2,3) by (auto simp: handleRequest_def reply_def absorb_def lines_of_def sends_of_def)
  let ?s = "(po_sched po)\<lparr>s_clients := (s_clients (po_sched po))(c := conn')\<rparr>"
  have "bus_idle (pe_now pe) (m_dest m) ?s" using assms(4) by (simp add: bus_idle_def)
  then obtain s' where "submit (pe_now pe) c m ?s = (s', [m])" "serving c m (pe_now pe) s'" "s_clients s' = s_clients ?s"
    using submit_serving by blast
  then show ?thesis
    using assms(1) h by (simp add: request_read_def connection_ran_def client_def others_same_def started_writes_def)
qed

lemma request_sends:
  assumes "c \<in> set (ch_reading (po_handler po))" and "2 < length (c_request (client po c) @ data)"
    and "parse (pe_env pe) (Some (pe_cache pe)) (stream_of (c_request (client po c) @ data)) (c_parser (client po c)) =
      reply Ok is (sendCommand d t off bs er p)"
    and "bus_idle (pe_now pe) (m_dest (sendMessage_ctor d t off bs er)) (po_sched po)"
  shows "\<exists>po'. port_step pe (RequestRead c data) po = Inr (po', [sendMessage_ctor d t off bs er])
    \<and> serving c (sendMessage_ctor d t off bs er) (pe_now pe) (po_sched po')
    \<and> asking (sendMessage_ctor d t off bs er) 5 (client po' c)
    \<and> c_written (client po' c) = c_written (client po c) \<and> others_same c po po'"
proof -
  let ?m = "sendMessage_ctor d t off bs er"
  have "sendCommand d t off bs er p = (fst (sendCommand d t off bs er p), [Send ?m])"
    by (simp add: sendCommand_def sendActiveRequest_def Let_def)
  then show ?thesis
    using request_submits [OF assms(1,2), of pe "is" "fst (sendCommand d t off bs er p)" ?m] assms(3,4)
    by (auto simp: asking_def sendCommand_def MaxRequestRetries_def Let_def)
qed

section \<open>Properties\<close>

text \<open>
  C17: on an idle bus a line that writes a setting sends its telegram at once, and 200 milliseconds
  later, whatever the device did with it, the client reads \<open>OK\<close>; then the connection and the
  scheduler are free again and no other connection has noticed anything.
\<close>

theorem write_confirmed:
  assumes "c \<in> set (ch_reading (po_handler po))" and "c \<in> set (ch_connections (po_handler po))"
    and "2 < length (c_request (client po c) @ line)"
    and "parse (pe_env pe) (Some (pe_cache pe)) (stream_of (c_request (client po c) @ line)) (c_parser (client po c)) =
      reply Ok is (sendCommand d t off bs False p)"
    and "bus_idle (pe_now pe) (d AND 0x7f) (po_sched po)"
  shows "\<exists>po'. port_run [(pe, RequestRead c line),
        (pe\<lparr>pe_now := pe_now pe + FakeAnswerDelay\<rparr>, Bus ResponseTimerExpired)] po =
        Inr (po', [sendMessage_ctor d t off bs False])
    \<and> c_written (client po' c) = c_written (client po c) @ [''OK'']
    \<and> m_activeRequest (c_parser (client po' c)) = None
    \<and> m_currentClient (po_sched po') = None \<and> m_pending (po_sched po') = []
    \<and> (\<forall>b. b \<noteq> c \<longrightarrow> client po' b = client po b)"
proof -
  let ?m = "sendMessage_ctor d t off bs False" and ?pe = "pe\<lparr>pe_now := pe_now pe + FakeAnswerDelay\<rparr>"
  obtain po1 where po1: "port_step pe (RequestRead c line) po = Inr (po1, [?m])" "serving c ?m (pe_now pe) (po_sched po1)"
    "asking ?m 5 (client po1 c)" "c_written (client po1 c) = c_written (client po c)" "others_same c po po1"
    using request_sends [OF assms(1,3,4)] assms(5) by auto
  have w: "m_dest ?m AND 0x80 = 0" by simp
  obtain s' where s': "sched_event (connection_ops (pe_junk ?pe)) (pe_now ?pe) ResponseTimerExpired (po_sched po1) = Inr (s', [])"
    "m_currentClient s' = None" "m_pending s' = []" "m_activeRequest (c_parser (s_clients s' c)) = None"
    "c_written (s_clients s' c) = c_written (client po c) @ [''OK'']"
    using fake_answer_confirms [OF po1(2) w, of "pe_now ?pe" "pe_junk ?pe"] po1(3,4)
    by (auto simp: client_def asking_def)
  have "c \<in> set (ch_connections (po_handler po1))" using assms(2) po1(5) by (simp add: others_same_def)
  from bus_timer_step [OF po1(2) this s'(1)] obtain po2 where
    "port_step ?pe (Bus ResponseTimerExpired) po1 = Inr (po2, [])" "po_sched po2 = s'" "others_same c po1 po2"
    using w by auto
  then show ?thesis
    using po1 s' others_same_trans [OF po1(5)] by (auto simp: client_def others_same_def)
qed

lemma eco_line_parse:
  "parse example_env (Some RBT.empty) (stream_of eco_line) idle_parser =
     reply Ok (snd (read_string (stream_of '' eco\<newline>''))) (sendCommand addressUI800 0x01f5 2 [1] False idle_parser)"
proof -
  have w: "read_string (stream_of eco_line) = (''ww'', stream_of '' mode eco\<newline>'')"
    "read_string (stream_of '' mode eco\<newline>'') = (''mode'', stream_of '' eco\<newline>'')"
    "fst (read_string (stream_of '' eco\<newline>'')) = ''eco''"
    by code_simp+
  show ?thesis
    unfolding parse_def w(1,2) prod.case handleWwCommand_def
    using w(3) by (simp add: sendChoice_def case_prod_beta)
qed

lemma connected_port_simps:
  "ch_reading (po_handler connected_port) = [0]" "ch_connections (po_handler connected_port) = [0]"
  "c_request (client connected_port 0) = []" "c_written (client connected_port 0) = []"
  "c_parser (client connected_port 0) = idle_parser" "bus_idle now d (po_sched connected_port)"
  by (simp_all add: connected_port_def port_init_def command_handler_init_def startAccepting_def
      handleAccept_def startConnection_def client_def scheduler_init_def connection_init_def
      idle_parser_def parser_init_def bus_idle_def Let_def)

lemma write_confirmed_witness:
  "\<exists>po'. port_run [(port_env_example 0, RequestRead 0 eco_line), (port_env_example 200, Bus ResponseTimerExpired)]
       connected_port = Inr (po', [eco_write]) \<and> c_written (client po' 0) = [''OK'']"
proof -
  have "(port_env_example 0)\<lparr>pe_now := pe_now (port_env_example 0) + FakeAnswerDelay\<rparr> = port_env_example 200"
    by (simp add: port_env_example_def FakeAnswerDelay_def)
  then show ?thesis
    using write_confirmed [of 0 connected_port eco_line "port_env_example 0"] eco_line_parse
    by (fastforce simp: connected_port_simps port_env_example_def eco_line_def eco_write_def)
qed

text \<open>
  C18: a request that reads from a device which does not answer is sent five times, a second
  apart; after the fifth second the client reads \<open>ERRTIMEOUT\<close>, nothing else was written, the
  connection takes the next request, and the scheduler serves the next client.
\<close>

theorem silent_device_reported:
  assumes "c \<in> set (ch_reading (po_handler po))" and "c \<in> set (ch_connections (po_handler po))"
    and "2 < length (c_request (client po c) @ line)"
    and "parse (pe_env pe) (Some (pe_cache pe)) (stream_of (c_request (client po c) @ line)) (c_parser (client po c)) =
      reply Ok is (sendCommand d t off bs True p)"
    and "bus_idle (pe_now pe) (d OR 0x80) (po_sched po)"
  shows "\<exists>po'. port_run ((pe, RequestRead c line) # expiries pe 5) po =
        Inr (po', replicate 5 (sendMessage_ctor d t off bs True))
    \<and> c_written (client po' c) = c_written (client po c) @ [''ERRTIMEOUT'']
    \<and> m_activeRequest (c_parser (client po' c)) = None
    \<and> m_currentClient (po_sched po') = None \<and> m_pending (po_sched po') = []
    \<and> (\<forall>b. b \<noteq> c \<longrightarrow> client po' b = client po b)"
proof -
  let ?m = "sendMessage_ctor d t off bs True"
  have r: "m_dest ?m = d OR 0x80" "m_dest ?m AND 0x80 \<noteq> 0" by (simp_all add: sendMessage_ctor_def)
  obtain po1 where po1: "port_step pe (RequestRead c line) po = Inr (po1, [?m])" "serving c ?m (pe_now pe) (po_sched po1)"
    "asking ?m 5 (client po1 c)" "c_written (client po1 c) = c_written (client po c)" "others_same c po po1"
    using request_sends [OF assms(1,3,4)] assms(5) r(1) by auto
  have "c \<in> set (ch_connections (po_handler po1))" using assms(2) po1(5) by (simp add: others_same_def)
  from silent_run [OF po1(2) r(2), of 4] this po1(3) obtain po2 where
    "port_run (expiries pe 5) po1 = Inr (po2, replicate 4 ?m)" "m_currentClient (po_sched po2) = None"
    "m_pending (po_sched po2) = []" "m_activeRequest (c_parser (client po2 c)) = None"
    "c_written (client po2 c) = c_written (client po1 c) @ [''ERRTIMEOUT'']" "others_same c po1 po2"
    by (auto simp: numeral_eq_Suc)
  then show ?thesis
    using po1 others_same_trans [OF po1(5)]
    by (auto simp: others_same_def numeral_eq_Suc simp del: expiries.simps)
qed

lemma startRequest_sends:
  assumes "0 < n"
  shows "\<exists>p'. startRequest d t off n new raw p = sendCommand d t (of_nat off) [of_nat n] True p'"
  using assms unfolding startRequest_def continueRequest_def by (auto simp: Let_def)

definition errors_line :: string where
  "errors_line = ''rc activeerrors\<newline>''"

lemma errors_line_parse:
  "\<exists>s p. parse example_env (Some RBT.empty) (stream_of errors_line) idle_parser =
     reply Ok s (sendCommand addressUI800 0x00bf 0 [20] True p)"
proof -
  have w: "read_string (stream_of errors_line) = (''rc'', stream_of '' activeerrors\<newline>'')"
    "fst (read_string (stream_of '' activeerrors\<newline>'')) = ''activeerrors''"
    by code_simp+
  obtain p where "startRequest addressUI800 0x00bf 0 20 True False idle_parser =
      sendCommand addressUI800 0x00bf 0 [20] True p"
    using startRequest_sends [of 20 addressUI800 "0x00bf" 0 True False idle_parser] by auto
  then show ?thesis
    unfolding parse_def w(1) prod.case handleRcCommand_def
    using w(2) by (auto simp: case_prod_beta)
qed

lemma silent_device_reported_witness:
  "\<exists>po'. port_run ((port_env_example 0, RequestRead 0 errors_line) # expiries (port_env_example 0) 5)
       connected_port = Inr (po', replicate 5 (sendMessage_ctor addressUI800 0x00bf 0 [20] True))
    \<and> c_written (client po' 0) = [''ERRTIMEOUT'']"
proof -
  obtain s p where "parse example_env (Some RBT.empty) (stream_of errors_line) idle_parser =
     reply Ok s (sendCommand addressUI800 0x00bf 0 [20] True p)"
    using errors_line_parse by blast
  then show ?thesis
    using silent_device_reported [of 0 connected_port errors_line "port_env_example 0" s addressUI800 "0x00bf" 0 "[20]" p]
    by (fastforce simp: connected_port_simps port_env_example_def errors_line_def simp del: expiries.simps)
qed

text \<open>
  A command that prints \<open>OK\<close> itself and writes to the bus is confirmed twice, the second time when the
  made-up answer arrives, so that a client which reads one answer for each request is one line behind
  from then on.
\<close>

lemma reset_confirmed_twice:
  "case port_run [(port_env_example 0, RequestRead 0 ''uba resetmaintenanceindicator\<newline>''),
        (port_env_example 200, Bus ResponseTimerExpired)] connected_port of
     Inl f \<Rightarrow> False
   | Inr (po, out) \<Rightarrow> c_written (client po 0) = [''OK'', ''OK''] \<and> length out = 1"
  by code_simp

end

