(* ===== verification/StrayAnswer.thy ===== *)
theory StrayAnswer
  imports CommandService
begin

text \<open>
  What an unexpected telegram does to the client that is being served (\<open>CommandScheduler.cpp\<close>): every
  telegram for the collector stops the timeout and goes on with the next request, also one that does not
  answer the request under way, such as the second answer to a request that was repeated.
\<close>

unbundle bit_operations_syntax

section \<open>A telegram that is not the answer\<close>

definition stray :: "ems_message \<Rightarrow> parser \<Rightarrow> bool" where
  "stray m p \<longleftrightarrow> getType m \<noteq> 0xff \<and> (m_source m \<noteq> m_requestDestination p \<or> getType m \<noteq> m_requestType p
     \<or> unat (m_offset m) \<noteq> length (m_requestResponse p) + m_requestOffset p)"

text \<open>The client waits for an answer, but the scheduler does not know it any more and no timer of it runs.\<close>

definition stranded :: "nat \<Rightarrow> port \<Rightarrow> bool" where
  "stranded b po \<longleftrightarrow> b \<notin> clients_of (po_sched po) \<and> m_activeRequest (c_parser (client po b)) \<noteq> None
     \<and> \<not> waits (client po b)"

lemma stray_ignored:
  assumes "stray m (c_parser conn)"
  shows "connection_onIncomingMessage junk conn m = Inr (conn, [])"
  using assms by (auto simp: stray_def connection_onIncomingMessage_def onIncomingMessage_def absorb_def lines_of_def
      sends_of_def posted_of_def)

lemma stray_step:
  assumes "m_currentClient (po_sched po) = Some b" and "b \<notin> fst ` set (m_pending (po_sched po))"
    and "b \<in> set (ch_connections (po_handler po))" and "m_activeRequest (c_parser (client po b)) \<noteq> None"
    and "\<not> waits (client po b)" and "stray m (c_parser (client po b))"
  shows "\<exists>po' out. port_step pe (Bus (PcMessageReceived m)) po = Inr (po', out) \<and> stranded b po'
    \<and> client po' b = client po b"
proof -
  let ?s = "(po_sched po)\<lparr>m_lastCommTimes := RBT.insert (unat (m_source m)) (pe_now pe) (m_lastCommTimes (po_sched po)),
    m_responseTimeout := None\<rparr>"
  define s1 where "s1 = after_callback b (client po b, []) ?s"
  obtain s' out where s': "continueWithNextRequest (pe_now pe) s1 = (s', out)" by fastforce
  have "handlePcMessage (connection_ops (pe_junk pe)) (pe_now pe) m (po_sched po) = Inr (s', out)"
    using assms(1) stray_ignored [OF assms(6), of "pe_junk pe"] s'
    by (simp add: handlePcMessage_def connection_ops_def s1_def client_def Let_def)
  moreover have "s_clients s' = s_clients (po_sched po)"
    using continue_clients(2) [of "pe_now pe" s1] s'
    by (simp add: s1_def after_callback_def client_def fun_upd_idem)
  moreover have "b \<notin> clients_of s'"
  proof (cases "m_pending (po_sched po)")
    case Nil
    then show ?thesis using s' by (auto simp: continueWithNextRequest_def s1_def after_callback_def clients_of_def)
  next
    case (Cons x rest)
    then show ?thesis
      using s' assms(2) sendMessage_clients(1) [of "pe_now pe" "snd x" "s1\<lparr>m_currentClient := Some (fst x)\<rparr>"]
      by (auto simp: continueWithNextRequest_def s1_def after_callback_def clients_of_def case_prod_beta)
  qed
  ultimately show ?thesis
    using assms(1,3-5)
    by (simp add: bus_event_def callback_of_def sched_event_def alive_def stranded_def client_def Let_def)
qed

section \<open>It stays stranded\<close>

definition refusals :: "string set" where
  "refusals = {''ERRBUSY'', ''ERRCMD''}"

text \<open>What a client of the scheduler does besides its callbacks.\<close>

lemma connection_ran_other:
  assumes "b \<noteq> c \<or> snd r = []" and "b \<notin> clients_of (po_sched po)"
  shows "b \<notin> clients_of (po_sched (fst (connection_ran now c r po)))
    \<and> client (fst (connection_ran now c r po)) b = (if b = c then fst r else client po b)"
proof -
  let ?s = "(po_sched po)\<lparr>s_clients := (s_clients (po_sched po))(c := fst r)\<rparr>"
  have "clients_of ?s = clients_of (po_sched po)" by (simp add: clients_of_def)
  moreover have "b \<notin> clients_of (fst (submit_all now c (snd r) ?s))"
    using submit_all_clients [of now c "snd r" ?s] assms calculation by (cases "b = c") auto
  ultimately show ?thesis
    using submit_all_clients [of now c "snd r" ?s] by (simp add: connection_ran_def case_prod_beta client_def)
qed

lemma stranded_request:
  assumes "m_activeRequest (c_parser conn) \<noteq> None" and "handleRequest env cache conn = Inr (conn', ms)"
  shows "ms = [] \<and> c_parser conn' = c_parser conn \<and> c_posted conn' = c_posted conn
    \<and> (\<exists>e \<in> refusals. c_written conn' = c_written conn @ [e])"
  using assms by (auto simp: handleRequest_def parse_def reply_def absorb_def lines_of_def sends_of_def posted_of_def
      respond_def refusals_def split: if_splits)

text \<open>The client is as it was, but for refusals.\<close>

definition refused :: "nat \<Rightarrow> port \<Rightarrow> port \<Rightarrow> bool" where
  "refused b po po' \<longleftrightarrow> stranded b po' \<and> c_parser (client po' b) = c_parser (client po b)
    \<and> (\<exists>es. set es \<subseteq> refusals \<and> c_written (client po' b) = c_written (client po b) @ es)"

lemma refused_same:
  "stranded b po \<Longrightarrow> b \<notin> clients_of (po_sched po') \<Longrightarrow> client po' b = client po b \<Longrightarrow> refused b po po'"
  by (auto simp: refused_def stranded_def intro: exI [of _ "[]"])

lemma refused_self: "stranded b po \<Longrightarrow> refused b po po"
  by (rule refused_same) (simp_all add: stranded_def)

lemma stranded_ran:
  assumes "stranded b po" and "b \<noteq> c"
  shows "refused b po (fst (connection_ran now c r po))"
  using connection_ran_other [of b c r po now] assms by (intro refused_same) (simp_all add: stranded_def)

lemma stranded_timers:
  assumes "stranded b po"
  shows "refused b po (fst (connection_ran now c (connection_testTimer (client po c)) po))"
    and "refused b po (fst (connection_ran now c (connection_postedWait (client po c)) po))"
  using stranded_ran [OF assms, of c] connection_ran_same [of po b now] refused_self [OF assms] assms
  by (cases "b = c"; simp add: stranded_def)+

lemma stranded_read:
  assumes "stranded b po" and "request_read pe c data po = Inr (po', out)"
  shows "refused b po po'"
proof (cases "c \<in> set (ch_reading (po_handler po))")
  case False
  then show ?thesis using assms refused_self by (simp add: request_read_def)
next
  case True
  let ?conn = "(client po c)\<lparr>c_request := c_request (client po c) @ data\<rparr>"
  obtain r where r: "handleRequest (pe_env pe) (pe_cache pe) ?conn = Inr r" "connection_ran (pe_now pe) c r po = (po', out)"
    using True assms(2) by (simp add: request_read_def bindR_Inr_iff) blast
  show ?thesis
  proof (cases "c = b")
    case True
    then have s: "snd r = []" "c_parser (fst r) = c_parser (client po b)" "c_posted (fst r) = c_posted (client po b)"
      "\<exists>e \<in> refusals. c_written (fst r) = c_written (client po b) @ [e]"
      using stranded_request [of ?conn "pe_env pe" "pe_cache pe" "fst r" "snd r"] r(1) assms(1)
      by (simp_all add: stranded_def)
    have c: "b \<notin> clients_of (po_sched po')" "client po' b = fst r"
      using connection_ran_other [of b c r po "pe_now pe"] s(1) assms(1) r(2) True by (simp_all add: stranded_def)
    obtain err where "err \<in> refusals" "c_written (fst r) = c_written (client po b) @ [err]" using s(4) by blast
    then show ?thesis using c s(2,3) assms(1) by (simp add: refused_def stranded_def waits_def)
  next
    case False
    then show ?thesis using stranded_ran [OF assms(1), of c "pe_now pe" r] r(2) by simp
  qed
qed

lemma stranded_bus:
  assumes "stranded b po" and "bus_event pe e po = Inr (po', out)" and "\<And>c m. e \<noteq> Submit c m"
  shows "refused b po po'"
proof -
  obtain s' where s': "sched_event (connection_ops (pe_junk pe)) (pe_now pe) e (po_sched po) = Inr (s', out)" "po_sched po' = s'"
    using assms(2) by (auto simp: bus_event_def Let_def bindR_Inr_iff split: option.splits if_splits)
  have "callback_of (pe_now pe) e (po_sched po) \<noteq> Some b"
    using callback_client [of "pe_now pe" e "po_sched po" b] assms(1) by (auto simp: stranded_def)
  then show ?thesis
    using sched_event_clients [OF s'(1) assms(3)] s'(2) assms(1)
    by (intro refused_same) (auto simp: stranded_def client_def)
qed

lemma stranded_step:
  assumes "stranded b po" and "port_step pe e po = Inr (po', out)" and "\<And>c m. e \<noteq> Bus (Submit c m)"
  shows "refused b po po'"
proof (cases e)
  case (RequestRead c data)
  then show ?thesis using stranded_read [OF assms(1)] assms(2) by simp
next
  case (TestTimer c)
  then have "po' = fst (connection_ran (pe_now pe) c (connection_testTimer (client po c)) po) \<or> po' = po"
    using assms(2) by (auto simp: test_timer_def split: if_splits option.splits prod.splits test_wait.splits)
  then show ?thesis using stranded_timers(1) [OF assms(1)] refused_self [OF assms(1)] by auto
next
  case (PostedWait c)
  show ?thesis
  proof (cases "alive (po_handler po) c")
    case True
    then have "po' = fst (connection_ran (pe_now pe) c (connection_postedWait (client po c)) po)"
      using assms(2) PostedWait by (simp add: posted_wait_def)
    then show ?thesis using stranded_timers(2) [OF assms(1)] by simp
  next
    case False
    have "c_posted (client po b) = []" using assms(1) by (simp add: stranded_def waits_def)
    then show ?thesis
      using False assms(1,2) PostedWait
      by (intro refused_same) (auto simp: posted_wait_def stranded_def client_def clients_of_def split: list.splits test_wait.splits)
  qed
next
  case (Bus e')
  then show ?thesis using stranded_bus [OF assms(1), of pe e' po' out] assms(2,3) by simp
qed (use refused_same assms(1,2) in \<open>auto simp: stranded_def client_def\<close>)

text \<open>Only parsers submit requests.\<close>

definition no_submit :: "port_env \<times> port_event \<Rightarrow> bool" where
  "no_submit pe = (case snd pe of Bus (Submit c m) \<Rightarrow> False | _ \<Rightarrow> True)"

lemma stranded_run:
  "stranded b po \<Longrightarrow> port_run evs po = Inr (po', out) \<Longrightarrow> list_all no_submit evs \<Longrightarrow>
    c_parser (client po' b) = c_parser (client po b)
    \<and> (\<exists>es. set es \<subseteq> refusals \<and> c_written (client po' b) = c_written (client po b) @ es)"
proof (induction evs arbitrary: po out)
  case (Cons x evs)
  obtain pe e where x: "x = (pe, e)" by (cases x)
  obtain po1 o1 o2 where r: "port_step pe e po = Inr (po1, o1)" "port_run evs po1 = Inr (po', o2)"
    using Cons.prems(2) x by (auto simp: bindR_Inr_iff simp del: port_step.simps)
  have "e \<noteq> Bus (Submit c m)" for c m using Cons.prems(3) x by (auto simp: no_submit_def)
  from stranded_step [OF Cons.prems(1) r(1) this] obtain es where
    1: "stranded b po1" "c_parser (client po1 b) = c_parser (client po b)" "set es \<subseteq> refusals"
      "c_written (client po1 b) = c_written (client po b) @ es" unfolding refused_def by blast
  from Cons.IH [OF 1(1) r(2)] Cons.prems(3) obtain es' where
    "c_parser (client po' b) = c_parser (client po1 b)" "set es' \<subseteq> refusals"
    "c_written (client po' b) = c_written (client po1 b) @ es'" by auto
  then show ?case using 1 by (auto intro: exI [of _ "es @ es'"])
qed (auto intro: exI [of _ "[]"])

section \<open>Properties\<close>

text \<open>
  C38: a telegram for the collector that does not answer the request under way ends the service of its
  client without a word: the client is told nothing, its answer is ignored when it comes, no timeout will
  be reported, and all its further lines are refused as busy (or as too short), whatever anybody does.
\<close>

theorem stray_answer_strands_client:
  assumes "m_currentClient (po_sched po) = Some b" and "b \<notin> fst ` set (m_pending (po_sched po))"
    and "b \<in> set (ch_connections (po_handler po))" and "m_activeRequest (c_parser (client po b)) \<noteq> None"
    and "\<not> waits (client po b)" and "stray m (c_parser (client po b))"
    and "list_all no_submit evs" and "port_run ((pe, Bus (PcMessageReceived m)) # evs) po = Inr (po', out)"
  shows "c_parser (client po' b) = c_parser (client po b)
    \<and> (\<exists>es. set es \<subseteq> refusals \<and> c_written (client po' b) = c_written (client po b) @ es)"
proof -
  obtain po1 o1 where 1: "port_step pe (Bus (PcMessageReceived m)) po = Inr (po1, o1)" "stranded b po1"
    "client po1 b = client po b"
    using stray_step [OF assms(1-6), of pe] by blast
  then obtain o2 where "port_run evs po1 = Inr (po', o2)"
    using assms(8) by (auto simp: bindR_Inr_iff)
  from stranded_run [OF 1(2) this assms(7)] show ?thesis using 1(3) by simp
qed

text \<open>A broadcast of the clock to the collector comes while the active faults are being read.\<close>

definition clock_broadcast :: ems_message where
  "clock_broadcast = receivedMessage [0x10, 0x0b, 0x06, 0, 1, 2, 3, 4, 5, 6, 7, 8]"

lemma stray_answer_strands_client_witness:
  "\<exists>po po' out out'. port_run [(port_env_example 0, RequestRead 0 errors_line)] connected_port = Inr (po, out)
    \<and> port_run [(port_env_example 500, Bus (PcMessageReceived clock_broadcast)),
         (port_env_example 600, RequestRead 0 ''rc help\<newline>'')] po = Inr (po', out')
    \<and> c_written (client po' 0) \<noteq> [] \<and> set (c_written (client po' 0)) \<subseteq> refusals
    \<and> m_activeRequest (c_parser (client po' 0)) \<noteq> None"
proof -
  let ?evs = "[(port_env_example 600, RequestRead 0 ''rc help\<newline>'')]"
  let ?all = "(port_env_example 500, Bus (PcMessageReceived clock_broadcast)) # ?evs"
  have "case port_run [(port_env_example 0, RequestRead 0 errors_line)] connected_port of Inl f \<Rightarrow> False
    | Inr (po, out) \<Rightarrow> m_currentClient (po_sched po) = Some 0 \<and> m_pending (po_sched po) = []
        \<and> ch_connections (po_handler po) = [0] \<and> c_written (client po 0) = []
        \<and> m_activeRequest (c_parser (client po 0)) \<noteq> None
        \<and> m_testMode (c_parser (client po 0)) = None \<and> c_posted (client po 0) = []
        \<and> getType clock_broadcast \<noteq> 0xff \<and> getType clock_broadcast \<noteq> m_requestType (c_parser (client po 0))
        \<and> (case port_run ?all po of Inl f \<Rightarrow> False | Inr (po', out) \<Rightarrow> c_written (client po' 0) \<noteq> [])"
    by code_simp
  then obtain po out where po: "port_run [(port_env_example 0, RequestRead 0 errors_line)] connected_port = Inr (po, out)"
    "m_currentClient (po_sched po) = Some 0" "m_pending (po_sched po) = []" "ch_connections (po_handler po) = [0]"
    "c_written (client po 0) = []" "m_activeRequest (c_parser (client po 0)) \<noteq> None" "\<not> waits (client po 0)"
    "stray clock_broadcast (c_parser (client po 0))"
    "case port_run ?all po of Inl f \<Rightarrow> False | Inr (po', out) \<Rightarrow> c_written (client po' 0) \<noteq> []"
    by (auto simp: stray_def waits_def simp del: port_run.simps split: sum.splits prod.splits)
  then obtain po' out' where po': "port_run ?all po = Inr (po', out')" "c_written (client po' 0) \<noteq> []"
    by (auto simp del: port_run.simps split: sum.splits prod.splits)
  have "c_parser (client po' 0) = c_parser (client po 0)
    \<and> (\<exists>es. set es \<subseteq> refusals \<and> c_written (client po' 0) = c_written (client po 0) @ es)"
    by (rule stray_answer_strands_client [OF po(2) _ _ po(6-8) _ po'(1)]) (simp_all add: po(3,4) no_submit_def)
  then show ?thesis using po(1,5,6) po' by (auto simp del: port_run.simps)
qed

end
