(* ===== verification/Database.thy ===== *)
theory Database
  imports EmsMessage KeyedStore
begin

text \<open>
  The history in the MySQL database (\<open>Database.h\<close>, \<open>Database.cpp\<close>): which sensor a reading belongs
  to, the rate limit, and the rows that are written.  The server is not modelled: an operation
  yields the statements it executes, and the identifier of an inserted row (or the failure) is an
  argument.  What the statements do to a table is the specification \<open>apply_query\<close>.
\<close>

section \<open>Sensors\<close>

datatype numeric_sensor =
    SensorKesselSollTemp
  | SensorKesselIstTemp
  | SensorWarmwasserSollTemp
  | SensorWarmwasserIstTemp
  | SensorVorlaufHK1SollTemp
  | SensorVorlaufHK1IstTemp
  | SensorVorlaufHK2SollTemp
  | SensorVorlaufHK2IstTemp
  | SensorMischersteuerung
  | SensorRuecklaufTemp
  | SensorAussenTemp
  | SensorGedaempfteAussenTemp
  | SensorRaumSollTemp
  | SensorRaumIstTemp
  | SensorMomLeistung
  | SensorMaxLeistung
  | SensorFlammenstrom
  | SensorSystemdruck
  | SensorBetriebszeit
  | SensorHeizZeit
  | SensorBrennerstarts
  | SensorWarmwasserbereitungsZeit
  | SensorWarmwasserBereitungen
  | SensorPumpenModulation
  | SensorWaermetauscherTemp
  | SensorWarmwasserDurchfluss
  | SensorSolarSpeicherTemp
  | SensorSolarKollektorTemp

primrec numeric_sensor_number :: "numeric_sensor \<Rightarrow> nat" where
  "numeric_sensor_number SensorKesselSollTemp = 1"
| "numeric_sensor_number SensorKesselIstTemp = 2"
| "numeric_sensor_number SensorWarmwasserSollTemp = 3"
| "numeric_sensor_number SensorWarmwasserIstTemp = 4"
| "numeric_sensor_number SensorVorlaufHK1SollTemp = 5"
| "numeric_sensor_number SensorVorlaufHK1IstTemp = 6"
| "numeric_sensor_number SensorVorlaufHK2SollTemp = 7"
| "numeric_sensor_number SensorVorlaufHK2IstTemp = 8"
| "numeric_sensor_number SensorMischersteuerung = 9"
| "numeric_sensor_number SensorRuecklaufTemp = 10"
| "numeric_sensor_number SensorAussenTemp = 11"
| "numeric_sensor_number SensorGedaempfteAussenTemp = 12"
| "numeric_sensor_number SensorRaumSollTemp = 13"
| "numeric_sensor_number SensorRaumIstTemp = 14"
| "numeric_sensor_number SensorMomLeistung = 15"
| "numeric_sensor_number SensorMaxLeistung = 16"
| "numeric_sensor_number SensorFlammenstrom = 17"
| "numeric_sensor_number SensorSystemdruck = 18"
| "numeric_sensor_number SensorBetriebszeit = 19"
| "numeric_sensor_number SensorHeizZeit = 23"
| "numeric_sensor_number SensorBrennerstarts = 20"
| "numeric_sensor_number SensorWarmwasserbereitungsZeit = 21"
| "numeric_sensor_number SensorWarmwasserBereitungen = 22"
| "numeric_sensor_number SensorPumpenModulation = 24"
| "numeric_sensor_number SensorWaermetauscherTemp = 25"
| "numeric_sensor_number SensorWarmwasserDurchfluss = 26"
| "numeric_sensor_number SensorSolarSpeicherTemp = 27"
| "numeric_sensor_number SensorSolarKollektorTemp = 28"

definition numeric_sensors :: "numeric_sensor list" where
  "numeric_sensors = [
     SensorKesselSollTemp, SensorKesselIstTemp, SensorWarmwasserSollTemp,
     SensorWarmwasserIstTemp, SensorVorlaufHK1SollTemp, SensorVorlaufHK1IstTemp,
     SensorVorlaufHK2SollTemp, SensorVorlaufHK2IstTemp, SensorMischersteuerung,
     SensorRuecklaufTemp, SensorAussenTemp, SensorGedaempfteAussenTemp, SensorRaumSollTemp,
     SensorRaumIstTemp, SensorMomLeistung, SensorMaxLeistung, SensorFlammenstrom,
     SensorSystemdruck, SensorBetriebszeit, SensorHeizZeit, SensorBrennerstarts,
     SensorWarmwasserbereitungsZeit, SensorWarmwasserBereitungen, SensorPumpenModulation,
     SensorWaermetauscherTemp, SensorWarmwasserDurchfluss, SensorSolarSpeicherTemp,
     SensorSolarKollektorTemp]"

datatype boolean_sensor =
    SensorFlamme
  | SensorBrenner
  | SensorZuendung
  | SensorKesselPumpe
  | Sensor3WegeVentil
  | SensorHK1Automatik
  | SensorHK1Tagbetrieb
  | SensorHK1Pumpe
  | SensorHK1Ferien
  | SensorHK1Party
  | SensorHK2Automatik
  | SensorHK2Tagbetrieb
  | SensorHK2Pumpe
  | SensorHK2Ferien
  | SensorHK2Party
  | SensorWarmwasserBereitung
  | SensorWarmwasserTempOK
  | SensorZirkulation
  | SensorZirkulationTagbetrieb
  | SensorWWVorrang
  | SensorWWTagbetrieb
  | SensorSommerbetrieb
  | SensorSolarPumpe
  | BooleanSensorLast

primrec boolean_sensor_number :: "boolean_sensor \<Rightarrow> nat" where
  "boolean_sensor_number SensorFlamme = 100"
| "boolean_sensor_number SensorBrenner = 101"
| "boolean_sensor_number SensorZuendung = 102"
| "boolean_sensor_number SensorKesselPumpe = 103"
| "boolean_sensor_number Sensor3WegeVentil = 106"
| "boolean_sensor_number SensorHK1Automatik = 122"
| "boolean_sensor_number SensorHK1Tagbetrieb = 104"
| "boolean_sensor_number SensorHK1Pumpe = 116"
| "boolean_sensor_number SensorHK1Ferien = 118"
| "boolean_sensor_number SensorHK1Party = 119"
| "boolean_sensor_number SensorHK2Automatik = 123"
| "boolean_sensor_number SensorHK2Tagbetrieb = 105"
| "boolean_sensor_number SensorHK2Pumpe = 117"
| "boolean_sensor_number SensorHK2Ferien = 120"
| "boolean_sensor_number SensorHK2Party = 121"
| "boolean_sensor_number SensorWarmwasserBereitung = 110"
| "boolean_sensor_number SensorWarmwasserTempOK = 114"
| "boolean_sensor_number SensorZirkulation = 107"
| "boolean_sensor_number SensorZirkulationTagbetrieb = 124"
| "boolean_sensor_number SensorWWVorrang = 115"
| "boolean_sensor_number SensorWWTagbetrieb = 112"
| "boolean_sensor_number SensorSommerbetrieb = 113"
| "boolean_sensor_number SensorSolarPumpe = 125"
| "boolean_sensor_number BooleanSensorLast = 126"

definition boolean_sensors :: "boolean_sensor list" where
  "boolean_sensors = [
     SensorFlamme, SensorBrenner, SensorZuendung, SensorKesselPumpe, Sensor3WegeVentil,
     SensorHK1Automatik, SensorHK1Tagbetrieb, SensorHK1Pumpe, SensorHK1Ferien, SensorHK1Party,
     SensorHK2Automatik, SensorHK2Tagbetrieb, SensorHK2Pumpe, SensorHK2Ferien, SensorHK2Party,
     SensorWarmwasserBereitung, SensorWarmwasserTempOK, SensorZirkulation,
     SensorZirkulationTagbetrieb, SensorWWVorrang, SensorWWTagbetrieb, SensorSommerbetrieb,
     SensorSolarPumpe, BooleanSensorLast]"

datatype state_sensor =
    SensorServiceCode
  | SensorFehlerCode
  | SensorStoerungsCode
  | SensorStoerungsNummer
  | StateSensorLast

primrec state_sensor_number :: "state_sensor \<Rightarrow> nat" where
  "state_sensor_number SensorServiceCode = 200"
| "state_sensor_number SensorFehlerCode = 201"
| "state_sensor_number SensorStoerungsCode = 202"
| "state_sensor_number SensorStoerungsNummer = 203"
| "state_sensor_number StateSensorLast = 204"

definition state_sensors :: "state_sensor list" where
  "state_sensors = [
     SensorServiceCode, SensorFehlerCode, SensorStoerungsCode, SensorStoerungsNummer,
     StateSensorLast]"

text \<open>A sensor of any kind; all have different numbers, so one map holds the last row of each.\<close>

datatype sensor = NumericSensor numeric_sensor | BooleanSensor boolean_sensor | StateSensor state_sensor

primrec sensor_number :: "sensor \<Rightarrow> nat" where
  "sensor_number (NumericSensor s) = numeric_sensor_number s"
| "sensor_number (BooleanSensor s) = boolean_sensor_number s"
| "sensor_number (StateSensor s) = state_sensor_number s"

definition sensorTypeNumeric :: nat where "sensorTypeNumeric = 1"
definition sensorTypeBoolean :: nat where "sensorTypeBoolean = 2"
definition sensorTypeState :: nat where "sensorTypeState = 3"
definition readingTypeNone :: nat where "readingTypeNone = 0"
definition readingTypeTemperature :: nat where "readingTypeTemperature = 1"
definition readingTypePercent :: nat where "readingTypePercent = 2"
definition readingTypeCurrent :: nat where "readingTypeCurrent = 3"
definition readingTypePressure :: nat where "readingTypePressure = 4"
definition readingTypeTime :: nat where "readingTypeTime = 5"
definition readingTypeCount :: nat where "readingTypeCount = 6"
definition readingTypeFlowRate :: nat where "readingTypeFlowRate = 7"

text \<open>The sensor table: sensor, value type, name, reading type, unit and precision.\<close>

type_synonym sensor_row = "sensor \<times> nat \<times> string \<times> nat option \<times> string option \<times> nat option"

definition createSensorRows :: "sensor_row list" where
  "createSensorRows = [
     (NumericSensor SensorKesselSollTemp, sensorTypeNumeric, ''Kessel-Soll-Temperatur'', Some readingTypeTemperature, Some ([CHR 0xC2, CHR 0xB0] @ ''C''), Some 0),
     (NumericSensor SensorKesselIstTemp, sensorTypeNumeric, ''Kessel-Ist-Temperatur'', Some readingTypeTemperature, Some ([CHR 0xC2, CHR 0xB0] @ ''C''), Some 1),
     (NumericSensor SensorWarmwasserSollTemp, sensorTypeNumeric, ''Warmwasser-Soll-Temperatur'', Some readingTypeTemperature, Some ([CHR 0xC2, CHR 0xB0] @ ''C''), Some 0),
     (NumericSensor SensorWarmwasserIstTemp, sensorTypeNumeric, ''Warmwasser-Ist-Temperatur'', Some readingTypeTemperature, Some ([CHR 0xC2, CHR 0xB0] @ ''C''), Some 1),
     (NumericSensor SensorVorlaufHK1SollTemp, sensorTypeNumeric, ''Vorlauf HK1-Soll-Temperatur'', Some readingTypeTemperature, Some ([CHR 0xC2, CHR 0xB0] @ ''C''), Some 0),
     (NumericSensor SensorVorlaufHK1IstTemp, sensorTypeNumeric, ''Vorlauf HK1-Ist-Temperatur'', Some readingTypeTemperature, Some ([CHR 0xC2, CHR 0xB0] @ ''C''), Some 1),
     (NumericSensor SensorVorlaufHK2SollTemp, sensorTypeNumeric, ''Vorlauf HK2-Soll-Temperatur'', Some readingTypeTemperature, Some ([CHR 0xC2, CHR 0xB0] @ ''C''), Some 0),
     (NumericSensor SensorVorlaufHK2IstTemp, sensorTypeNumeric, ''Vorlauf HK2-Ist-Temperatur'', Some readingTypeTemperature, Some ([CHR 0xC2, CHR 0xB0] @ ''C''), Some 1),
     (NumericSensor SensorMischersteuerung, sensorTypeNumeric, ''Mischersteuerung'', Some readingTypeNone, Some (''''), Some 0),
     (NumericSensor SensorRuecklaufTemp, sensorTypeNumeric, ''R'' @ [CHR 0xC3, CHR 0xBC] @ ''cklauftemperatur'', Some readingTypeTemperature, Some ([CHR 0xC2, CHR 0xB0] @ ''C''), Some 1),
     (NumericSensor SensorAussenTemp, sensorTypeNumeric, ''Au'' @ [CHR 0xC3, CHR 0x9F] @ ''entemperatur'', Some readingTypeTemperature, Some ([CHR 0xC2, CHR 0xB0] @ ''C''), Some 1),
     (NumericSensor SensorGedaempfteAussenTemp, sensorTypeNumeric, ''Ged'' @ [CHR 0xC3, CHR 0xA4] @ ''mpfte Au'' @ [CHR 0xC3, CHR 0x9F] @ ''entemperatur'', Some readingTypeTemperature, Some ([CHR 0xC2, CHR 0xB0] @ ''C''), Some 0),
     (NumericSensor SensorRaumSollTemp, sensorTypeNumeric, ''Raum-Soll-Temperatur'', Some readingTypeTemperature, Some ([CHR 0xC2, CHR 0xB0] @ ''C''), Some 1),
     (NumericSensor SensorRaumIstTemp, sensorTypeNumeric, ''Raum-Ist-Temperatur'', Some readingTypeTemperature, Some ([CHR 0xC2, CHR 0xB0] @ ''C''), Some 1),
     (NumericSensor SensorMomLeistung, sensorTypeNumeric, ''Momentane Leistung'', Some readingTypePercent, Some (''%''), Some 0),
     (NumericSensor SensorMaxLeistung, sensorTypeNumeric, ''Maximale Leistung'', Some readingTypePercent, Some (''%''), Some 0),
     (NumericSensor SensorFlammenstrom, sensorTypeNumeric, ''Flammenstrom'', Some readingTypeCurrent, Some ([CHR 0xC2, CHR 0xB5] @ ''A''), Some 1),
     (NumericSensor SensorSystemdruck, sensorTypeNumeric, ''Systemdruck'', Some readingTypePressure, Some (''bar''), Some 1),
     (NumericSensor SensorBrennerstarts, sensorTypeNumeric, ''Brennerstarts'', Some readingTypeCount, Some (''''), None),
     (NumericSensor SensorBetriebszeit, sensorTypeNumeric, ''Betriebszeit'', Some readingTypeTime, Some (''min''), None),
     (NumericSensor SensorHeizZeit, sensorTypeNumeric, ''Heizzeit'', Some readingTypeTime, Some (''min''), None),
     (NumericSensor SensorWarmwasserbereitungsZeit, sensorTypeNumeric, ''Warmwasserbereitungszeit'', Some readingTypeTime, Some (''min''), None),
     (NumericSensor SensorWarmwasserBereitungen, sensorTypeNumeric, ''Warmwasserbereitungen'', Some readingTypeCount, Some (''''), None),
     (NumericSensor SensorPumpenModulation, sensorTypeNumeric, ''Kesselpumpenmodulation'', Some readingTypePercent, Some (''%''), Some 0),
     (NumericSensor SensorWaermetauscherTemp, sensorTypeNumeric, ''Temperatur Ausgang Waermetauscher'', Some readingTypeTemperature, Some ([CHR 0xC2, CHR 0xB0] @ ''C''), Some 1),
     (NumericSensor SensorWarmwasserDurchfluss, sensorTypeNumeric, ''Warmwasserdurchfluss'', Some readingTypeFlowRate, Some (''l/min''), Some 1),
     (NumericSensor SensorSolarSpeicherTemp, sensorTypeNumeric, ''Solarspeicher-Ist-Temperatur'', Some readingTypeTemperature, Some ([CHR 0xC2, CHR 0xB0] @ ''C''), Some 1),
     (NumericSensor SensorSolarKollektorTemp, sensorTypeNumeric, ''Solarkollektor-Ist-Temperatur'', Some readingTypeTemperature, Some ([CHR 0xC2, CHR 0xB0] @ ''C''), Some 1),
     (BooleanSensor SensorFlamme, sensorTypeBoolean, ''Flamme'', None, None, None),
     (BooleanSensor SensorBrenner, sensorTypeBoolean, ''Brenner'', None, None, None),
     (BooleanSensor SensorZuendung, sensorTypeBoolean, ''Z'' @ [CHR 0xC3, CHR 0xBC] @ ''ndung'', None, None, None),
     (BooleanSensor SensorKesselPumpe, sensorTypeBoolean, ''Kessel-Pumpe'', None, None, None),
     (BooleanSensor Sensor3WegeVentil, sensorTypeBoolean, ''3-Wege-Ventil'', None, None, None),
     (BooleanSensor SensorZirkulation, sensorTypeBoolean, ''Zirkulation'', None, None, None),
     (BooleanSensor SensorZirkulationTagbetrieb, sensorTypeBoolean, ''Zirkulation-Tagbetrieb'', None, None, None),
     (BooleanSensor SensorWarmwasserBereitung, sensorTypeBoolean, ''Warmwasserbereitung'', None, None, None),
     (BooleanSensor SensorWWTagbetrieb, sensorTypeBoolean, ''WW-Tagbetrieb'', None, None, None),
     (BooleanSensor SensorSommerbetrieb, sensorTypeBoolean, ''Sommerbetrieb'', None, None, None),
     (BooleanSensor SensorWarmwasserTempOK, sensorTypeBoolean, ''Warmwassertemperatur OK'', None, None, None),
     (BooleanSensor SensorWWVorrang, sensorTypeBoolean, ''Warmwasservorrang'', None, None, None),
     (BooleanSensor SensorHK1Tagbetrieb, sensorTypeBoolean, ''HK1 Tagbetrieb'', None, None, None),
     (BooleanSensor SensorHK1Automatik, sensorTypeBoolean, ''HK1 Automatikbetrieb'', None, None, None),
     (BooleanSensor SensorHK1Pumpe, sensorTypeBoolean, ''HK1 Pumpe'', None, None, None),
     (BooleanSensor SensorHK1Ferien, sensorTypeBoolean, ''HK1 Ferien'', None, None, None),
     (BooleanSensor SensorHK1Party, sensorTypeBoolean, ''HK1 Party'', None, None, None),
     (BooleanSensor SensorHK2Tagbetrieb, sensorTypeBoolean, ''HK2 Tagbetrieb'', None, None, None),
     (BooleanSensor SensorHK2Automatik, sensorTypeBoolean, ''HK2 Automatikbetrieb'', None, None, None),
     (BooleanSensor SensorHK2Pumpe, sensorTypeBoolean, ''HK2 Pumpe'', None, None, None),
     (BooleanSensor SensorHK2Ferien, sensorTypeBoolean, ''HK2 Ferien'', None, None, None),
     (BooleanSensor SensorHK2Party, sensorTypeBoolean, ''HK2 Party'', None, None, None),
     (BooleanSensor SensorSolarPumpe, sensorTypeBoolean, ''Solar-Pumpe'', None, None, None),
     (StateSensor SensorServiceCode, sensorTypeState, ''Servicecode'', None, None, None),
     (StateSensor SensorFehlerCode, sensorTypeState, ''Fehlercode'', None, None, None),
     (StateSensor SensorStoerungsCode, sensorTypeState, ''Stoerungscode'', None, None, None),
     (StateSensor SensorStoerungsNummer, sensorTypeState, ''Stoerungsnummer'', None, None, None)]"

section \<open>The sensor of a reading\<close>

definition NUMERICMAPPING :: "(ems_type \<times> sub_type \<times> numeric_sensor) list" where
  "NUMERICMAPPING = [
     (NumT SollTemp, Kessel, SensorKesselSollTemp),
     (NumT IstTemp, Kessel, SensorKesselIstTemp),
     (NumT SollTemp, WW, SensorWarmwasserSollTemp),
     (NumT IstTemp, WW, SensorWarmwasserIstTemp),
     (NumT SollTemp, HK1, SensorVorlaufHK1SollTemp),
     (NumT IstTemp, HK1, SensorVorlaufHK1IstTemp),
     (NumT SollTemp, HK2, SensorVorlaufHK2SollTemp),
     (NumT IstTemp, HK2, SensorVorlaufHK2IstTemp),
     (NumT IstTemp, Ruecklauf, SensorRuecklaufTemp), (NumT IstTemp, Aussen, SensorAussenTemp),
     (NumT GedaempfteTemp, Aussen, SensorGedaempfteAussenTemp),
     (NumT RaumSollTemp, HK1, SensorRaumSollTemp), (NumT RaumIstTemp, HK1, SensorRaumIstTemp),
     (NumT Flammenstrom, NoSub, SensorFlammenstrom),
     (NumT Systemdruck, NoSub, SensorSystemdruck),
     (NumT IstTemp, Waermetauscher, SensorWaermetauscherTemp),
     (NumT DurchflussMenge, WW, SensorWarmwasserDurchfluss),
     (NumT IstTemp, SolarSpeicher, SensorSolarSpeicherTemp),
     (NumT IstTemp, SolarKollektor, SensorSolarKollektorTemp)]"

definition INTEGERMAPPING :: "(ems_type \<times> sub_type \<times> numeric_sensor) list" where
  "INTEGERMAPPING = [
     (IntT BetriebsZeit, Kessel, SensorBetriebszeit), (IntT HeizZeit, Kessel, SensorHeizZeit),
     (IntT Brennerstarts, Kessel, SensorBrennerstarts),
     (IntT WarmwasserbereitungsZeit, NoSub, SensorWarmwasserbereitungsZeit),
     (IntT WarmwasserBereitungen, NoSub, SensorWarmwasserBereitungen),
     (NumT Mischersteuerung, HK2, SensorMischersteuerung),
     (NumT IstModulation, Brenner, SensorMomLeistung),
     (NumT SollModulation, Brenner, SensorMaxLeistung),
     (NumT IstModulation, KesselPumpe, SensorPumpenModulation)]"

definition BOOLMAPPING :: "(ems_type \<times> sub_type \<times> boolean_sensor) list" where
  "BOOLMAPPING = [
     (BoolT FlammeAktiv, NoSub, SensorFlamme), (BoolT BrennerAktiv, NoSub, SensorBrenner),
     (BoolT ZuendungAktiv, NoSub, SensorZuendung),
     (BoolT PumpeAktiv, Kessel, SensorKesselPumpe),
     (BoolT DreiWegeVentilAufWW, NoSub, Sensor3WegeVentil),
     (BoolT Tagbetrieb, HK1, SensorHK1Tagbetrieb), (BoolT PumpeAktiv, HK1, SensorHK1Pumpe),
     (BoolT Ferien, HK1, SensorHK1Ferien), (BoolT Party, HK1, SensorHK1Party),
     (BoolT Tagbetrieb, HK2, SensorHK2Tagbetrieb), (BoolT PumpeAktiv, HK2, SensorHK2Pumpe),
     (BoolT Ferien, HK2, SensorHK2Ferien), (BoolT Party, HK2, SensorHK2Party),
     (BoolT WarmwasserBereitung, NoSub, SensorWarmwasserBereitung),
     (BoolT WarmwasserTempOK, NoSub, SensorWarmwasserTempOK),
     (BoolT ZirkulationAktiv, NoSub, SensorZirkulation),
     (BoolT Tagbetrieb, Zirkulation, SensorZirkulationTagbetrieb),
     (BoolT WWVorrang, NoSub, SensorWWVorrang), (BoolT Tagbetrieb, WW, SensorWWTagbetrieb),
     (BoolT Sommerbetrieb, NoSub, SensorSommerbetrieb),
     (BoolT PumpeAktiv, Solar, SensorSolarPumpe)]"

definition STATEMAPPING :: "(ems_type \<times> state_sensor) list" where
  "STATEMAPPING = [
     (OtherT FehlerCode, SensorFehlerCode), (OtherT ServiceCode, SensorServiceCode),
     (OtherT StoerungsCode, SensorStoerungsCode),
     (OtherT StoerungsNummer, SensorStoerungsNummer)]"

datatype sample =
    NumericSample numeric_sensor float32
  | BooleanSample boolean_sensor bool
  | StateSample state_sensor string

text \<open>The loops of \<open>handleValue\<close> over the tables: the first entry that matches.\<close>

definition find_mapping :: "('a \<times> 'b \<times> 's) list \<Rightarrow> ('a \<Rightarrow> 'b \<Rightarrow> bool) \<Rightarrow> 's option" where
  "find_mapping m matches = map_option (\<lambda>(t, st, s). s) (List.find (\<lambda>(t, st, s). matches t st) m)"

definition handleValue_sample :: "ems_value \<Rightarrow> sample option result" where
  "handleValue_sample v =
     (let type = v_type v; subtype = v_subType v
      in case find_mapping NUMERICMAPPING (\<lambda>t st. type = t \<and> subtype = st) of
           Some s \<Rightarrow> bindR (get_float (v_value v)) (\<lambda>x. Inr (Some (NumericSample s x)))
         | None \<Rightarrow>
      (case find_mapping INTEGERMAPPING (\<lambda>t st. type = t \<and> subtype = st) of
           Some s \<Rightarrow> bindR (get_uint (v_value v)) (\<lambda>x. Inr (Some (NumericSample s (float_of_int (uint x)))))
         | None \<Rightarrow>
      (case find_mapping BOOLMAPPING (\<lambda>t st. type = t \<and> (st = NoSub \<or> subtype = st)) of
           Some s \<Rightarrow> bindR (get_bool (v_value v)) (\<lambda>x. Inr (Some (BooleanSample s x)))
         | None \<Rightarrow>
      (case map_of STATEMAPPING type of
           Some s \<Rightarrow> bindR (get_string (v_value v)) (\<lambda>x. Inr (Some (StateSample s x)))
         | None \<Rightarrow>
             if type = EnumT Betriebsart \<and> (subtype = HK1 \<or> subtype = HK2)
             then bindR (get_byte (v_value v)) (\<lambda>x. Inr (Some (BooleanSample
                    (if subtype = HK2 then SensorHK2Automatik else SensorHK1Automatik) (x = 2))))
             else Inr None))))"

section \<open>State and statements\<close>

record database =
  m_connection :: bool
  m_lastWrites :: "(nat, int) rbt"
  m_numericCache :: "(nat, float32) rbt"
  m_booleanCache :: "(nat, bool) rbt"
  m_stateCache :: "(nat, string) rbt"
  m_lastInsertIds :: "(nat, nat) rbt"

definition database_init :: "bool \<Rightarrow> database" where
  "database_init connected = \<lparr>m_connection = connected, m_lastWrites = RBT.empty,
     m_numericCache = RBT.empty, m_booleanCache = RBT.empty, m_stateCache = RBT.empty,
     m_lastInsertIds = RBT.empty\<rparr>"

datatype db_value = NumericValue float32 | BooleanValue bool | StateValue string

definition numericTableName :: string where "numericTableName = ''numeric_data''"
definition booleanTableName :: string where "booleanTableName = ''boolean_data''"
definition stateTableName :: string where "stateTableName = ''state_data''"

text \<open>
  \<open>update t set endtime = e where id = i\<close>, and the insertion of a row with sensor, value, start and
  end time, which fails or yields the identifier of the row.
\<close>

datatype query =
    UpdateEnd string int nat
  | InsertRow string nat db_value int int "nat option"

definition checkAndUpdateRateLimit :: "int \<Rightarrow> nat \<Rightarrow> int \<Rightarrow> database \<Rightarrow> bool \<times> database" where
  "checkAndUpdateRateLimit limit sensor now db =
     (if limit = 0 then (True, db)
      else case RBT.lookup (m_lastWrites db) sensor of
          Some t \<Rightarrow> if now - t < limit then (False, db)
                    else (True, db\<lparr>m_lastWrites := RBT.insert sensor now (m_lastWrites db)\<rparr>)
        | None \<Rightarrow> (True, db\<lparr>m_lastWrites := RBT.insert sensor now (m_lastWrites db)\<rparr>))"

text \<open>What the three overloads of \<open>addSensorValue\<close> share; \<open>inserted\<close> is the outcome of an insertion.\<close>

definition record_value :: "string \<Rightarrow> ('v \<Rightarrow> db_value) \<Rightarrow> nat \<Rightarrow> 'v \<Rightarrow> int \<Rightarrow> nat option \<Rightarrow>
    (nat, 'v) rbt \<Rightarrow> (nat, nat) rbt \<Rightarrow> (nat, 'v) rbt \<times> (nat, nat) rbt \<times> query list" where
  "record_value table mk sensor value now inserted cache ids =
     (let valueChanged = (RBT.lookup cache sensor \<noteq> Some value);
          idValid = (case RBT.lookup ids sensor of None \<Rightarrow> False | Some i \<Rightarrow> i \<noteq> 0);
          update = (case RBT.lookup ids sensor of
                      None \<Rightarrow> [] | Some i \<Rightarrow> if i \<noteq> 0 then [UpdateEnd table now i] else [])
      in if valueChanged \<or> \<not> idValid
         then let insertion = [InsertRow table sensor (mk value) now now inserted]
              in case inserted of
                   Some i \<Rightarrow> (RBT.insert sensor value cache, RBT.insert sensor i ids, update @ insertion)
                 | None \<Rightarrow> (cache, ids, update @ insertion)
         else (cache, ids, update))"

definition addSensorValue_numeric ::
    "int \<Rightarrow> int \<Rightarrow> nat option \<Rightarrow> numeric_sensor \<Rightarrow> float32 \<Rightarrow> database \<Rightarrow> database \<times> query list" where
  "addSensorValue_numeric limit now inserted sensor value db =
     (let n = numeric_sensor_number sensor
      in if \<not> m_connection db then (db, [])
         else case checkAndUpdateRateLimit limit n now db of
             (False, db') \<Rightarrow> (db', [])
           | (True, db') \<Rightarrow>
               (case record_value numericTableName NumericValue n value now inserted
                       (m_numericCache db') (m_lastInsertIds db') of
                  (cache, ids, qs) \<Rightarrow> (db'\<lparr>m_numericCache := cache, m_lastInsertIds := ids\<rparr>, qs)))"

definition addSensorValue_boolean ::
    "int \<Rightarrow> nat option \<Rightarrow> boolean_sensor \<Rightarrow> bool \<Rightarrow> database \<Rightarrow> database \<times> query list" where
  "addSensorValue_boolean now inserted sensor value db =
     (if \<not> m_connection db then (db, [])
      else case record_value booleanTableName BooleanValue (boolean_sensor_number sensor) value now inserted
                  (m_booleanCache db) (m_lastInsertIds db) of
             (cache, ids, qs) \<Rightarrow> (db\<lparr>m_booleanCache := cache, m_lastInsertIds := ids\<rparr>, qs))"

definition addSensorValue_state ::
    "int \<Rightarrow> nat option \<Rightarrow> state_sensor \<Rightarrow> string \<Rightarrow> database \<Rightarrow> database \<times> query list" where
  "addSensorValue_state now inserted sensor value db =
     (if \<not> m_connection db then (db, [])
      else case record_value stateTableName StateValue (state_sensor_number sensor) value now inserted
                  (m_stateCache db) (m_lastInsertIds db) of
             (cache, ids, qs) \<Rightarrow> (db\<lparr>m_stateCache := cache, m_lastInsertIds := ids\<rparr>, qs))"

fun addSensorValue :: "int \<Rightarrow> int \<Rightarrow> nat option \<Rightarrow> sample \<Rightarrow> database \<Rightarrow> database \<times> query list" where
  "addSensorValue limit now inserted (NumericSample s x) db = addSensorValue_numeric limit now inserted s x db"
| "addSensorValue limit now inserted (BooleanSample s x) db = addSensorValue_boolean now inserted s x db"
| "addSensorValue limit now inserted (StateSample s x) db = addSensorValue_state now inserted s x db"

definition db_handleValue ::
    "int \<Rightarrow> int \<Rightarrow> nat option \<Rightarrow> ems_value \<Rightarrow> database \<Rightarrow> (database \<times> query list) result" where
  "db_handleValue limit now inserted v db =
     (if \<not> v_isValid v then Inr (db, [])
      else bindR (handleValue_sample v) (\<lambda>s. Inr (case s of
             None \<Rightarrow> (db, []) | Some x \<Rightarrow> addSensorValue limit now inserted x db)))"

section \<open>Sensors are kept apart\<close>

lemma sensor_lists:
  "set numeric_sensors = UNIV" "set boolean_sensors = UNIV" "set state_sensors = UNIV"
proof -
  have "s \<in> set numeric_sensors" for s by (cases s) (simp_all add: numeric_sensors_def)
  moreover have "s \<in> set boolean_sensors" for s by (cases s) (simp_all add: boolean_sensors_def)
  moreover have "s \<in> set state_sensors" for s by (cases s) (simp_all add: state_sensors_def)
  ultimately show "set numeric_sensors = UNIV" "set boolean_sensors = UNIV" "set state_sensors = UNIV"
    by blast+
qed

definition all_sensors :: "sensor list" where
  "all_sensors = map NumericSensor numeric_sensors @ map BooleanSensor boolean_sensors @ map StateSensor state_sensors"

lemma all_sensors_UNIV: "set all_sensors = UNIV"
proof -
  have "k \<in> set all_sensors" for k
    by (cases k) (auto simp: all_sensors_def sensor_lists)
  then show ?thesis by blast
qed

lemma sensor_numbers_distinct: "distinct (map sensor_number all_sensors)"
  by code_simp

lemma sensor_number_inject [simp]: "sensor_number k = sensor_number k' \<longleftrightarrow> k = k'"
  using sensor_numbers_distinct all_sensors_UNIV by (auto simp: distinct_map inj_on_def)

lemma sensor_number_injects [simp]:
  "numeric_sensor_number a = numeric_sensor_number b \<longleftrightarrow> a = b"
  "boolean_sensor_number c = boolean_sensor_number d \<longleftrightarrow> c = d"
  "state_sensor_number e = state_sensor_number f \<longleftrightarrow> e = f"
  using sensor_number_inject [of "NumericSensor a" "NumericSensor b"]
    sensor_number_inject [of "BooleanSensor c" "BooleanSensor d"]
    sensor_number_inject [of "StateSensor e" "StateSensor f"] by simp_all

section \<open>Handled readings have the alternative the tables expect\<close>

lemma find_mapping_Some: "find_mapping m f = Some s \<Longrightarrow> \<exists>t st. (t, st, s) \<in> set m \<and> f t st"
  by (auto simp: find_mapping_def find_Some_iff in_set_conv_nth) blast

lemma mapping_types:
  "list_all (\<lambda>(t, st, s). expected_reading t = Numeric) NUMERICMAPPING"
  "list_all (\<lambda>(t, st, s). expected_reading t = Integer \<or> t = NumT Mischersteuerung) INTEGERMAPPING"
  "list_all (\<lambda>(t, st, s). expected_reading t = Boolean) BOOLMAPPING"
  "list_all (\<lambda>(t, s). expected_reading t = Formatted) STATEMAPPING"
  by (simp_all add: NUMERICMAPPING_def INTEGERMAPPING_def BOOLMAPPING_def STATEMAPPING_def)

lemma accessors:
  "alternative_of r = Numeric \<Longrightarrow> \<exists>x. get_float r = Inr x" "alternative_of r = Integer \<Longrightarrow> \<exists>x. get_uint r = Inr x"
  "alternative_of r = Boolean \<Longrightarrow> \<exists>x. get_bool r = Inr x" "alternative_of r = Formatted \<Longrightarrow> \<exists>x. get_string r = Inr x"
  "alternative_of r = Enumeration \<Longrightarrow> \<exists>x. get_byte r = Inr x"
  by (cases r; simp)+

lemma good_sample:
  assumes "good_value v"
  shows "\<exists>s. handleValue_sample v = Inr s"
proof -
  have alt: "alternative_of (v_value v) = expected_reading (v_type v)" "v_type v \<noteq> NumT Mischersteuerung"
    using assms by (auto simp: good_value_def ems_value_wf_def)
  let ?a = "find_mapping NUMERICMAPPING (\<lambda>t st. v_type v = t \<and> v_subType v = st)"
    and ?b = "find_mapping INTEGERMAPPING (\<lambda>t st. v_type v = t \<and> v_subType v = st)"
    and ?c = "find_mapping BOOLMAPPING (\<lambda>t st. v_type v = t \<and> (st = NoSub \<or> v_subType v = st))"
    and ?d = "map_of STATEMAPPING (v_type v)"
  have a: "?a = Some s \<Longrightarrow> \<exists>x. get_float (v_value v) = Inr x" for s
    using mapping_types(1) alt(1) accessors(1) by (fastforce dest!: find_mapping_Some simp: list_all_iff)
  have b: "?b = Some s \<Longrightarrow> \<exists>x. get_uint (v_value v) = Inr x" for s
    using mapping_types(2) alt accessors(2) by (fastforce dest!: find_mapping_Some simp: list_all_iff)
  have c: "?c = Some s \<Longrightarrow> \<exists>x. get_bool (v_value v) = Inr x" for s
    using mapping_types(3) alt(1) accessors(3) by (fastforce dest!: find_mapping_Some simp: list_all_iff)
  have d: "?d = Some s \<Longrightarrow> \<exists>x. get_string (v_value v) = Inr x" for s
    using mapping_types(4) alt(1) accessors(4) by (fastforce dest!: map_of_SomeD simp: list_all_iff)
  have e: "v_type v = EnumT Betriebsart \<Longrightarrow> \<exists>x. get_byte (v_value v) = Inr x"
    using alt(1) accessors(5) by simp
  consider s where "?a = Some s" | s where "?a = None" "?b = Some s" | s where "?a = None" "?b = None" "?c = Some s"
    | s where "?a = None" "?b = None" "?c = None" "?d = Some s" | "?a = None" "?b = None" "?c = None" "?d = None"
    by (meson not_None_eq)
  then show ?thesis
  proof cases
    case 1
    with a show ?thesis by (fastforce simp: handleValue_sample_def)
  next
    case 2
    with b show ?thesis by (fastforce simp: handleValue_sample_def)
  next
    case 3
    with c show ?thesis by (fastforce simp: handleValue_sample_def)
  next
    case 4
    with d show ?thesis by (fastforce simp: handleValue_sample_def)
  next
    case 5
    with e show ?thesis by (cases "v_type v = EnumT Betriebsart") (auto simp: handleValue_sample_def Let_def)
  qed
qed

section \<open>What storing a sample does\<close>

primrec sample_sensor :: "sample \<Rightarrow> sensor" where
  "sample_sensor (NumericSample s x) = NumericSensor s"
| "sample_sensor (BooleanSample s b) = BooleanSensor s"
| "sample_sensor (StateSample s t) = StateSensor s"

primrec sample_value :: "sample \<Rightarrow> db_value" where
  "sample_value (NumericSample s x) = NumericValue x"
| "sample_value (BooleanSample s b) = BooleanValue b"
| "sample_value (StateSample s t) = StateValue t"

primrec sensor_table :: "sensor \<Rightarrow> string" where
  "sensor_table (NumericSensor s) = numericTableName"
| "sensor_table (BooleanSensor s) = booleanTableName"
| "sensor_table (StateSensor s) = stateTableName"

primrec cached :: "database \<Rightarrow> sensor \<Rightarrow> db_value option" where
  "cached db (NumericSensor s) = map_option NumericValue (RBT.lookup (m_numericCache db) (numeric_sensor_number s))"
| "cached db (BooleanSensor s) = map_option BooleanValue (RBT.lookup (m_booleanCache db) (boolean_sensor_number s))"
| "cached db (StateSensor s) = map_option StateValue (RBT.lookup (m_stateCache db) (state_sensor_number s))"

definition last_id :: "database \<Rightarrow> sensor \<Rightarrow> nat option" where
  "last_id db k = RBT.lookup (m_lastInsertIds db) (sensor_number k)"

text \<open>The statement sequence and the new state of a sample that is not rejected.\<close>

definition stores :: "int \<Rightarrow> nat option \<Rightarrow> sample \<Rightarrow> database \<Rightarrow> database \<Rightarrow> query list \<Rightarrow> bool" where
  "stores now inserted x db db' qs \<longleftrightarrow>
     (let k = sample_sensor x;
          update = (case last_id db k of None \<Rightarrow> []
                    | Some i \<Rightarrow> if i \<noteq> 0 then [UpdateEnd (sensor_table k) now i] else [])
      in if cached db k \<noteq> Some (sample_value x) \<or> update = []
         then qs = update @ [InsertRow (sensor_table k) (sensor_number k) (sample_value x) now now inserted]
           \<and> (case inserted of
                 Some i \<Rightarrow> cached db' = (cached db)(k := Some (sample_value x)) \<and> last_id db' = (last_id db)(k := Some i)
               | None \<Rightarrow> cached db' = cached db \<and> last_id db' = last_id db)
         else qs = update \<and> cached db' = cached db \<and> last_id db' = last_id db)"

lemma limit_frame:
  assumes "checkAndUpdateRateLimit limit n now db = (ok, db')"
  shows "cached db' = cached db" "last_id db' = last_id db" "m_connection db' = m_connection db"
    "m_numericCache db' = m_numericCache db" "m_lastInsertIds db' = m_lastInsertIds db"
proof -
  have "\<exists>w. db' = db\<lparr>m_lastWrites := w\<rparr>"
    using assms by (auto simp: checkAndUpdateRateLimit_def split: if_splits option.splits intro: exI [of _ "m_lastWrites db"])
  then obtain w where "db' = db\<lparr>m_lastWrites := w\<rparr>" ..
  moreover have "cached (db\<lparr>m_lastWrites := w\<rparr>) k = cached db k" for k by (cases k) simp_all
  ultimately show "cached db' = cached db" "last_id db' = last_id db" "m_connection db' = m_connection db"
    "m_numericCache db' = m_numericCache db" "m_lastInsertIds db' = m_lastInsertIds db"
    by (simp_all add: last_id_def fun_eq_iff)
qed

lemma sensor_fun_eqI:
  assumes "\<And>s. f (NumericSensor s) = g (NumericSensor s)" and "\<And>s. f (BooleanSensor s) = g (BooleanSensor s)"
    and "\<And>s. f (StateSensor s) = g (StateSensor s)"
  shows "f = g"
proof
  show "f k = g k" for k using assms by (cases k) simp_all
qed

lemma cached_other [simp]:
  "cached (db\<lparr>m_lastInsertIds := ids\<rparr>) = cached db"
  "cached (db\<lparr>m_numericCache := m_numericCache db\<rparr>) = cached db"
  "cached (db\<lparr>m_booleanCache := m_booleanCache db\<rparr>) = cached db"
  "cached (db\<lparr>m_stateCache := m_stateCache db\<rparr>) = cached db"
  by (rule sensor_fun_eqI; simp)+

lemma cached_insert [simp]:
  "cached (db\<lparr>m_numericCache := RBT.insert (numeric_sensor_number a) x (m_numericCache db)\<rparr>)
     = (cached db)(NumericSensor a := Some (NumericValue x))"
  "cached (db\<lparr>m_booleanCache := RBT.insert (boolean_sensor_number b) y (m_booleanCache db)\<rparr>)
     = (cached db)(BooleanSensor b := Some (BooleanValue y))"
  "cached (db\<lparr>m_stateCache := RBT.insert (state_sensor_number c) z (m_stateCache db)\<rparr>)
     = (cached db)(StateSensor c := Some (StateValue z))"
  by (rule sensor_fun_eqI; auto)+

lemma last_id_caches [simp]:
  "last_id (db\<lparr>m_numericCache := c1, m_lastInsertIds := ids\<rparr>) = (\<lambda>k. RBT.lookup ids (sensor_number k))"
  "last_id (db\<lparr>m_booleanCache := c2, m_lastInsertIds := ids\<rparr>) = (\<lambda>k. RBT.lookup ids (sensor_number k))"
  "last_id (db\<lparr>m_stateCache := c3, m_lastInsertIds := ids\<rparr>) = (\<lambda>k. RBT.lookup ids (sensor_number k))"
  by (simp_all add: last_id_def fun_eq_iff)

text \<open>The shared part, for any kind of value.\<close>

lemma record_value_cases:
  assumes "record_value table mk n value now inserted cache ids = (cache', ids', qs)" and "inj mk"
  shows "let update = (case RBT.lookup ids n of None \<Rightarrow> [] | Some i \<Rightarrow> if i \<noteq> 0 then [UpdateEnd table now i] else [])
    in if map_option mk (RBT.lookup cache n) \<noteq> Some (mk value) \<or> update = []
       then qs = update @ [InsertRow table n (mk value) now now inserted]
         \<and> (case inserted of Some i \<Rightarrow> cache' = RBT.insert n value cache \<and> ids' = RBT.insert n i ids
             | None \<Rightarrow> cache' = cache \<and> ids' = ids)
       else qs = update \<and> cache' = cache \<and> ids' = ids"
proof -
  have "map_option mk (RBT.lookup cache n) \<noteq> Some (mk value) \<longleftrightarrow> RBT.lookup cache n \<noteq> Some value"
    using assms(2) by (cases "RBT.lookup cache n") (auto simp: inj_eq)
  then show ?thesis
    using assms(1) by (auto simp: record_value_def Let_def split: option.splits if_splits)
qed

lemma inj_values: "inj NumericValue" "inj BooleanValue" "inj StateValue"
  by (simp_all add: inj_def)

lemma record_value_stores:
  assumes r: "record_value (sensor_table k) mk (sensor_number k) value now inserted cache (m_lastInsertIds db)
      = (cache', ids', qs)" and "inj mk"
    and x: "sample_sensor x = k" "sample_value x = mk value"
    and c: "cached db k = map_option mk (RBT.lookup cache (sensor_number k))"
    and upd: "\<And>ids. cached (upd cache ids) = cached db"
      "\<And>ids. cached (upd (RBT.insert (sensor_number k) value cache) ids) = (cached db)(k := Some (mk value))"
      "\<And>c ids. last_id (upd c ids) = (\<lambda>k. RBT.lookup ids (sensor_number k))"
  shows "stores now inserted x db (upd cache' ids') qs"
proof -
  have "(\<lambda>k. RBT.lookup (m_lastInsertIds db) (sensor_number k)) = last_id db"
    "(\<lambda>j. RBT.lookup (RBT.insert (sensor_number k) i (m_lastInsertIds db)) (sensor_number j)) = (last_id db)(k := Some i)" for i
    by (auto simp: last_id_def fun_eq_iff)
  then show ?thesis
    using record_value_cases [OF r assms(2)] upd x c
    unfolding stores_def Let_def last_id_def [of db k]
    by (cases inserted; cases "RBT.lookup (m_lastInsertIds db) (sensor_number k)")
      (auto simp: last_id_def [of db k] simp del: RBT.lookup_insert split: if_splits)
qed

lemma addSensorValue_cases:
  assumes "addSensorValue limit now inserted x db = (db', qs)"
  shows "(qs = [] \<and> cached db' = cached db \<and> last_id db' = last_id db) \<or> stores now inserted x db db' qs"
proof (cases x)
  case (NumericSample s v)
  obtain ok db1 where l: "checkAndUpdateRateLimit limit (numeric_sensor_number s) now db = (ok, db1)" by fastforce
  obtain cache ids qs' where r: "record_value numericTableName NumericValue (numeric_sensor_number s) v now inserted
      (m_numericCache db1) (m_lastInsertIds db1) = (cache, ids, qs')" by (metis prod_cases3)
  have "stores now inserted x db1 (db1\<lparr>m_numericCache := cache, m_lastInsertIds := ids\<rparr>) qs'"
    by (rule record_value_stores [where k = "NumericSensor s" and mk = NumericValue and cache = "m_numericCache db1"
          and upd = "\<lambda>c ids. db1\<lparr>m_numericCache := c, m_lastInsertIds := ids\<rparr>"])
      (use r inj_values NumericSample in simp_all)
  moreover have "stores now inserted x db1 = stores now inserted x db"
    by (intro ext) (simp only: stores_def limit_frame(1,2) [OF l])
  ultimately show ?thesis
    using assms NumericSample l r limit_frame [OF l]
    by (auto simp: addSensorValue_numeric_def Let_def split: if_splits bool.splits)
next
  case (BooleanSample s v)
  obtain cache ids qs' where r: "record_value booleanTableName BooleanValue (boolean_sensor_number s) v now inserted
      (m_booleanCache db) (m_lastInsertIds db) = (cache, ids, qs')" by (metis prod_cases3)
  have "stores now inserted x db (db\<lparr>m_booleanCache := cache, m_lastInsertIds := ids\<rparr>) qs'"
    by (rule record_value_stores [where k = "BooleanSensor s" and mk = BooleanValue and cache = "m_booleanCache db"
          and upd = "\<lambda>c ids. db\<lparr>m_booleanCache := c, m_lastInsertIds := ids\<rparr>"])
      (use r inj_values BooleanSample in simp_all)
  then show ?thesis
    using assms BooleanSample r by (auto simp: addSensorValue_boolean_def split: if_splits)
next
  case (StateSample s v)
  obtain cache ids qs' where r: "record_value stateTableName StateValue (state_sensor_number s) v now inserted
      (m_stateCache db) (m_lastInsertIds db) = (cache, ids, qs')" by (metis prod_cases3)
  have "stores now inserted x db (db\<lparr>m_stateCache := cache, m_lastInsertIds := ids\<rparr>) qs'"
    by (rule record_value_stores [where k = "StateSensor s" and mk = StateValue and cache = "m_stateCache db"
          and upd = "\<lambda>c ids. db\<lparr>m_stateCache := c, m_lastInsertIds := ids\<rparr>"])
      (use r inj_values StateSample in simp_all)
  then show ?thesis
    using assms StateSample r by (auto simp: addSensorValue_state_def split: if_splits)
qed

section \<open>The rows of a sensor\<close>

record row =
  r_table :: string
  r_id :: nat
  r_sensor :: nat
  r_value :: db_value
  r_start :: int
  r_end :: int

text \<open>What the statements mean.\<close>

fun apply_query :: "query \<Rightarrow> row list \<Rightarrow> row list" where
  "apply_query (UpdateEnd table now i) rows =
     map (\<lambda>r. if r_table r = table \<and> r_id r = i then r\<lparr>r_end := now\<rparr> else r) rows"
| "apply_query (InsertRow table sensor value t t' (Some i)) rows =
     rows @ [\<lparr>r_table = table, r_id = i, r_sensor = sensor, r_value = value, r_start = t, r_end = t'\<rparr>]"
| "apply_query (InsertRow table sensor value t t' None) rows = rows"

text \<open>
  The specification of a history: the rows are consecutive intervals with changing values that
  begin with the first sample and end with the last, and every sample lies in a row of its value.
\<close>

definition history :: "row list \<Rightarrow> (int \<times> db_value) list \<Rightarrow> bool" where
  "history rs ss \<longleftrightarrow> rs \<noteq> [] \<and> ss \<noteq> [] \<and> r_start (hd rs) = fst (hd ss) \<and> r_end (last rs) = fst (last ss)
     \<and> r_value (last rs) = snd (last ss)
     \<and> successively (\<lambda>r r'. r_end r = r_start r' \<and> r_value r \<noteq> r_value r') rs
     \<and> (\<forall>r \<in> set rs. r_start r \<le> r_end r)
     \<and> (\<forall>(t, v) \<in> set ss. \<exists>r \<in> set rs. r_value r = v \<and> r_start r \<le> t \<and> t \<le> r_end r)"

definition extend_last :: "int \<Rightarrow> row list \<Rightarrow> row list" where
  "extend_last now rs = butlast rs @ [(last rs)\<lparr>r_end := now\<rparr>]"

lemma extend_last_set:
  assumes "rs \<noteq> []" and "r \<in> set rs" and "t \<le> r_end r" and "r_end (last rs) \<le> now"
  shows "\<exists>r' \<in> set (extend_last now rs). r_value r' = r_value r \<and> r_start r' = r_start r \<and> t \<le> r_end r'"
proof (cases "r \<in> set (butlast rs)")
  case False
  then have "r = last rs" using assms(1,2) by (metis append_butlast_last_id in_set_conv_decomp rotate1.simps(2) set_ConsD set_rotate1)
  then show ?thesis using assms(3,4) by (auto simp: extend_last_def)
qed (use assms(3) in \<open>auto simp: extend_last_def\<close>)

lemma history_extend:
  assumes h: "history rs ss" and "fst (last ss) \<le> now"
  shows "extend_last now rs \<noteq> []" "r_start (hd (extend_last now rs)) = fst (hd ss)"
    "r_value (last (extend_last now rs)) = r_value (last rs)" "r_end (last (extend_last now rs)) = now"
    "successively (\<lambda>r r'. r_end r = r_start r' \<and> r_value r \<noteq> r_value r') (extend_last now rs)"
    "\<forall>(t, v) \<in> set ss. \<exists>r \<in> set (extend_last now rs). r_value r = v \<and> r_start r \<le> t \<and> t \<le> r_end r"
    "\<forall>r \<in> set (extend_last now rs). r_start r \<le> r_end r"
proof -
  obtain as r where rs: "rs = as @ [r]" using h by (cases rs rule: rev_cases) (auto simp: history_def)
  show "extend_last now rs \<noteq> []" "r_start (hd (extend_last now rs)) = fst (hd ss)"
    "r_value (last (extend_last now rs)) = r_value (last rs)" "r_end (last (extend_last now rs)) = now"
    using h rs by (cases as; auto simp: history_def extend_last_def)+
  show "successively (\<lambda>r r'. r_end r = r_start r' \<and> r_value r \<noteq> r_value r') (extend_last now rs)"
    using h rs by (auto simp: history_def extend_last_def successively_append_iff)
  show "\<forall>(t, v) \<in> set ss. \<exists>r \<in> set (extend_last now rs). r_value r = v \<and> r_start r \<le> t \<and> t \<le> r_end r"
    using h assms(2) extend_last_set [of rs] by (fastforce simp: history_def)
  show "\<forall>r \<in> set (extend_last now rs). r_start r \<le> r_end r"
    using h rs assms(2) by (fastforce simp: history_def extend_last_def)
qed

lemma history_same:
  assumes h: "history rs ss" and "fst (last ss) \<le> now" and "r_value (last rs) = v"
  shows "history (extend_last now rs) (ss @ [(now, v)])"
proof -
  note e = history_extend [OF assms(1,2)]
  have "\<exists>r \<in> set (extend_last now rs). r_value r = v \<and> r_start r \<le> now \<and> now \<le> r_end r"
    using e(1,3,4,7) assms(3) by (intro bexI [of _ "last (extend_last now rs)"]) (metis last_in_set order_refl)+
  then show ?thesis
    using e h assms(3) by (auto simp: history_def)
qed

lemma history_changed:
  assumes h: "history rs ss" and "fst (last ss) \<le> now" and "r_value (last rs) \<noteq> v"
    and r: "r_value r = v" "r_start r = now" "r_end r = now"
  shows "history (extend_last now rs @ [r]) (ss @ [(now, v)])"
  using history_extend [OF assms(1,2)] h assms(3) r
  by (auto simp: history_def successively_append_iff)

lemma history_first: "r_value r = v \<Longrightarrow> r_start r = now \<Longrightarrow> r_end r = now \<Longrightarrow> history [r] [(now, v)]"
  by (simp add: history_def)

text \<open>
  The database as it runs: readings arrive in the order of time, statements succeed, and the
  server gives a new row an identifier that is new in its table.
\<close>

definition fresh_id :: "nat \<Rightarrow> query list \<Rightarrow> row list \<Rightarrow> bool" where
  "fresh_id i qs rows \<longleftrightarrow> i \<noteq> 0 \<and>
     list_all (\<lambda>q. case q of InsertRow table _ _ _ _ _ \<Rightarrow> list_all (\<lambda>r. r_table r = table \<longrightarrow> r_id r \<noteq> i) rows | _ \<Rightarrow> True) qs"

inductive db_run :: "int \<Rightarrow> (int \<times> sample) list \<Rightarrow> database \<times> row list \<Rightarrow> bool" for limit :: int where
  db_start: "db_run limit [] (database_init True, [])"
| db_ignored: "db_run limit tr (db, rows) \<Longrightarrow> db_handleValue limit now inserted v db = Inr (db', []) \<Longrightarrow>
     db_run limit tr (db', rows)"
| db_stored: "db_run limit tr (db, rows) \<Longrightarrow> db_handleValue limit now (Some i) v db = Inr (db', qs) \<Longrightarrow>
     qs \<noteq> [] \<Longrightarrow> handleValue_sample v = Inr (Some x) \<Longrightarrow> fresh_id i qs rows \<Longrightarrow>
     \<forall>(t, y) \<in> set tr. t \<le> now \<Longrightarrow> db_run limit (tr @ [(now, x)]) (db', fold apply_query qs rows)"

definition rows_of :: "sensor \<Rightarrow> row list \<Rightarrow> row list" where
  "rows_of k rows = filter (\<lambda>r. r_sensor r = sensor_number k) rows"

definition samples_of :: "sensor \<Rightarrow> (int \<times> sample) list \<Rightarrow> (int \<times> db_value) list" where
  "samples_of k tr = map (\<lambda>(t, x). (t, sample_value x)) (filter (\<lambda>(t, x). sample_sensor x = k) tr)"

definition sensor_inv :: "sensor \<Rightarrow> (int \<times> sample) list \<Rightarrow> database \<times> row list \<Rightarrow> bool" where
  "sensor_inv k tr st \<longleftrightarrow> (case st of (db, rows) \<Rightarrow>
     if samples_of k tr = [] then rows_of k rows = [] \<and> last_id db k = None
     else history (rows_of k rows) (samples_of k tr) \<and> last_id db k = Some (r_id (last (rows_of k rows)))
       \<and> r_id (last (rows_of k rows)) \<noteq> 0 \<and> cached db k = Some (r_value (last (rows_of k rows))))"

definition rows_inv :: "row list \<Rightarrow> bool" where
  "rows_inv rows \<longleftrightarrow> distinct (map (\<lambda>r. (r_table r, r_id r)) rows)
     \<and> (\<forall>r \<in> set rows. \<forall>k. r_sensor r = sensor_number k \<longrightarrow> r_table r = sensor_table k)"

text \<open>An update changes the last row of its sensor and nothing else.\<close>

lemma update_rows:
  assumes inv: "rows_inv rows" and ne: "rows_of k rows \<noteq> []"
  shows "rows_of k' (apply_query (UpdateEnd (sensor_table k) now (r_id (last (rows_of k rows)))) rows)
      = (if k' = k then extend_last now (rows_of k rows) else rows_of k' rows)"
proof -
  let ?l = "last (rows_of k rows)"
  let ?f = "\<lambda>r. if r_table r = sensor_table k \<and> r_id r = r_id ?l then r\<lparr>r_end := now\<rparr> else r"
  have l: "?l \<in> set rows" "r_sensor ?l = sensor_number k"
    using last_in_set [OF ne] by (auto simp: rows_of_def)
  then have t: "r_table ?l = sensor_table k" using inv by (auto simp: rows_inv_def)
  have only: "?f r = (if r = ?l then r\<lparr>r_end := now\<rparr> else r)" if "r \<in> set rows" for r
    using that l t inv by (auto simp: rows_inv_def distinct_map inj_on_def)
  have "rows_of k' (apply_query (UpdateEnd (sensor_table k) now (r_id ?l)) rows) = map ?f (rows_of k' rows)"
    by (simp add: rows_of_def filter_map o_def if_distrib cong: if_cong)
  also have "\<dots> = map (\<lambda>r. if r = ?l then r\<lparr>r_end := now\<rparr> else r) (rows_of k' rows)"
    using only by (intro map_cong) (auto simp: rows_of_def)
  also have "\<dots> = (if k' = k then extend_last now (rows_of k rows) else rows_of k' rows)"
  proof (cases "k' = k")
    case True
    have "distinct (rows_of k rows)"
      using inv by (auto simp: rows_inv_def rows_of_def distinct_map)
    then have "?l \<notin> set (butlast (rows_of k rows))"
      using ne by (metis append_butlast_last_id distinct_append disjoint_insert(1) list.simps(15))
    moreover have "map g (rows_of k rows) = map g (butlast (rows_of k rows)) @ [g ?l]" for g :: "row \<Rightarrow> row"
      using ne by (metis append_butlast_last_id list.simps(8) list.simps(9) map_append)
    ultimately show ?thesis
      using True by (auto simp: extend_last_def intro!: map_idI)
  next
    case False
    then have "r \<noteq> ?l" if "r \<in> set (rows_of k' rows)" for r
      using that l(2) by (auto simp: rows_of_def)
    then show ?thesis using False by (auto intro!: map_idI)
  qed
  finally show ?thesis .
qed

lemma update_rows_inv:
  "rows_inv rows \<Longrightarrow> rows_inv (apply_query (UpdateEnd table now i) rows)"
proof -
  have "(\<lambda>r. (r_table r, r_id r)) \<circ> (\<lambda>r. if r_table r = table \<and> r_id r = i then r\<lparr>r_end := now\<rparr> else r)
      = (\<lambda>r :: row. (r_table r, r_id r))"
    by auto
  then show "rows_inv rows \<Longrightarrow> ?thesis" by (auto simp: rows_inv_def)
qed

lemma insert_rows:
  assumes "rows_inv rows" and "list_all (\<lambda>r. r_table r = sensor_table k \<longrightarrow> r_id r \<noteq> i) rows"
  shows "rows_inv (apply_query (InsertRow (sensor_table k) (sensor_number k) v t t' (Some i)) rows)"
    and "rows_of k' (apply_query (InsertRow (sensor_table k) (sensor_number k) v t t' (Some i)) rows)
      = rows_of k' rows @ (if k' = k then [\<lparr>r_table = sensor_table k, r_id = i, r_sensor = sensor_number k,
          r_value = v, r_start = t, r_end = t'\<rparr>] else [])"
  using assms by (auto simp: rows_inv_def rows_of_def list_all_iff)

lemma stores_nonempty: "stores now inserted x db db' qs \<Longrightarrow> qs \<noteq> []"
  by (auto simp: stores_def Let_def split: if_splits)

lemma samples_of_snoc:
  "samples_of k (tr @ [(now, x)]) = samples_of k tr @ (if sample_sensor x = k then [(now, sample_value x)] else [])"
  by (simp add: samples_of_def)

lemma stored_first:
  assumes inv: "rows_inv rows" "\<And>k. sensor_inv k tr (db, rows)"
    and st: "stores now (Some i) x db db' qs" and fresh: "fresh_id i qs rows"
    and none: "samples_of (sample_sensor x) tr = []"
  shows "rows_inv (fold apply_query qs rows)
    \<and> (\<forall>k. sensor_inv k (tr @ [(now, x)]) (db', fold apply_query qs rows))"
proof -
  let ?k = "sample_sensor x" and ?v = "sample_value x"
  have i: "i \<noteq> 0" using fresh by (simp add: fresh_id_def)
  have no_row: "rows_of ?k rows = []" "last_id db ?k = None"
    using inv(2) [of ?k] none by (simp_all add: sensor_inv_def)
  then have q: "qs = [InsertRow (sensor_table ?k) (sensor_number ?k) ?v now now (Some i)]"
    "cached db' = (cached db)(?k := Some ?v)" "last_id db' = (last_id db)(?k := Some i)"
    using st by (simp_all add: stores_def Let_def)
  have f: "list_all (\<lambda>r. r_table r = sensor_table ?k \<longrightarrow> r_id r \<noteq> i) rows"
    using fresh q(1) by (simp add: fresh_id_def)
  have "sensor_inv k (tr @ [(now, x)]) (db', fold apply_query qs rows)" for k
    using inv(2) [of k] insert_rows(2) [OF inv(1) f, of k ?v now now] q no_row none i
    by (cases "k = ?k") (auto simp: sensor_inv_def samples_of_snoc history_first)
  then show ?thesis using insert_rows(1) [OF inv(1) f] q(1) by simp
qed

lemma stored_next:
  assumes inv: "rows_inv rows" "\<And>k. sensor_inv k tr (db, rows)"
    and st: "stores now (Some i) x db db' qs" and fresh: "fresh_id i qs rows" and mono: "\<forall>(t, y) \<in> set tr. t \<le> now"
    and some: "samples_of (sample_sensor x) tr \<noteq> []"
  shows "rows_inv (fold apply_query qs rows)
    \<and> (\<forall>k. sensor_inv k (tr @ [(now, x)]) (db', fold apply_query qs rows))"
proof -
  let ?k = "sample_sensor x" and ?v = "sample_value x"
  let ?rs = "rows_of ?k rows" and ?ss = "samples_of ?k tr"
  have h: "history ?rs ?ss" "last_id db ?k = Some (r_id (last ?rs))" "r_id (last ?rs) \<noteq> 0"
    "cached db ?k = Some (r_value (last ?rs))" and ne: "?rs \<noteq> []"
    using inv(2) [of ?k] some by (simp_all add: sensor_inv_def history_def)
  have le: "fst (last ?ss) \<le> now"
    using mono last_in_set [OF some] by (fastforce simp: samples_of_def)
  let ?upd = "UpdateEnd (sensor_table ?k) now (r_id (last ?rs))"
  note u = update_rows [OF inv(1) ne, of _ now]
  show ?thesis
  proof (cases "r_value (last ?rs) = ?v")
    case same: True
    then have q: "qs = [?upd]" "cached db' = cached db" "last_id db' = last_id db"
      using st h by (simp_all add: stores_def Let_def)
    have "sensor_inv k (tr @ [(now, x)]) (db', fold apply_query qs rows)" for k
      using inv(2) [of k] u [of k] q h history_same [OF h(1) le same]
      by (cases "k = ?k") (auto simp: sensor_inv_def samples_of_snoc extend_last_def simp del: apply_query.simps)
    then show ?thesis using update_rows_inv [OF inv(1)] q(1) by simp
  next
    case changed: False
    let ?new = "\<lparr>r_table = sensor_table ?k, r_id = i, r_sensor = sensor_number ?k, r_value = ?v, r_start = now, r_end = now\<rparr>"
    have q: "qs = [?upd, InsertRow (sensor_table ?k) (sensor_number ?k) ?v now now (Some i)]"
      "cached db' = (cached db)(?k := Some ?v)" "last_id db' = (last_id db)(?k := Some i)"
      using changed st h by (simp_all add: stores_def Let_def)
    have i: "i \<noteq> 0" and f: "list_all (\<lambda>r. r_table r = sensor_table ?k \<longrightarrow> r_id r \<noteq> i) (apply_query ?upd rows)"
      using fresh q(1) by (auto simp: fresh_id_def list_all_iff)
    note u' = insert_rows [OF update_rows_inv [OF inv(1)] f]
    have "sensor_inv k (tr @ [(now, x)]) (db', fold apply_query qs rows)" for k
      using inv(2) [of k] u [of k] u'(2) [of k ?v now now] q h i history_changed [OF h(1) le changed, of ?new]
      by (cases "k = ?k") (auto simp: sensor_inv_def samples_of_snoc simp del: apply_query.simps)
    then show ?thesis using u'(1) q(1) by simp
  qed
qed

lemma stored_step:
  assumes "rows_inv rows" and "\<And>k. sensor_inv k tr (db, rows)"
    and "stores now (Some i) x db db' qs" and "fresh_id i qs rows" and "\<forall>(t, y) \<in> set tr. t \<le> now"
  shows "rows_inv (fold apply_query qs rows)
    \<and> (\<forall>k. sensor_inv k (tr @ [(now, x)]) (db', fold apply_query qs rows))"
  using assms stored_first stored_next by (cases "samples_of (sample_sensor x) tr = []") blast+

lemma db_run_inv: "db_run limit tr st \<Longrightarrow> rows_inv (snd st) \<and> (\<forall>k. sensor_inv k tr st)"
proof (induction rule: db_run.induct)
  case db_start
  show ?case by (simp add: rows_inv_def sensor_inv_def samples_of_def rows_of_def last_id_def database_init_def)
next
  case (db_ignored tr db rows now inserted v db')
  have "cached db' = cached db \<and> last_id db' = last_id db"
    using db_ignored.hyps(2) by (auto simp: db_handleValue_def bindR_Inr_iff split: if_splits option.splits
        dest!: addSensorValue_cases stores_nonempty)
  then show ?case using db_ignored.IH by (simp add: sensor_inv_def)
next
  case (db_stored tr db rows now i v db' qs x)
  have "addSensorValue limit now (Some i) x db = (db', qs)"
    using db_stored.hyps(2-4) by (auto simp: db_handleValue_def split: if_splits)
  then have "stores now (Some i) x db db' qs"
    using addSensorValue_cases db_stored.hyps(3) by blast
  moreover have "rows_inv rows" "\<And>k. sensor_inv k tr (db, rows)" using db_stored.IH by simp_all
  ultimately show ?case
    using stored_step [OF _ _ _ db_stored.hyps(5,6)] by (metis snd_conv)
qed

section \<open>The rate limit\<close>

lemma limit_other:
  "checkAndUpdateRateLimit limit n now db = (ok, db') \<Longrightarrow> m \<noteq> n \<Longrightarrow>
     RBT.lookup (m_lastWrites db') m = RBT.lookup (m_lastWrites db) m"
  by (auto simp: checkAndUpdateRateLimit_def split: if_splits option.splits)

text \<open>While a sensor is blocked, the time of its last write does not change.\<close>

lemma last_write_kept:
  assumes "addSensorValue limit now inserted x db = (db', qs)" and "RBT.lookup (m_lastWrites db) n = Some t"
    and "limit \<noteq> 0" and "now - t < limit"
  shows "RBT.lookup (m_lastWrites db') n = Some t"
proof (cases x)
  case (NumericSample s v)
  obtain ok db1 where l: "checkAndUpdateRateLimit limit (numeric_sensor_number s) now db = (ok, db1)" by fastforce
  have "RBT.lookup (m_lastWrites db1) n = Some t"
    using l assms(2-4) limit_other [OF l, of n]
    by (cases "n = numeric_sensor_number s") (auto simp: checkAndUpdateRateLimit_def split: if_splits)
  then show ?thesis
    using assms(1,2) NumericSample l
    by (auto simp: addSensorValue_numeric_def Let_def split: if_splits bool.splits prod.splits)
qed (use assms in \<open>auto simp: addSensorValue_boolean_def addSensorValue_state_def split: if_splits prod.splits\<close>)

fun db_events :: "int \<Rightarrow> (int \<times> nat option \<times> ems_value) list \<Rightarrow> database \<Rightarrow> database result" where
  "db_events limit [] db = Inr db"
| "db_events limit ((now, inserted, v) # es) db =
     bindR (db_handleValue limit now inserted v db) (\<lambda>(db', qs). db_events limit es db')"

lemma last_write_kept_events:
  "db_events limit es db = Inr db' \<Longrightarrow> RBT.lookup (m_lastWrites db) n = Some t \<Longrightarrow> limit \<noteq> 0 \<Longrightarrow>
     \<forall>(now, r) \<in> set es. now - t < limit \<Longrightarrow> RBT.lookup (m_lastWrites db') n = Some t"
proof (induction es arbitrary: db)
  case (Cons e es)
  obtain now inserted v where e: "e = (now, inserted, v)" by (cases e)
  then obtain db1 qs where 1: "db_handleValue limit now inserted v db = Inr (db1, qs)"
    and 2: "db_events limit es db1 = Inr db'"
    using Cons.prems(1) by (auto simp: bindR_Inr_iff)
  have "RBT.lookup (m_lastWrites db1) n = Some t"
    using 1 Cons.prems(2-4) e last_write_kept
    by (auto simp: db_handleValue_def bindR_Inr_iff split: if_splits option.splits)
  then show ?case using Cons.IH [OF 2] Cons.prems(3,4) by simp
qed simp

lemma accepted_write:
  assumes "addSensorValue limit now inserted (NumericSample s x) db = (db', qs)" and "qs \<noteq> []" and "limit \<noteq> 0"
  shows "RBT.lookup (m_lastWrites db') (numeric_sensor_number s) = Some now"
  using assms
  by (auto simp: addSensorValue_numeric_def checkAndUpdateRateLimit_def Let_def split: if_splits option.splits prod.splits)

lemma blocked_write:
  assumes "RBT.lookup (m_lastWrites db) (numeric_sensor_number s) = Some t" and "limit \<noteq> 0" and "now - t < limit"
  shows "addSensorValue limit now inserted (NumericSample s x) db = (db, [])"
  using assms by (simp add: addSensorValue_numeric_def checkAndUpdateRateLimit_def Let_def)

section \<open>The sensor table\<close>

primrec value_type_of :: "sensor \<Rightarrow> nat" where
  "value_type_of (NumericSensor s) = sensorTypeNumeric"
| "value_type_of (BooleanSensor s) = sensorTypeBoolean"
| "value_type_of (StateSensor s) = sensorTypeState"

definition real_sensor :: "sensor \<Rightarrow> bool" where
  "real_sensor k \<longleftrightarrow> k \<noteq> BooleanSensor BooleanSensorLast \<and> k \<noteq> StateSensor StateSensorLast"

lemma mapping_sensors:
  "list_all (\<lambda>(t, st, s). s \<noteq> BooleanSensorLast) BOOLMAPPING" "list_all (\<lambda>(t, s). s \<noteq> StateSensorLast) STATEMAPPING"
  by (simp_all add: BOOLMAPPING_def STATEMAPPING_def)

lemma sample_real: "handleValue_sample v = Inr (Some x) \<Longrightarrow> real_sensor (sample_sensor x)"
  using mapping_sensors
  by (fastforce simp: handleValue_sample_def Let_def bindR_Inr_iff real_sensor_def list_all_iff
      split: option.splits if_splits dest!: find_mapping_Some map_of_SomeD)

lemma sensor_rows_complete:
  "list_all (\<lambda>k. real_sensor k \<longrightarrow>
     map (\<lambda>(k', tp, r). tp) (filter (\<lambda>r. fst r = k) createSensorRows) = [value_type_of k]) all_sensors"
  by code_simp

lemma sensor_rows_distinct:
  "distinct (map (\<lambda>(k, tp, n, r). n) createSensorRows)"
  by code_simp

section \<open>Properties\<close>

text \<open>
  C15: the rows of a sensor are its history.  For any sequence of readings, as long as the
  statements succeed, the rows written for a sensor are consecutive intervals with changing
  values from the first to the last stored sample, and every stored sample lies in a row with its
  value; nothing is written for a sensor without samples.
\<close>

theorem database_history:
  assumes "db_run limit tr (db, rows)"
  shows "if samples_of k tr = [] then rows_of k rows = [] else history (rows_of k rows) (samples_of k tr)"
  using db_run_inv [OF assms] by (auto simp: sensor_inv_def split: if_splits)

text \<open>The flame goes on and off.\<close>

definition flame_reading :: "bool \<Rightarrow> ems_value" where
  "flame_reading on = boolValue (BoolT FlammeAktiv) NoSub (if on then 1 else 0) 0"

lemma flame_sample: "handleValue_sample (flame_reading b) = Inr (Some (BooleanSample SensorFlamme b))"
  by (simp add: handleValue_sample_def flame_reading_def boolValue_def find_mapping_def NUMERICMAPPING_def
      INTEGERMAPPING_def BOOLMAPPING_def)

lemma flame_handled:
  "db_handleValue limit now inserted (flame_reading b) db = Inr (addSensorValue_boolean now inserted SensorFlamme b db)"
  by (simp add: db_handleValue_def flame_sample) (simp add: flame_reading_def boolValue_def)

lemma flame_run:
  "\<exists>db rows. db_run 60 [(10, BooleanSample SensorFlamme True), (20, BooleanSample SensorFlamme False)] (db, rows)
     \<and> rows = [\<lparr>r_table = booleanTableName, r_id = 1, r_sensor = 100, r_value = BooleanValue True, r_start = 10, r_end = 20\<rparr>,
         \<lparr>r_table = booleanTableName, r_id = 2, r_sensor = 100, r_value = BooleanValue False, r_start = 20, r_end = 20\<rparr>]"
proof -
  obtain db1 where 1: "db_handleValue 60 10 (Some 1) (flame_reading True) (database_init True)
      = Inr (db1, [InsertRow booleanTableName 100 (BooleanValue True) 10 10 (Some 1)])"
    and c: "m_connection db1" "RBT.lookup (m_booleanCache db1) 100 = Some True" "RBT.lookup (m_lastInsertIds db1) 100 = Some 1"
    by (simp add: flame_handled addSensorValue_boolean_def record_value_def database_init_def)
  obtain db2 where 2: "db_handleValue 60 20 (Some 2) (flame_reading False) db1
      = Inr (db2, [UpdateEnd booleanTableName 20 1, InsertRow booleanTableName 100 (BooleanValue False) 20 20 (Some 2)])"
    using c by (simp add: flame_handled addSensorValue_boolean_def record_value_def)
  have "db_run 60 ([] @ [(10, BooleanSample SensorFlamme True)]) (db1, fold apply_query
      [InsertRow booleanTableName 100 (BooleanValue True) 10 10 (Some 1)] [])"
    using flame_sample [of True] by (intro db_stored [OF db_start 1]) (simp_all add: fresh_id_def)
  then have "db_run 60 ([(10, BooleanSample SensorFlamme True)] @ [(20, BooleanSample SensorFlamme False)]) (db2, fold apply_query
      [UpdateEnd booleanTableName 20 1, InsertRow booleanTableName 100 (BooleanValue False) 20 20 (Some 2)]
      [\<lparr>r_table = booleanTableName, r_id = 1, r_sensor = 100, r_value = BooleanValue True, r_start = 10, r_end = 10\<rparr>])"
    using flame_sample [of False] by (intro db_stored [OF _ 2]) (simp_all add: fresh_id_def)
  then show ?thesis by auto
qed

lemma database_history_witness:
  "\<exists>rows. map r_value rows = [BooleanValue True, BooleanValue False] \<and> history rows [(10, BooleanValue True), (20, BooleanValue False)]"
proof -
  obtain db rows where r: "db_run 60 [(10, BooleanSample SensorFlamme True), (20, BooleanSample SensorFlamme False)] (db, rows)"
    and rows: "rows = [\<lparr>r_table = booleanTableName, r_id = 1, r_sensor = 100, r_value = BooleanValue True, r_start = 10, r_end = 20\<rparr>,
         \<lparr>r_table = booleanTableName, r_id = 2, r_sensor = 100, r_value = BooleanValue False, r_start = 20, r_end = 20\<rparr>]"
    using flame_run by blast
  from database_history [OF r, of "BooleanSensor SensorFlamme"] show ?thesis
    unfolding rows by (simp add: rows_of_def samples_of_def) (intro exI conjI; assumption?; simp)
qed

text \<open>
  C29: after a statement for a numeric sensor no further one is executed for that sensor until the
  rate limit is over, whatever other readings arrive meanwhile; the reading is dropped, the caches
  stay as they are.
\<close>

theorem rate_limit_spacing:
  assumes "limit \<noteq> 0" and "db_handleValue limit t ins v db = Inr (db1, qs)" and "qs \<noteq> []"
    and "handleValue_sample v = Inr (Some (NumericSample s x))"
    and "db_events limit es db1 = Inr db2" and "\<forall>(now, r) \<in> set es. now - t < limit"
    and "handleValue_sample v' = Inr (Some (NumericSample s y))" and "t' - t < limit"
  shows "db_handleValue limit t' ins' v' db2 = Inr (db2, [])"
proof -
  have "addSensorValue limit t ins (NumericSample s x) db = (db1, qs)"
    using assms(2-4) by (auto simp: db_handleValue_def split: if_splits)
  from last_write_kept_events [OF assms(5) accepted_write [OF this assms(3,1)] assms(1,6)]
  show ?thesis
    using blocked_write [OF _ assms(1,8)] assms(7) by (simp add: db_handleValue_def)
qed

definition power_reading :: "u8 \<Rightarrow> ems_value" where
  "power_reading b = numericValue (NumT IstModulation) Brenner [b] 1 0 False None"

lemma power_sample: "\<exists>x. handleValue_sample (power_reading b) = Inr (Some (NumericSample SensorMomLeistung x))"
proof -
  obtain u where "v_value (power_reading b) = UIntReading u"
    by (cases "numeric_decode [b] 1 False") (simp add: power_reading_def numericValue_def)
  then show ?thesis
    by (simp add: handleValue_sample_def power_reading_def find_mapping_def NUMERICMAPPING_def INTEGERMAPPING_def)
qed

lemma rate_limit_spacing_witness:
  "\<exists>db1 db2 qs. db_handleValue 60 0 (Some 1) (power_reading 50) (database_init True) = Inr (db1, qs) \<and> qs \<noteq> []
     \<and> db_events 60 [(30, Some 1, flame_reading True)] db1 = Inr db2
     \<and> db_handleValue 60 59 (Some 2) (power_reading 51) db2 = Inr (db2, [])"
proof -
  have valid: "v_isValid (power_reading 50)" by code_simp
  obtain x y where xy: "handleValue_sample (power_reading 50) = Inr (Some (NumericSample SensorMomLeistung x))"
    "handleValue_sample (power_reading 51) = Inr (Some (NumericSample SensorMomLeistung y))"
    using power_sample by blast
  obtain db1 qs where 1: "addSensorValue 60 0 (Some 1) (NumericSample SensorMomLeistung x) (database_init True) = (db1, qs)"
    and qs: "qs \<noteq> []"
    by (simp add: addSensorValue_numeric_def checkAndUpdateRateLimit_def record_value_def database_init_def)
  then have h: "db_handleValue 60 0 (Some 1) (power_reading 50) (database_init True) = Inr (db1, qs)"
    using valid xy(1) by (simp add: db_handleValue_def)
  obtain db2 where e: "db_events 60 [(30, Some 1, flame_reading True)] db1 = Inr db2"
    by (cases "addSensorValue_boolean 30 (Some 1) SensorFlamme True db1") (simp add: flame_handled)
  have "db_handleValue 60 59 (Some 2) (power_reading 51) db2 = Inr (db2, [])"
    by (rule rate_limit_spacing [OF _ h qs xy(1) e _ xy(2)]) simp_all
  then show ?thesis using h qs e by blast
qed

text \<open>
  no reading of a telegram makes the database throw: every table reads the alternative that
  the readings of its types have.
\<close>

theorem database_accepts_handled:
  assumes "handle m = Inr vs" and "v \<in> set vs"
  shows "\<exists>r. db_handleValue limit now inserted v db = Inr r"
  using good_sample [OF handle_good [OF assms]] by (auto simp: db_handleValue_def)

lemma database_accepts_handled_witness:
  "\<exists>r. db_handleValue 60 0 (Some 1) (numericValue (NumT IstTemp) Aussen [0, 215] 2 10 True
     (Some INVALID_TEMPERATURE_VALUES)) (database_init True) = Inr r"
  using database_accepts_handled [OF handle_outdoor_example] by simp

text \<open>
  the sensor table describes what is written: each sensor that a reading can have occurs in
  exactly one of its rows, with the value type of the table its samples go to, and no two sensors
  have the same number or the same name.
\<close>

theorem sensor_table_complete:
  assumes "handleValue_sample v = Inr (Some x)"
  shows "map (\<lambda>(k, tp, r). tp) (filter (\<lambda>r. fst r = sample_sensor x) createSensorRows) = [value_type_of (sample_sensor x)]
     \<and> inj sensor_number \<and> distinct (map (\<lambda>(k, tp, n, r). n) createSensorRows)"
  using sample_real [OF assms] sensor_rows_complete sensor_rows_distinct all_sensors_UNIV
  by (auto simp: list_all_iff inj_def)

lemma sensor_table_complete_witness:
  "map (\<lambda>(k, tp, r). tp) (filter (\<lambda>r. fst r = BooleanSensor SensorFlamme) createSensorRows) = [sensorTypeBoolean]"
  using sensor_table_complete [OF flame_sample [of True]] by simp

end
