(* ===== verification/Schema.thy ===== *)
theory Schema
  imports Database
begin

text \<open>
  Connecting to the database server and creating the tables (\<open>Database::connect\<close>,
  \<open>Database::createTables\<close> in \<open>Database.cpp\<close>).  The server is what its statements leave behind; which of
  them succeed is an input, and a failing one throws.
\<close>

section \<open>The server\<close>

text \<open>The database of the configured name: whether it exists, its tables in the order of their creation, the rows of \<open>sensors\<close>.\<close>

record server =
  sv_exists :: bool
  sv_tables :: "string list"
  sv_sensors :: "sensor_row list"

definition empty_server :: server where
  "empty_server = \<lparr>sv_exists = False, sv_tables = [], sv_sensors = []\<rparr>"

datatype statement = CreateDb | ShowTables | CreateTable string | InsertSensor sensor_row

fun effect_of :: "statement \<Rightarrow> server \<Rightarrow> server" where
  "effect_of CreateDb sv = sv\<lparr>sv_exists := True\<rparr>"
| "effect_of ShowTables sv = sv"
| "effect_of (CreateTable t) sv = (if t \<in> set (sv_tables sv) then sv else sv\<lparr>sv_tables := sv_tables sv @ [t]\<rparr>)"
| "effect_of (InsertSensor r) sv = sv\<lparr>sv_sensors := sv_sensors sv @ [r]\<rparr>"

text \<open>Statements are executed until one throws.\<close>

fun execute :: "(statement \<Rightarrow> bool) \<Rightarrow> statement list \<Rightarrow> server \<Rightarrow> bool \<times> server" where
  "execute succeeds [] sv = (True, sv)"
| "execute succeeds (s # ss) sv = (if succeeds s then execute succeeds ss (effect_of s sv) else (False, sv))"

section \<open>Connecting\<close>

definition schema_statements :: "statement list" where
  "schema_statements =
     [CreateTable ''sensors''] @ map InsertSensor createSensorRows
       @ [CreateTable numericTableName, CreateTable booleanTableName, CreateTable stateTableName]"

definition createTables :: "(statement \<Rightarrow> bool) \<Rightarrow> server \<Rightarrow> bool \<times> server" where
  "createTables succeeds sv =
     (if \<not> succeeds ShowTables then (False, sv)
      else if sv_tables sv \<noteq> [] then (True, sv)
      else execute succeeds schema_statements sv)"

text \<open>\<open>reachable\<close>: the server accepts the connection; \<open>may_select\<close>: the database, if it is there, can be selected.\<close>

definition select_or_create :: "(statement \<Rightarrow> bool) \<Rightarrow> bool \<Rightarrow> server \<Rightarrow> bool \<times> server" where
  "select_or_create succeeds may_select sv =
     (if sv_exists sv \<and> may_select then (True, sv)
      else if succeeds CreateDb then (may_select, effect_of CreateDb sv)
      else (False, sv))"

definition db_connect ::
    "bool \<Rightarrow> bool \<Rightarrow> (statement \<Rightarrow> bool) \<Rightarrow> server \<Rightarrow> database \<Rightarrow> bool \<times> server \<times> database" where
  "db_connect reachable may_select succeeds sv db =
     (if \<not> reachable then (False, sv, db\<lparr>m_connection := False\<rparr>)
      else case select_or_create succeeds may_select sv of
          (False, sv) \<Rightarrow> (False, sv, db\<lparr>m_connection := False\<rparr>)
        | (True, sv) \<Rightarrow>
            (case createTables succeeds sv of (success, sv) \<Rightarrow> (success, sv, db\<lparr>m_connection := success\<rparr>)))"

section \<open>What the statements leave\<close>

lemma execute_append:
  "execute succeeds (xs @ ys) sv =
     (case execute succeeds xs sv of (True, sv') \<Rightarrow> execute succeeds ys sv' | (False, sv') \<Rightarrow> (False, sv'))"
  by (induction xs arbitrary: sv) auto

lemma execute_inserts:
  "execute (\<lambda>_. True) (map InsertSensor rs) sv = (True, sv\<lparr>sv_sensors := sv_sensors sv @ rs\<rparr>)"
  by (induction rs arbitrary: sv) simp_all

lemma execute_schema:
  assumes "sv_tables sv = []"
  shows "execute (\<lambda>_. True) schema_statements sv =
     (True, sv\<lparr>sv_tables := [''sensors'', numericTableName, booleanTableName, stateTableName],
        sv_sensors := sv_sensors sv @ createSensorRows\<rparr>)"
  using assms
  by (simp add: schema_statements_def execute_append execute_inserts numericTableName_def booleanTableName_def
      stateTableName_def)

text \<open>Tables are only ever added, and only by \<open>CreateTable\<close>.\<close>

lemma execute_tables:
  "execute succeeds ss sv = (b, sv') \<Longrightarrow> set (sv_tables sv) \<subseteq> set (sv_tables sv')
    \<and> set (sv_tables sv') \<subseteq> set (sv_tables sv) \<union> {t. CreateTable t \<in> set ss \<and> succeeds (CreateTable t)}"
proof (induction ss arbitrary: sv)
  case (Cons s ss)
  show ?case
  proof (cases "succeeds s")
    case True
    then have "execute succeeds ss (effect_of s sv) = (b, sv')" using Cons.prems by simp
    from Cons.IH [OF this] True show ?thesis by (cases s) (auto split: if_splits)
  qed (use Cons.prems in auto)
qed simp

lemma schema_failed_without_state:
  assumes "sv_tables sv = []" and "execute succeeds schema_statements sv = (False, sv')"
  shows "stateTableName \<notin> set (sv_tables sv')"
proof -
  let ?ss = "[CreateTable ''sensors''] @ map InsertSensor createSensorRows
    @ [CreateTable numericTableName, CreateTable booleanTableName]"
  have split: "schema_statements = ?ss @ [CreateTable stateTableName]" by (simp add: schema_statements_def)
  obtain b sv1 where 1: "execute succeeds ?ss sv = (b, sv1)" by (cases "execute succeeds ?ss sv")
  then have "sv1 = sv'"
    using assms(2) unfolding split execute_append by (auto split: bool.splits if_splits)
  moreover have "stateTableName \<notin> set (sv_tables sv1)"
    using execute_tables [OF 1] assms(1) by (auto simp: stateTableName_def numericTableName_def booleanTableName_def)
  ultimately show ?thesis by simp
qed

section \<open>Properties\<close>

text \<open>
  on a server without the database a first connection on which nothing fails creates it with the table
  of sensors, its rows, and the three tables of values; a later connection changes nothing.
\<close>

theorem connect_creates_schema:
  assumes "\<not> sv_exists sv" and "sv_tables sv = []" and "sv_sensors sv = []"
  shows "\<exists>sv' db'. db_connect True True (\<lambda>_. True) sv db = (True, sv', db') \<and> m_connection db'
     \<and> sv_tables sv' = [''sensors'', numericTableName, booleanTableName, stateTableName]
     \<and> sv_sensors sv' = createSensorRows
     \<and> db_connect True True (\<lambda>_. True) sv' db' = (True, sv', db')"
  using assms execute_schema [of "sv\<lparr>sv_exists := True\<rparr>"]
  by (auto simp: db_connect_def select_or_create_def createTables_def)

lemma connect_creates_schema_witness:
  "\<exists>sv' db'. db_connect True True (\<lambda>_. True) empty_server (database_init False) = (True, sv', db')
     \<and> sv_sensors sv' = createSensorRows"
  using connect_creates_schema [of empty_server "database_init False"] by (auto simp: empty_server_def)

text \<open>
  C40: a connection that fails half way through the tables is never repaired: the next one takes any table
  for all of them, reports success, and the table of state values stays missing however often the
  program connects, so that every insertion into it fails.
\<close>

theorem partial_schema_accepted:
  assumes "createTables succeeds sv = (False, sv')" and "sv_tables sv = []" and "sv_tables sv' \<noteq> []"
    and "sv_exists sv'" and "succeeds' ShowTables"
  shows "db_connect True True succeeds' sv' db = (True, sv', db\<lparr>m_connection := True\<rparr>)
     \<and> stateTableName \<notin> set (sv_tables sv')"
proof -
  have "execute succeeds schema_statements sv = (False, sv')"
    using assms(1-3) by (auto simp: createTables_def split: if_splits)
  then show ?thesis
    using schema_failed_without_state [OF assms(2)] assms(3-5)
    by (simp add: db_connect_def select_or_create_def createTables_def)
qed

lemma partial_schema_accepted_witness:
  "\<exists>sv'. createTables (\<lambda>s. s \<noteq> CreateTable numericTableName) (empty_server\<lparr>sv_exists := True\<rparr>) = (False, sv')
     \<and> fst (db_connect True True (\<lambda>_. True) sv' (database_init False)) \<and> stateTableName \<notin> set (sv_tables sv')"
proof -
  let ?s = "\<lambda>s. s \<noteq> CreateTable numericTableName" and ?sv = "empty_server\<lparr>sv_exists := True\<rparr>"
  have ins: "execute ?s (map InsertSensor rs) sv = (True, sv\<lparr>sv_sensors := sv_sensors sv @ rs\<rparr>)" for rs sv
    by (induction rs arbitrary: sv) simp_all
  have "createTables ?s ?sv = (False, ?sv\<lparr>sv_tables := [''sensors''], sv_sensors := createSensorRows\<rparr>)"
    by (simp add: createTables_def empty_server_def schema_statements_def execute_append ins)
      (simp add: numericTableName_def)
  then show ?thesis
    using partial_schema_accepted [of ?s ?sv _ "\<lambda>_. True" "database_init False"]
    by (auto simp: empty_server_def)
qed

end
