(* ===== verification/PidFile.thy ===== *)
theory PidFile
  imports Prelude
begin

text \<open>
  The pid file (\<open>PidFile.cpp\<close>) and how \<open>main\<close> uses it: locked before the process goes into the
  background, written afterwards.  The lock is a POSIX record lock: it belongs to the process that took
  it, is not inherited by a forked child, ends with its process, and ends when the process closes any
  descriptor of the file.
\<close>

section \<open>The file and the object\<close>

record lock_file =
  lf_exists :: bool
  lf_owner :: "nat option"
  lf_content :: "nat option"

record pid_file = pf_open :: bool

definition pid_file_init :: pid_file where
  "pid_file_init = \<lparr>pf_open = False\<rparr>"

text \<open>Every close of a descriptor of the file by process \<open>pid\<close>.\<close>

definition close_file :: "nat \<Rightarrow> lock_file \<Rightarrow> lock_file" where
  "close_file pid f = (if lf_owner f = Some pid then f\<lparr>lf_owner := None\<rparr> else f)"

text \<open>\<open>can_open\<close>: whether the path can be opened for writing.  \<open>None\<close> is the exception of \<open>main\<close>.\<close>

definition aquire :: "bool \<Rightarrow> nat \<Rightarrow> pid_file \<Rightarrow> lock_file \<Rightarrow> (pid_file \<times> lock_file) option" where
  "aquire can_open pid o1 f =
     (if \<not> can_open then None
      else if lf_owner f \<noteq> None \<and> lf_owner f \<noteq> Some pid then None
      else Some (o1\<lparr>pf_open := True\<rparr>, f\<lparr>lf_exists := True, lf_owner := Some pid\<rparr>))"

definition write_pid :: "bool \<Rightarrow> nat \<Rightarrow> pid_file \<Rightarrow> lock_file \<Rightarrow> (pid_file \<times> lock_file) option" where
  "write_pid can_open pid o1 f =
     (case (if pf_open o1 then Some (o1, f) else aquire can_open pid o1 f) of
        None \<Rightarrow> None
      | Some (o2, f2) \<Rightarrow> Some (o2, close_file pid (f2\<lparr>lf_content := Some pid\<rparr>)))"

definition destroy :: "nat \<Rightarrow> pid_file \<Rightarrow> lock_file \<Rightarrow> lock_file" where
  "destroy pid o1 f =
     (if pf_open o1 then (close_file pid f)\<lparr>lf_exists := False, lf_content := None\<rparr> else f)"

text \<open>\<open>daemon\<close>: the parent ends, and with it its locks; the child has a copy of the object.\<close>

definition go_background :: "nat \<Rightarrow> lock_file \<Rightarrow> lock_file" where
  "go_background parent f = close_file parent f"

text \<open>The start of \<open>main\<close>: process \<open>parent\<close> locks the file, its child \<open>child\<close> writes it.\<close>

definition start_daemon :: "bool \<Rightarrow> nat \<Rightarrow> nat \<Rightarrow> lock_file \<Rightarrow> (pid_file \<times> lock_file) option" where
  "start_daemon can_open parent child f =
     (case aquire can_open parent pid_file_init f of
        None \<Rightarrow> None
      | Some (o1, f1) \<Rightarrow> write_pid can_open child o1 (go_background parent f1))"

section \<open>Properties\<close>

text \<open>
  what the lock is for: while another process holds it, starting the daemon fails and leaves the file
  as it is.
\<close>

theorem locked_file_refuses:
  assumes "lf_owner f = Some other" and "other \<noteq> parent"
  shows "start_daemon can_open parent child f = None"
  using assms by (simp add: start_daemon_def aquire_def)

lemma locked_file_refuses_witness:
  "start_daemon True 2 3 \<lparr>lf_exists = True, lf_owner = Some 1, lf_content = None\<rparr> = None"
  by (rule locked_file_refuses [of _ 1]) simp_all

text \<open>
  but a running daemon does not hold it: the lock ends with the parent, and the child does not take it
  again because its copy of the object has the file open.  So a second daemon starts beside the first
  and overwrites its number, and when it ends it removes the file of the first, if any.
\<close>

theorem second_daemon_starts:
  assumes "start_daemon True p1 c1 f = Some (o1, f1)" and "lf_owner f = None" and "c1 \<noteq> p1"
  shows "lf_owner f1 = None \<and> lf_content f1 = Some c1
     \<and> (\<exists>o2 f2. start_daemon True p2 c2 f1 = Some (o2, f2) \<and> lf_content f2 = Some c2
          \<and> \<not> lf_exists (destroy c2 o2 f2))"
  using assms
  by (auto simp: start_daemon_def aquire_def write_pid_def go_background_def close_file_def pid_file_init_def
      destroy_def split: if_splits)

lemma second_daemon_starts_witness:
  "\<exists>o1 f1 o2 f2. start_daemon True 1 2 \<lparr>lf_exists = False, lf_owner = None, lf_content = None\<rparr> = Some (o1, f1)
     \<and> start_daemon True 3 4 f1 = Some (o2, f2)"
proof -
  obtain o1 f1 where 1: "start_daemon True 1 2 \<lparr>lf_exists = False, lf_owner = None, lf_content = None\<rparr> = Some (o1, f1)"
    by (simp add: start_daemon_def aquire_def write_pid_def go_background_def close_file_def pid_file_init_def)
  then show ?thesis using second_daemon_starts [OF 1, of 3 4] by auto
qed

end
