(* ===== verification/Options.thy ===== *)
theory Options
  imports Prelude "HOL-Library.Sublist"
begin

text \<open>
  The decisions of \<open>Options::parse\<close> (\<open>Options.cpp\<close>, \<open>Options.h\<close>) and the debug streams.  What
  \<open>boost::program_options\<close> makes of the command line and the configuration file is an input
  (\<open>store_result\<close>), and so are the tokens \<open>boost::tokenizer\<close> cuts the debug flags into and which files
  can be opened.
\<close>

section \<open>Debug streams\<close>

datatype sink = StdoutSink | StderrSink | FileSink

text \<open>
  \<open>ds_file\<close> is the file that \<open>m_fileBuf\<close> has open.  \<open>std::filebuf::open\<close> fails on a buffer that has one
  open already and then leaves it as it is; closing it is nowhere done.
\<close>

record debug_stream =
  ds_active :: bool
  ds_sink :: sink
  ds_file :: "string option"

definition stream_init :: debug_stream where
  "stream_init = \<lparr>ds_active = False, ds_sink = StdoutSink, ds_file = None\<rparr>"

definition stream_reset :: "debug_stream \<Rightarrow> debug_stream" where
  "stream_reset s = s\<lparr>ds_active := False, ds_sink := StdoutSink\<rparr>"

definition open_file :: "(string \<Rightarrow> bool) \<Rightarrow> string \<Rightarrow> debug_stream \<Rightarrow> debug_stream" where
  "open_file can_open file s =
     (if ds_file s = None \<and> can_open file then s\<lparr>ds_file := Some file\<rparr> else s)"

definition setFile :: "(string \<Rightarrow> bool) \<Rightarrow> string \<Rightarrow> debug_stream \<Rightarrow> debug_stream" where
  "setFile can_open file s =
     (if file = ''stdout'' then s\<lparr>ds_sink := StdoutSink\<rparr>
      else if file = ''stderr'' then s\<lparr>ds_sink := StderrSink\<rparr>
      else if file \<noteq> [] then (open_file can_open file s)\<lparr>ds_sink := FileSink\<rparr>
      else s)\<lparr>ds_active := True\<rparr>"

section \<open>Options\<close>

datatype parse_result = ParseFailure | ParseSuccess | CloseAfterParse

datatype rc_type = RCUnknown | RC30 | RC35

datatype debug_module = DebugIo | DebugMessages | DebugData

record options =
  o_target :: string
  o_mqttTarget :: string
  o_mqttPrefix :: string
  o_rateLimit :: nat
  o_debugStreams :: "debug_module \<Rightarrow> debug_stream"
  o_pidFilePath :: string
  o_daemonize :: bool
  o_dbPath :: string
  o_dbUser :: string
  o_dbPass :: string
  o_dbName :: string
  o_commandPort :: nat
  o_dataPort :: nat
  o_rcType :: rc_type

definition options_init :: options where
  "options_init = \<lparr>o_target = [], o_mqttTarget = [], o_mqttPrefix = [], o_rateLimit = 0,
     o_debugStreams = (\<lambda>_. stream_init), o_pidFilePath = [], o_daemonize = True, o_dbPath = [],
     o_dbUser = [], o_dbPass = [], o_dbName = [],
     o_commandPort = 0, o_dataPort = 0, o_rcType = RCUnknown\<rparr>"

text \<open>
  The variables after \<open>notify\<close>: flags, the options that \<open>parse\<close> reads itself, and what was stored into
  the static members.
\<close>

record variables =
  bv_help :: bool
  bv_target :: "string option"
  bv_rcType :: "string option"
  bv_foreground :: bool
  bv_debug :: "string option"
  bv_stored :: "options \<Rightarrow> options"

datatype store_result = UnknownOption | MultipleOccurrences | OtherError | Stored variables

text \<open>
  An exception that \<open>parse\<close> does not catch (a value of the wrong form, a missing value) leaves it, and
  \<open>main\<close> calls it outside its \<open>try\<close>.
\<close>

datatype parse_outcome = Returns parse_result options | Escapes

definition module_of :: "string \<Rightarrow> debug_module option" where
  "module_of item =
     (if prefix ''io'' item then Some DebugIo
      else if prefix ''message'' item then Some DebugMessages
      else if prefix ''data'' item then Some DebugData
      else None)"

text \<open>The part behind the first \<open>=\<close> at or behind \<open>start\<close>, if there is one.\<close>

definition file_of :: "nat \<Rightarrow> string \<Rightarrow> string" where
  "file_of start item = drop 1 (dropWhile (\<lambda>c. c \<noteq> CHR ''='') (drop start item))"

definition debug_item :: "(string \<Rightarrow> bool) \<Rightarrow> string \<Rightarrow> (debug_module \<Rightarrow> debug_stream) \<Rightarrow> debug_module \<Rightarrow> debug_stream" where
  "debug_item can_open item streams =
     (case module_of item of
        None \<Rightarrow> streams
      | Some m \<Rightarrow> streams(m := setFile can_open (file_of 0 item) (streams m)))"

definition debug_flags ::
    "(string \<Rightarrow> bool) \<Rightarrow> (string \<Rightarrow> string list) \<Rightarrow> string \<Rightarrow> (debug_module \<Rightarrow> debug_stream) \<Rightarrow> debug_module \<Rightarrow> debug_stream" where
  "debug_flags can_open tokens flags streams =
     (if flags = ''none'' then (\<lambda>m. stream_reset (streams m))
      else if take 3 flags = ''all'' then (\<lambda>m. setFile can_open (file_of 3 flags) (streams m))
      else fold (debug_item can_open) (tokens flags) streams)"

definition options_parse ::
    "(string \<Rightarrow> bool) \<Rightarrow> (string \<Rightarrow> string list) \<Rightarrow> store_result \<Rightarrow> options \<Rightarrow> parse_outcome" where
  "options_parse can_open tokens stored o1 =
     (case stored of
        OtherError \<Rightarrow> Escapes
      | UnknownOption \<Rightarrow> Returns ParseFailure o1
      | MultipleOccurrences \<Rightarrow> Returns ParseFailure o1
      | Stored v \<Rightarrow>
          (let o1 = bv_stored v o1
           in if bv_help v then Returns CloseAfterParse o1
              else if bv_target v = None then Returns ParseFailure o1
              else
                (case (case bv_rcType v of
                         None \<Rightarrow> Some o1
                       | Some type \<Rightarrow>
                           if type = ''rc30'' then Some (o1\<lparr>o_rcType := RC30\<rparr>)
                           else if type = ''rc35'' then Some (o1\<lparr>o_rcType := RC35\<rparr>)
                           else None) of
                   None \<Rightarrow> Returns ParseFailure o1
                 | Some o2 \<Rightarrow>
                     (let o3 = (if bv_foreground v then o2\<lparr>o_daemonize := False\<rparr> else o2)
                      in Returns ParseSuccess
                           (case bv_debug v of
                              None \<Rightarrow> o3
                            | Some flags \<Rightarrow>
                                o3\<lparr>o_debugStreams := debug_flags can_open tokens flags (o_debugStreams o3)\<rparr>)))))"

section \<open>The declared options\<close>

text \<open>
  The tables that \<open>parse\<close> hands to \<open>boost::program_options\<close>: long and short name, what kind of
  value is taken, its default, whether values of several sources are composed, and the help text.  \<open>features\<close> are the
  build options.
\<close>

datatype arg_kind = NoArg | StringArg | UnsignedArg

record option_desc =
  od_long :: string
  od_short :: "char option"
  od_arg :: arg_kind
  od_default :: "string option"
  od_composing :: bool
  od_help :: string

record features =
  HAVE_DAEMONIZE :: bool
  HAVE_MYSQL :: bool
  HAVE_MQTT :: bool

definition flag_option :: "string \<Rightarrow> char option \<Rightarrow> string \<Rightarrow> option_desc" where
  "flag_option long short help =
     \<lparr>od_long = long, od_short = short, od_arg = NoArg, od_default = None, od_composing = False, od_help = help\<rparr>"

definition value_option :: "string \<Rightarrow> char option \<Rightarrow> arg_kind \<Rightarrow> string \<Rightarrow> option_desc" where
  "value_option long short arg help =
     \<lparr>od_long = long, od_short = short, od_arg = arg, od_default = None, od_composing = False, od_help = help\<rparr>"

definition composing :: "option_desc \<Rightarrow> option_desc" where
  "composing d = d\<lparr>od_composing := True\<rparr>"

definition default_value :: "string \<Rightarrow> option_desc \<Rightarrow> option_desc" where
  "default_value v d = d\<lparr>od_default := Some v\<rparr>"

definition general_options :: "option_desc list" where
  "general_options =
     [flag_option ''help'' (Some CHR ''h'')
        ''Show this help message'',
      composing (value_option ''rc-type'' (Some CHR ''R'') StringArg
        ''Type of used room controller (rc30 or rc35)''),
      default_value ''60'' (value_option ''ratelimit'' (Some CHR ''r'') UnsignedArg
        ''Rate limit (in s) for writing numeric sensor values into DB''),
      default_value ''none'' (value_option ''debug'' (Some CHR ''d'') StringArg
        ''Comma separated list of debug flags (all, io, message, data, stats, none)  and their files, e.g. message=/tmp/messages.txt'')]"

definition defaultPidFilePath :: "string \<Rightarrow> string" where
  "defaultPidFilePath argv0 = ''/var/run/'' @ argv0 @ ''.pid''"

definition daemon_options :: "features \<Rightarrow> string \<Rightarrow> option_desc list" where
  "daemon_options f argv0 =
     (if HAVE_DAEMONIZE f
      then [default_value (defaultPidFilePath argv0) (value_option ''pid-file'' (Some CHR ''P'') StringArg
        ''Pid file path''),
            flag_option ''foreground'' (Some CHR ''f'')
        ''Run in foreground'']
      else [])
     @ [value_option ''config-file'' (Some CHR ''c'') StringArg
        ''File name to read configuration from'']"

definition db_options :: "option_desc list" where
  "db_options =
     [composing (value_option ''db-path'' None StringArg
        ''Path or server:port specification of database server (none to not connect to DB)''),
      composing (value_option ''db-user'' (Some CHR ''u'') StringArg
        ''Database user name''),
      composing (value_option ''db-pass'' (Some CHR ''p'') StringArg
        ''Database password''),
      composing (value_option ''db-name'' (Some CHR ''n'') StringArg
        ''Database name'')]"

definition tcp_options :: "option_desc list" where
  "tcp_options =
     [composing (value_option ''command-port'' (Some CHR ''C'') UnsignedArg
        ''TCP port for remote command interface (0 to disable)''),
      composing (value_option ''data-port'' (Some CHR ''D'') UnsignedArg
        ''TCP port for broadcasting live sensor data (0 to disable)'')]"

definition interface_options :: "option_desc list" where
  "interface_options =
     [composing (value_option ''mqtt-broker'' None StringArg
        ''MQTT broker address (<host>:<port>)''),
      composing (value_option ''mqtt-prefix'' None StringArg
        ''MQTT topic prefix (default: /ems)'')]"

definition hidden_options :: "option_desc list" where
  "hidden_options = [value_option ''target'' None StringArg
        ''Connection target'']"

text \<open>What may be on the command line, in the configuration file, and is shown by the help.\<close>

definition command_line_options :: "features \<Rightarrow> string \<Rightarrow> option_desc list" where
  "command_line_options f argv0 =
     general_options @ daemon_options f argv0 @ (if HAVE_MYSQL f then db_options else []) @ tcp_options
     @ (if HAVE_MQTT f then interface_options else []) @ hidden_options"

definition config_options :: "features \<Rightarrow> option_desc list" where
  "config_options f =
     general_options @ (if HAVE_MYSQL f then db_options else []) @ tcp_options
     @ (if HAVE_MQTT f then interface_options else [])"

definition visible_options :: "features \<Rightarrow> string \<Rightarrow> option_desc list" where
  "visible_options f argv0 =
     general_options @ daemon_options f argv0 @ (if HAVE_MYSQL f then db_options else []) @ tcp_options
     @ (if HAVE_MQTT f then interface_options else [])"

text \<open>\<open>option_lines\<close>: how the library prints the options.\<close>

definition usage :: "(option_desc list \<Rightarrow> string list) \<Rightarrow> string \<Rightarrow> option_desc list \<Rightarrow> string list" where
  "usage option_lines programName opts =
     [''Usage: '' @ programName @ '' [options] <target>'', [], ''Possible values for target:'',
      ''  serial:<device>     Connect to serial device <device> without sending support (e.g. Atmega8)'',
      ''  tx-serial:<device>  Connect to serial device <device> with sending support (e.g. EMS Gateway)'',
      ''  tcp:<host>:<port>   Connect to TCP address <host> at <port> (e.g. NetIO)'']
     @ option_lines opts"

lemmas option_tables = general_options_def daemon_options_def db_options_def tcp_options_def
  interface_options_def hidden_options_def flag_option_def value_option_def composing_def default_value_def

text \<open>
  In every build no name and no letter is declared twice, the help shows everything but the target,
  and the configuration file takes everything but the target and the daemon options.
\<close>

lemma option_names_distinct:
  "distinct (map od_long (command_line_options f argv0))
   \<and> distinct (List.map_filter od_short (command_line_options f argv0))"
  by (cases "HAVE_DAEMONIZE f"; cases "HAVE_MYSQL f"; cases "HAVE_MQTT f")
    (simp_all add: command_line_options_def option_tables List.map_filter_def)

lemma option_groups:
  "command_line_options f argv0 = visible_options f argv0 @ hidden_options"
  "set (command_line_options f argv0) =
     set (config_options f) \<union> set (daemon_options f argv0) \<union> set hidden_options"
  by (auto simp: command_line_options_def visible_options_def config_options_def)

lemma config_file_excludes:
  "map od_long (config_options f) = filter (\<lambda>n. n \<notin> {''pid-file'', ''foreground'', ''config-file'', ''target''})
     (map od_long (command_line_options f argv0))"
  by (cases "HAVE_DAEMONIZE f"; cases "HAVE_MYSQL f"; cases "HAVE_MQTT f")
    (simp_all add: command_line_options_def config_options_def option_tables)

section \<open>What the flags switch on\<close>

lemma module_of_none: "module_of item = None \<Longrightarrow> debug_item can_open item streams = streams"
  by (simp add: debug_item_def)

lemma setFile_active [simp]: "ds_active (setFile can_open file s)"
  by (simp add: setFile_def open_file_def)

lemma items_active:
  "ds_active (fold (debug_item can_open) items streams m) \<longleftrightarrow>
     ds_active (streams m) \<or> (\<exists>item \<in> set items. module_of item = Some m)"
  by (induction items arbitrary: streams) (auto simp: debug_item_def split: option.splits if_splits)

text \<open>The files named for a module, in order; the empty name and the two standard streams are none.\<close>

definition files_for :: "debug_module \<Rightarrow> string list \<Rightarrow> string list" where
  "files_for m items =
     filter (\<lambda>f. f \<notin> {[], ''stdout'', ''stderr''}) (map (file_of 0) (filter (\<lambda>i. module_of i = Some m) items))"

lemma setFile_file:
  "ds_file (setFile can_open f s) =
     (if ds_file s = None \<and> f \<notin> {[], ''stdout'', ''stderr''} \<and> can_open f then Some f else ds_file s)"
  by (simp add: setFile_def open_file_def)

lemma items_file:
  "ds_file (fold (debug_item can_open) items streams m) =
     (case ds_file (streams m) of Some f \<Rightarrow> Some f | None \<Rightarrow> find can_open (files_for m items))"
proof (induction items arbitrary: streams)
  case Nil
  then show ?case by (simp add: files_for_def split: option.splits)
next
  case (Cons i items)
  show ?case
  proof (cases "module_of i = Some m")
    case True
    then have "debug_item can_open i streams m = setFile can_open (file_of 0 i) (streams m)"
      by (simp add: debug_item_def)
    then show ?thesis using True by (simp add: Cons.IH files_for_def setFile_file split: option.splits)
  next
    case False
    then have "debug_item can_open i streams m = streams m"
      by (auto simp: debug_item_def split: option.splits)
    moreover have "files_for m (i # items) = files_for m items" using False by (simp add: files_for_def)
    ultimately show ?thesis by (simp add: Cons.IH split: option.splits)
  qed
qed

section \<open>Properties\<close>

text \<open>
  the program starts exactly when the command line and the configuration could be read, help was
  not asked for, there is a target, and the room controller, if given, is \<open>rc30\<close> or \<open>rc35\<close>; then
  what was stored stays, except for the room controller, the foreground flag and the debug streams.
\<close>

theorem options_success_iff:
  "options_parse can_open tokens stored o1 = Returns ParseSuccess o2 \<longleftrightarrow>
     (case stored of
        Stored v \<Rightarrow>
          \<not> bv_help v \<and> bv_target v \<noteq> None \<and> bv_rcType v \<in> {None, Some ''rc30'', Some ''rc35''}
          \<and> o2 = (bv_stored v o1)\<lparr>
                o_rcType := (case bv_rcType v of None \<Rightarrow> o_rcType (bv_stored v o1)
                             | Some t \<Rightarrow> if t = ''rc30'' then RC30 else RC35),
                o_daemonize := (o_daemonize (bv_stored v o1) \<and> \<not> bv_foreground v),
                o_debugStreams := (case bv_debug v of None \<Rightarrow> o_debugStreams (bv_stored v o1)
                   | Some flags \<Rightarrow> debug_flags can_open tokens flags (o_debugStreams (bv_stored v o1)))\<rparr>
      | _ \<Rightarrow> False)"
proof (cases stored)
  case (Stored v)
  show ?thesis
  proof (cases "bv_help v \<or> bv_target v = None")
    case False
    then show ?thesis
      using Stored
      by (cases "bv_rcType v"; cases "bv_debug v"; cases "bv_foreground v")
        (auto simp: options_parse_def Let_def)
  qed (use Stored in \<open>auto simp: options_parse_def Let_def\<close>)
qed (simp_all add: options_parse_def)

text \<open>
  a list of debug flags switches on exactly the modules whose name starts one of its entries, so
  that the flag \<open>stats\<close>, which the help text offers, switches nothing on; and the output of a module
  goes to the first of the files named for it that can be opened: a later file is not used, because
  its buffer has one open already.
\<close>

theorem debug_flags_effect:
  assumes "flags \<noteq> ''none''" and "take 3 flags \<noteq> ''all''"
  shows "(ds_active (debug_flags can_open tokens flags (\<lambda>_. stream_init) m) \<longleftrightarrow>
       (\<exists>item \<in> set (tokens flags). module_of item = Some m))
     \<and> ds_file (debug_flags can_open tokens flags (\<lambda>_. stream_init) m) = find can_open (files_for m (tokens flags))
     \<and> module_of ''stats'' = None"
  using assms by (simp add: debug_flags_def items_active items_file stream_init_def module_of_def)

lemma debug_flags_effect_witness:
  "ds_active (debug_flags (\<lambda>_. True) (\<lambda>_. [''io=/a'', ''stats'', ''io=/b'']) ''io=/a,stats,io=/b'' (\<lambda>_. stream_init) DebugIo)
   \<and> ds_file (debug_flags (\<lambda>_. True) (\<lambda>_. [''io=/a'', ''stats'', ''io=/b'']) ''io=/a,stats,io=/b'' (\<lambda>_. stream_init) DebugIo)
       = Some ''/a''"
  using debug_flags_effect [of "''io=/a,stats,io=/b''" "\<lambda>_. True" "\<lambda>_. [''io=/a'', ''stats'', ''io=/b'']" DebugIo]
  by (simp add: module_of_def files_for_def file_of_def)

end
