(* ===== verification/DebugOutput.thy ===== *)
theory DebugOutput
  imports IoHandler Options
begin

text \<open>
  The debug output about telegrams and bytes: the line for a received telegram and the dump of a composed
  one (\<open>EmsMessage.cpp\<close>), the bytes read and written (\<open>IoHandler.cpp\<close>, \<open>SendingSerialHandler.cpp\<close>,
  \<open>TcpHandler.cpp\<close>), and the lines about requests (\<open>ApiCommandParser.cpp\<close>).  Output goes to the buffer that
  the stream has at that time, whether the stream is switched on or not; only some of the code asks.
\<close>

section \<open>Writing to a stream\<close>

definition stream_print :: "debug_stream \<Rightarrow> string \<Rightarrow> (sink \<times> string) list" where
  "stream_print s text = [(ds_sink s, text)]"

definition stream_print_if_active :: "debug_stream \<Rightarrow> string \<Rightarrow> (sink \<times> string) list" where
  "stream_print_if_active s text = (if ds_active s then stream_print s text else [])"

section \<open>Bytes\<close>

text \<open>\<open>setw(2)\<close>, \<open>setfill('0')\<close> and \<open>hex\<close>, with a literal \<open>0x\<close> before each byte.\<close>

definition hex_dump :: "bytes \<Rightarrow> string" where
  "hex_dump bs = concat (map (\<lambda>b. '' 0x'' @ fmt_0x 2 (unat b)) bs)"

text \<open>
  \<open>showbase\<close> instead of the literal: the base counts for the width, and zero has none, so that zero is
  \<open>00\<close> and the bytes below 16 have one digit.
\<close>

definition io_byte :: "u8 \<Rightarrow> string" where
  "io_byte b = pad_left CHR ''0'' 2 (if b = 0 then ''0'' else ''0x'' @ hex_of_nat (unat b))"

definition io_dump :: "bytes \<Rightarrow> string" where
  "io_dump bs = concat (map (\<lambda>b. io_byte b @ '' '') bs)"

definition got_bytes_line :: "bytes \<Rightarrow> string" where
  "got_bytes_line bs = ''IO: Got bytes '' @ io_dump bs"

definition sending_bytes_line :: "bytes \<Rightarrow> string" where
  "sending_bytes_line bs = ''IO: Sending bytes '' @ io_dump bs"

definition readComplete_debug :: "debug_stream \<Rightarrow> bytes option \<Rightarrow> (sink \<times> string) list" where
  "readComplete_debug s outcome =
     (case outcome of None \<Rightarrow> [] | Some bs \<Rightarrow> stream_print_if_active s (got_bytes_line bs))"

definition serial_send_debug :: "debug_stream \<Rightarrow> io_handler \<Rightarrow> bytes \<Rightarrow> (sink \<times> string) list" where
  "serial_send_debug s h sendData =
     (if io_active h then stream_print_if_active s (sending_bytes_line (serial_frame sendData)) else [])"

definition tcp_send_debug :: "debug_stream \<Rightarrow> bytes \<Rightarrow> (sink \<times> string) list" where
  "tcp_send_debug s sendData = stream_print_if_active s (sending_bytes_line sendData)"

section \<open>Telegrams\<close>

record local_time =
  tm_mday :: nat
  tm_mon :: nat
  tm_year :: nat
  tm_hour :: nat
  tm_min :: nat
  tm_sec :: nat

definition message_line :: "local_time \<Rightarrow> ems_message \<Rightarrow> string" where
  "message_line time m =
     ''MESSAGE['' @ fmt_0d 2 (tm_mday time) @ ''.'' @ fmt_0d 2 (tm_mon time + 1) @ ''.''
       @ fmt_0d 4 (tm_year time + 1900) @ '' '' @ fmt_0d 2 (tm_hour time) @ '':'' @ fmt_0d 2 (tm_min time)
       @ '':'' @ fmt_0d 2 (tm_sec time) @ ''']: ''
       @ ''source 0x'' @ fmt_0x 2 (unat (m_source m)) @ '', dest 0x'' @ fmt_0x 2 (unat (m_dest m))
       @ '', type 0x'' @ fmt_0x 4 (unat (getType m)) @ '', offset '' @ fmt_d (unat (m_offset m))
       @ '', data:'' @ hex_dump (m_data m)"

definition handle_debug :: "debug_stream \<Rightarrow> local_time \<Rightarrow> ems_message \<Rightarrow> (sink \<times> string) list" where
  "handle_debug s time m = stream_print_if_active s (message_line time m)"

text \<open>The dump of a composed telegram is not behind a test.\<close>

definition composed_line :: "bytes \<Rightarrow> string" where
  "composed_line bs = ''EmsMessage DATA COMPOSED: '' @ hex_dump bs"

definition getSendData_debug :: "debug_stream \<Rightarrow> ems_message \<Rightarrow> bool \<Rightarrow> (sink \<times> string) list result" where
  "getSendData_debug s m omitSenderAddress =
     bindR (getSendData m omitSenderAddress) (\<lambda>bs. Inr (stream_print s (composed_line bs)))"

text \<open>Neither are the lines about a request that is started and a telegram that is made.\<close>

definition start_request_debug :: "debug_stream \<Rightarrow> u8 \<Rightarrow> u16 \<Rightarrow> nat \<Rightarrow> (sink \<times> string) list" where
  "start_request_debug s dest type offset =
     stream_print s (''STARTREQUEST: dest=0x'' @ fmt_0x 2 (unat dest) @ ''  type=0x'' @ fmt_0x 4 (unat type)
       @ ''  offset='' @ fmt_d offset @ ''  '')"

definition send_command_debug :: "debug_stream \<Rightarrow> u8 \<Rightarrow> u16 \<Rightarrow> u8 \<Rightarrow> (sink \<times> string) list" where
  "send_command_debug s dest type offset =
     stream_print s (''New EmsMessage: dest=0x'' @ fmt_0x 2 (unat dest) @ ''  type=0x'' @ fmt_0x 4 (unat type)
       @ ''  offset='' @ fmt_d (unat offset) @ ''  '')"

text \<open>The line of the data stream for a telegram that no parser takes.\<close>

definition unhandled_debug :: "debug_stream \<Rightarrow> ems_message \<Rightarrow> (sink \<times> string) list" where
  "unhandled_debug s m =
     stream_print_if_active s (''DATA: Unhandled message received(source 0x'' @ fmt_0x 2 (unat (m_source m))
       @ '', type 0x'' @ fmt_0x 2 (unat (m_type m)) @ '').'')"

section \<open>Reading the dumps back\<close>

definition hex_value :: "char \<Rightarrow> nat" where
  "hex_value c = (if is_digit c then digit_value c else of_char c - 87)"

fun undump :: "string \<Rightarrow> bytes" where
  "undump (a # b # c # h # l # rest) = of_nat (16 * hex_value h + hex_value l) # undump rest"
| "undump _ = []"

definition token_byte :: "string \<Rightarrow> u8" where
  "token_byte t = (if take 2 t = ''0x'' then of_nat (fold (\<lambda>c n. 16 * n + hex_value c) (drop 2 t) 0) else 0)"

function undump_io :: "string \<Rightarrow> bytes" where
  "undump_io s = (if s = [] then [] else
     token_byte (takeWhile (\<lambda>c. c \<noteq> CHR '' '') s) # undump_io (drop 1 (dropWhile (\<lambda>c. c \<noteq> CHR '' '') s)))"
  by pat_completeness auto
termination
proof (relation "measure length")
  fix s :: string
  assume "s \<noteq> []"
  then have "length (drop 1 (dropWhile (\<lambda>c. c \<noteq> CHR '' '') s)) < length s"
    using length_dropWhile_le [of "\<lambda>c. c \<noteq> CHR '' ''" s] by (cases s) auto
  then show "(drop 1 (dropWhile (\<lambda>c. c \<noteq> CHR '' '') s), s) \<in> measure length" by simp
qed simp

declare undump_io.simps [simp del]

lemma hex_chars_checked:
  "list_all (\<lambda>n. hex_value (hex_char n) = n \<and> hex_char n \<noteq> CHR '' '') [0..<16]" "hex_char 0 = CHR ''0''"
  by code_simp+

lemma hex_char_simps [simp]:
  assumes "n < 16"
  shows "hex_value (hex_char n) = n" "hex_char n \<noteq> CHR '' ''" "CHR '' '' \<noteq> hex_char n"
proof -
  have "n \<in> set [0..<16]" using assms by simp
  then show "hex_value (hex_char n) = n" "hex_char n \<noteq> CHR '' ''" "CHR '' '' \<noteq> hex_char n"
    using hex_chars_checked(1) unfolding list_all_iff by metis+
qed

lemma hex_of_byte:
  "n < 16 \<Longrightarrow> hex_of_nat n = [hex_char n]"
  "16 \<le> n \<Longrightarrow> n < 256 \<Longrightarrow> hex_of_nat n = [hex_char (n div 16), hex_char (n mod 16)]"
  by (subst hex_of_nat.simps, simp add: hex_of_nat.simps [of "n div 16"])+

lemma fmt_0x_byte: "n < 256 \<Longrightarrow> fmt_0x 2 n = [hex_char (n div 16), hex_char (n mod 16)]"
  using hex_of_byte [of n] hex_chars_checked(2) by (cases "n < 16") (simp_all add: fmt_0x_def pad_left_def)

lemma byte_of_unat: "of_nat (unat b) = (b::u8)"
  by simp

lemma undump_hex: "undump (hex_dump bs) = bs"
proof (induction bs)
  case (Cons b bs)
  have "(16 * (unat b div 16) + unat b mod 16 :: nat) = unat b" by simp
  moreover have "unat b div 16 < 16" using unat_u8 [of b] by auto
  ultimately show ?case
    using Cons unat_u8 [of b] by (simp add: hex_dump_def fmt_0x_byte byte_of_unat del: of_nat_add of_nat_mult)
qed (simp add: hex_dump_def)

lemma io_byte_cases:
  "io_byte b = (if b = 0 then ''00'' else if unat b < 16 then ''0x'' @ [hex_char (unat b)]
     else ''0x'' @ [hex_char (unat b div 16), hex_char (unat b mod 16)])"
  using hex_of_byte [of "unat b"] unat_u8 [of b] by (simp add: io_byte_def pad_left_def)

lemma io_byte_token: "token_byte (io_byte b) = b \<and> CHR '' '' \<notin> set (io_byte b)"
proof -
  have "unat b div 16 < 16" using unat_u8 [of b] by auto
  then show ?thesis
    by (auto simp: io_byte_cases token_byte_def byte_of_unat simp del: of_nat_add of_nat_mult)
qed

lemma undump_io_dump: "undump_io (io_dump bs) = bs"
proof (induction bs)
  case (Cons b bs)
  have "takeWhile (\<lambda>c. c \<noteq> CHR '' '') (io_dump (b # bs)) = io_byte b"
    "dropWhile (\<lambda>c. c \<noteq> CHR '' '') (io_dump (b # bs)) = CHR '' '' # io_dump bs"
    using io_byte_token [of b] by (auto simp: io_dump_def takeWhile_append dropWhile_append)
  moreover have "io_dump (b # bs) \<noteq> []" by (simp add: io_dump_def)
  ultimately show ?case using Cons io_byte_token [of b] by (subst undump_io.simps) simp
qed (simp add: io_dump_def undump_io.simps)

section \<open>Properties\<close>

text \<open>
  what the debug output shows can be read back: the bytes of the line about a received
  telegram, of the dump of a composed one, and of the lines about reads and writes, whose zero bytes
  and small bytes look different, are the bytes that were handled.
\<close>

theorem debug_dumps_roundtrip:
  "undump (drop (length (composed_line [])) (composed_line bs)) = bs
   \<and> (\<exists>head. message_line time m = head @ hex_dump (m_data m) \<and> undump (hex_dump (m_data m)) = m_data m)
   \<and> undump_io (drop (length (got_bytes_line [])) (got_bytes_line bs)) = bs
   \<and> undump_io (drop (length (sending_bytes_line [])) (sending_bytes_line bs)) = bs"
proof -
  have "\<exists>head. message_line time m = head @ hex_dump (m_data m)"
    unfolding message_line_def append_assoc [symmetric] by blast
  then show ?thesis
    by (simp add: composed_line_def got_bytes_line_def sending_bytes_line_def undump_hex undump_io_dump hex_dump_def [of "[]"]
        io_dump_def [of "[]"])
qed

text \<open>
  switching the debug output off does not silence it: with every flag off, as after
  \<open>--debug none\<close> or without the option, what is received prints nothing, but each request that is
  started and each telegram that is composed for sending prints a line on the standard output.
\<close>

theorem debug_off_still_prints:
  assumes "getSendData m omit = Inr bs"
  shows "\<exists>line1 line2 line3. getSendData_debug (stream_reset s) m omit = Inr [(StdoutSink, line1)]
    \<and> start_request_debug (stream_reset s) dest type offset = [(StdoutSink, line2)]
    \<and> send_command_debug (stream_reset s) dest type off = [(StdoutSink, line3)]
    \<and> handle_debug (stream_reset s) time m = [] \<and> readComplete_debug (stream_reset s) r = []
    \<and> tcp_send_debug (stream_reset s) bs = []"
  using assms by (simp add: getSendData_debug_def start_request_debug_def send_command_debug_def handle_debug_def
      readComplete_debug_def tcp_send_debug_def stream_print_def stream_print_if_active_def stream_reset_def
      split: option.split)

lemma debug_off_still_prints_witness:
  "\<exists>line1. getSendData_debug (stream_reset stream_init) (sendMessage_ctor 0x90 0x06 0 [1] False) False = Inr [(StdoutSink, line1)]"
proof -
  obtain bs where "getSendData (sendMessage_ctor 0x90 0x06 0 [1] False) False = Inr bs"
    by (simp add: getSendData_def sendMessage_ctor_def Let_def)
  from debug_off_still_prints [OF this] show ?thesis by blast
qed

end
