(* ===== verification/DataHandler.thy ===== *)
theory DataHandler
  imports ValueCache
begin

text \<open>
  The live data port (\<open>DataHandler.h\<close>, \<open>DataHandler.cpp\<close>): every reading is written as a line to
  every connection.  A connection is a number, \<open>dh_written\<close> the lines it was sent (without the
  newline that \<open>output\<close> adds); sockets are replaced by the outcome of an operation.
\<close>

datatype data_outcome = Done | Aborted_op | Failed

record data_handler =
  dh_connections :: "nat list"
  dh_written :: "nat \<Rightarrow> string list"
  dh_accepting :: bool

definition data_startAccepting :: "data_handler \<Rightarrow> data_handler" where
  "data_startAccepting h = h\<lparr>dh_accepting := True\<rparr>"

definition data_handler_init :: data_handler where
  "data_handler_init = data_startAccepting \<lparr>dh_connections = [], dh_written = (\<lambda>c. []), dh_accepting = False\<rparr>"

definition data_startConnection :: "nat \<Rightarrow> data_handler \<Rightarrow> data_handler" where
  "data_startConnection c h = h\<lparr>dh_connections := List.insert c (dh_connections h)\<rparr>"

definition data_stopConnection :: "nat \<Rightarrow> data_handler \<Rightarrow> data_handler" where
  "data_stopConnection c h = h\<lparr>dh_connections := remove1 c (dh_connections h)\<rparr>"

definition data_handleAccept :: "data_outcome \<Rightarrow> nat \<Rightarrow> data_handler \<Rightarrow> data_handler" where
  "data_handleAccept outcome c h =
     (let h = h\<lparr>dh_accepting := False\<rparr>
      in if outcome = Done then data_startAccepting (data_startConnection c h) else h)"

text \<open>The destructor.\<close>

definition data_destroy :: "data_handler \<Rightarrow> data_handler" where
  "data_destroy h = h\<lparr>dh_accepting := False, dh_connections := []\<rparr>"

definition data_handleWrite :: "data_outcome \<Rightarrow> nat \<Rightarrow> data_handler \<Rightarrow> data_handler" where
  "data_handleWrite outcome c h = (if outcome = Failed then data_stopConnection c h else h)"

definition data_output :: "string \<Rightarrow> nat \<Rightarrow> data_handler \<Rightarrow> data_handler" where
  "data_output line c h = h\<lparr>dh_written := (dh_written h)(c := dh_written h c @ [line])\<rparr>"

definition connection_handleValue :: "ems_value \<Rightarrow> nat \<Rightarrow> data_handler \<Rightarrow> data_handler result" where
  "connection_handleValue value c h =
     (let type = getTypeName (v_type value); subtype = getSubTypeName (v_subType value)
      in if type = [] then Inr h
         else bindR (formatValue value) (\<lambda>text.
                Inr (data_output ((if subtype \<noteq> [] then subtype @ '' '' else []) @ type @ '' '' @ text) c h)))"

fun for_each_connection :: "ems_value \<Rightarrow> nat list \<Rightarrow> data_handler \<Rightarrow> data_handler result" where
  "for_each_connection value [] h = Inr h"
| "for_each_connection value (c # cs) h = bindR (connection_handleValue value c h) (for_each_connection value cs)"

definition data_handleValue :: "ems_value \<Rightarrow> data_handler \<Rightarrow> data_handler result" where
  "data_handleValue value h = for_each_connection value (dh_connections h) h"

section \<open>What the connections get\<close>

text \<open>The specification: the lines of a sequence of readings, nothing for nameless types.\<close>

definition live_lines :: "ems_value \<Rightarrow> string list" where
  "live_lines v =
     (if getTypeName (v_type v) = [] then []
      else case formatValue v of
          Inl f \<Rightarrow> []
        | Inr text \<Rightarrow> [(if getSubTypeName (v_subType v) \<noteq> [] then getSubTypeName (v_subType v) @ '' '' else [])
                       @ getTypeName (v_type v) @ '' '' @ text])"

definition data_ok :: "data_handler \<Rightarrow> bool" where
  "data_ok h \<longleftrightarrow> distinct (dh_connections h)"

lemma connection_handleValue_lines:
  assumes "formatValue v = Inr text"
  shows "connection_handleValue v c h = Inr (h\<lparr>dh_written := (dh_written h)(c := dh_written h c @ live_lines v)\<rparr>)"
  using assms by (simp add: connection_handleValue_def live_lines_def data_output_def Let_def)

lemma for_each_connection_lines:
  assumes "formatValue v = Inr text"
  shows "distinct cs \<Longrightarrow> for_each_connection v cs h =
     Inr (h\<lparr>dh_written := (\<lambda>c. dh_written h c @ (if c \<in> set cs then live_lines v else []))\<rparr>)"
proof (induction cs arbitrary: h)
  case (Cons c cs)
  then show ?case
    by (simp add: connection_handleValue_lines [OF assms]) (auto intro!: arg_cong [where f = "\<lambda>f. h\<lparr>dh_written := f\<rparr>"])
qed simp

lemma data_handleValue_lines:
  "data_ok h \<Longrightarrow> formatValue v = Inr text \<Longrightarrow> data_handleValue v h =
     Inr (h\<lparr>dh_written := (\<lambda>c. dh_written h c @ (if c \<in> set (dh_connections h) then live_lines v else []))\<rparr>)"
  by (simp add: data_handleValue_def data_ok_def for_each_connection_lines)

lemma data_ok_simps [simp]:
  "data_ok data_handler_init" "data_ok h \<Longrightarrow> data_ok (data_startConnection c h)"
  "data_ok h \<Longrightarrow> data_ok (data_stopConnection c h)" "data_ok h \<Longrightarrow> data_ok (data_handleAccept o' c h)"
  "data_ok h \<Longrightarrow> data_ok (data_handleWrite o' c h)" "data_ok (h\<lparr>dh_written := w\<rparr>) = data_ok h"
  by (simp_all add: data_ok_def data_handler_init_def data_startConnection_def data_stopConnection_def
      data_handleAccept_def data_handleWrite_def data_startAccepting_def Let_def)

text \<open>The line of the live port and the line of the cache differ only in the separator and the time.\<close>

lemma live_and_cached:
  assumes "getTypeName (v_type v) \<noteq> []" and "formatValue v = Inr text"
  shows "\<exists>name. live_lines v = [name @ '' '' @ text]
     \<and> cache_line (value_key v, \<lparr>ce_timestamp = now, ce_value = v\<rparr>) =
         Inr (name @ '' = '' @ text @ '' | '' @ dec_of_nat now @ ''\<newline>'')"
  using assms by (simp add: live_lines_def cache_line_def value_key_def Let_def)

end
