(* ===== verification/Descriptive.thy ===== *)
theory Descriptive
  imports ValueApi IoHandler
begin

text \<open>
  \<open>printDescriptive\<close> of \<open>IoHandler.cpp\<close>: the German text of a reading in the data debug stream.  Its
  tables are named with the prefix \<open>desc_\<close>, since \<open>ValueApi.cpp\<close> has tables of the same names.
  Characters outside ASCII are the bytes of their UTF-8 encoding.
\<close>

section \<open>Tables\<close>

definition desc_TYPEMAPPING :: "(ems_type \<times> string) list" where
  "desc_TYPEMAPPING = [
     (NumT SollTemp, ''Solltemperatur''), (NumT IstTemp, ''Isttemperatur''),
     (NumT SetTemp, ''Temperatureinstellung''), (NumT MinTemp, ''Minimale Temperatur''),
     (NumT MaxTemp, ''Maximale Temperatur''), (NumT TagTemp, ''Tagtemperatur''),
     (NumT NachtTemp, ''Nachttemperatur''), (NumT ExtraTemp, ''Extrawassertemperatur''),
     (NumT KomfortTemp, ''Komfortwassertemperatur''),
     (NumT ReduzierteTemp, ''Reduzierte Wassertemperatur''),
     (NumT ManualTemp, ''Manuelle Temperatur''),
     (NumT TemporaryTemp, ''Tempor'' @ [CHR 0xC3, CHR 0xA4] @ ''re Raumtemperatur''),
     (NumT BoostTemp, ''Boosttemperatur''), (NumT ZirkProStunde, ''Zirkulationen pro Stunde''),
     (NumT UrlaubTemp, ''Urlaubstemperatur''), (NumT RaumSollTemp, ''Raum-Solltemperatur''),
     (NumT RaumIstTemp, ''Raum-Isttemperatur''), (NumT RaumEinfluss, ''Max. Raumeinfluss''),
     (NumT RaumOffset, ''Raumoffset''),
     (NumT SchwelleSommerWinter, ''Schwelle Sommer/Winter''),
     (NumT FrostSchutzTemp, ''Frostschutztemperatur''),
     (NumT AuslegungsTemp, ''Auslegungstemperatur''),
     (NumT RaumUebersteuerTemp, ''Tempor'' @ [CHR 0xC3, CHR 0xA4] @ ''re Raumtemperatur'' @ [CHR 0xC3, CHR 0xBC] @ ''bersteuerung''),
     (NumT AbsenkungsSchwellenTemp, ''Schwellentemperatur Au'' @ [CHR 0xC3, CHR 0x9F] @ ''enhaltbetrieb''),
     (NumT UrlaubAbsenkungsSchwellenTemp, ''Schwellentemperatur Au'' @ [CHR 0xC3, CHR 0x9F] @ ''enhaltbetrieb Urlaub''),
     (NumT AbsenkungsAbbruchTemp, ''Nachtabsenkung abbrechen unterhalb''),
     (NumT GedaempfteTemp, ''Temperatur (ged'' @ [CHR 0xC3, CHR 0xA4] @ ''mpft)''),
     (NumT DesinfektionsTemp, ''Desinfektionstemperatur''),
     (NumT RaumTemperaturAenderung, ''Raumtemperatur'' @ [CHR 0xC3, CHR 0xA4] @ ''nderung''),
     (NumT Mischersteuerung, ''Mischersteuerung''), (NumT Flammenstrom, ''Flammenstrom''),
     (NumT Systemdruck, ''Systemdruck''), (IntT BetriebsZeit, ''Betriebszeit''),
     (IntT BetriebsZeit, ''Betriebszeit 2''), (NumT SollModulation, ''Sollwert Modulation''),
     (NumT IstModulation, ''Istwert Modulation''), (NumT MinModulation, ''Min. Modulation''),
     (NumT MaxModulation, ''Max. Modulation''),
     (NumT EinschaltHysterese, ''Einschalthysterese''),
     (NumT AusschaltHysterese, ''Abschalthysterese''),
     (NumT DurchflussMenge, ''Durchflussmenge''),
     (NumT SollLeistung, ''Angeforderte Leistung''), (IntT HeizZeit, ''Heizzeit''),
     (IntT WarmwasserbereitungsZeit, ''WW-Bereitungszeit''),
     (IntT Brennerstarts, ''Brennerstarts''),
     (IntT WarmwasserBereitungen, ''WW-Bereitungen ''),
     (IntT EinschaltoptimierungsZeit, ''Einschaltoptimierungszeit''),
     (IntT AusschaltoptimierungsZeit, ''Abschaltoptimierungszeit''),
     (IntT AntipendelZeit, ''Antipendelzeit''), (IntT NachlaufZeit, ''Nachlaufzeit''),
     (IntT DesinfektionStunde, ''Thermische Desinfektion Stunde''),
     (IntT HektoStundenVorWartung, ''Wartungsintervall in 100h Brennerlaufzeit''),
     (IntT MonateVorWartung, ''Wartungsintervall in Monaten Laufzeit''),
     (IntT PausenZeit, ''restl. Pausenzeit''), (IntT PartyZeit, ''restl. Partyzeit''),
     (BoolT FlammeAktiv, ''Flamme''), (BoolT BrennerAktiv, ''Brenner''),
     (BoolT ZuendungAktiv, ''Z'' @ [CHR 0xC3, CHR 0xBC] @ ''ndung''),
     (BoolT PumpeAktiv, ''Pumpe''), (BoolT ZirkulationAktiv, ''Zirkulation''),
     (BoolT DreiWegeVentilAufWW, ''3-Wege-Ventil auf WW''),
     (BoolT EinmalLadungAktiv, ''Einmalladung''),
     (BoolT DesinfektionAktiv, ''Therm. Desinfektion''),
     (BoolT NachladungAktiv, ''Nachladung''), (BoolT WarmwasserBereitung, ''WW-Bereitung''),
     (BoolT WarmwasserTempOK, ''WW-Temperatur OK''), (BoolT Tagbetrieb, ''Tagbetrieb''),
     (BoolT Sommerbetrieb, ''Sommerbetrieb''),
     (BoolT Sommerbetriebsart, ''Sommerbetriebsart''),
     (BoolT Ausschaltoptimierung, ''Ausschaltoptimierung''),
     (BoolT Einschaltoptimierung, ''Einschaltoptimierung''),
     (BoolT Estrichtrocknung, ''Estrichtrocknung''), (BoolT WWVorrang, ''WW-Vorrang''),
     (BoolT Ferien, ''Ferienbetrieb''), (BoolT Urlaub, ''Urlaubsbetrieb''),
     (BoolT Party, ''Partybetrieb''), (BoolT Pause, ''Pausebetrieb''),
     (BoolT Frostschutzbetrieb, ''Frostschutzbetrieb''),
     (BoolT SchaltuhrEin, ''Schaltuhr aktiv''),
     (BoolT KesselSchalter, ''per Kesselschalter freigegeben''),
     (BoolT EigenesProgrammAktiv, ''Eigenes Programm aktiv''),
     (BoolT EinmalLadungsLED, ''Einmalladungs-LED''),
     (BoolT Desinfektion, ''Thermische Desinfektion''),
     (BoolT ATDaempfung, ''D'' @ [CHR 0xC3, CHR 0xA4] @ ''mpfung Au'' @ [CHR 0xC3, CHR 0x9F] @ ''entemperatur''),
     (BoolT SchaltzeitOptimierung, ''Schaltzeitoptimierung''),
     (BoolT Fuehler1Defekt, ''F'' @ [CHR 0xC3, CHR 0xBC] @ ''hler 1 defekt''),
     (BoolT Fuehler2Defekt, ''F'' @ [CHR 0xC3, CHR 0xBC] @ ''hler 2 defekt''),
     (BoolT Stoerung, ''St'' @ [CHR 0xC3, CHR 0xB6] @ ''rung''),
     (BoolT StoerungDesinfektion, ''St'' @ [CHR 0xC3, CHR 0xB6] @ ''rung Desinfektion''),
     (BoolT Ladevorgang, ''Ladevorgang''), (EnumT WWSystemType, ''WW-System-Typ''),
     (EnumT Betriebsart, ''Betriebsart''), (EnumT Betriebszustand, ''Betriebszustand''),
     (EnumT Wartungsmeldungen, ''Wartungsmeldungen''),
     (EnumT WartungFaellig, ''Wartung f'' @ [CHR 0xC3, CHR 0xA4] @ ''llig?''),
     (EnumT DesinfektionTag, ''Thermische Desinfektion Tag''),
     (EnumT Schaltpunkte, ''Schaltpunkte''),
     (EnumT GebaeudeArt, ''Geb'' @ [CHR 0xC3, CHR 0xA4] @ ''udeart''),
     (EnumT AbsenkModus, ''Absenk-Modus''), (EnumT HeizSystem, ''Heizsystem''),
     (EnumT FuehrungsGroesse, ''F'' @ [CHR 0xC3, CHR 0xBC] @ ''hrungsgr'' @ [CHR 0xC3, CHR 0xB6, CHR 0xC3, CHR 0x9F] @ ''e''),
     (EnumT Frostschutz, ''Frostschutz''),
     (EnumT UrlaubAbsenkungsArt, ''Urlaubsabsenkungsart''),
     (EnumT FBTyp, ''Fernbedienungstyp''), (OtherT HKKennlinie, ''Kennlinie''),
     (OtherT Fehler, ''Fehler''), (BoolT Stoerung, ''Stoerung''),
     (OtherT SystemZeit, ''Systemzeit''), (OtherT Wartungstermin, ''Wartungstermin''),
     (OtherT ServiceCode, ''Servicecode''), (OtherT FehlerCode, ''Fehlercode'')]"

definition desc_SUBTYPEMAPPING :: "(sub_type \<times> string) list" where
  "desc_SUBTYPEMAPPING = [
     (HK1, ''HK1''), (HK2, ''HK2''), (HK3, ''HK3''), (HK4, ''HK4''), (Kessel, ''Kessel''),
     (Brenner, ''Brenner''), (KesselPumpe, ''Kesselpumpe''),
     (Ruecklauf, ''R'' @ [CHR 0xC3, CHR 0xBC] @ ''cklauf''),
     (Waermetauscher, ''W'' @ [CHR 0xC3, CHR 0xA4] @ ''rmetauscher''), (WW, ''Warmwasser''),
     (Zirkulation, ''Zirkulation''), (Aussen, ''Au'' @ [CHR 0xC3, CHR 0x9F] @ ''en''),
     (Abgas, ''Abgas''), (Ansaugluft, ''Ansaugluft''), (Solar, ''Solar''),
     (SolarSpeicher, ''Solarspeicher''), (SolarKollektor, ''Solarkollektor'')]"

definition desc_UNITMAPPING :: "(ems_type \<times> string) list" where
  "desc_UNITMAPPING = [
     (NumT SollTemp, [CHR 0xC2, CHR 0xB0] @ ''C''),
     (NumT IstTemp, [CHR 0xC2, CHR 0xB0] @ ''C''),
     (NumT SetTemp, [CHR 0xC2, CHR 0xB0] @ ''C''),
     (NumT MinTemp, [CHR 0xC2, CHR 0xB0] @ ''C''),
     (NumT MaxTemp, [CHR 0xC2, CHR 0xB0] @ ''C''),
     (NumT TagTemp, [CHR 0xC2, CHR 0xB0] @ ''C''),
     (NumT ManualTemp, [CHR 0xC2, CHR 0xB0] @ ''C''),
     (NumT TemporaryTemp, [CHR 0xC2, CHR 0xB0] @ ''C''),
     (NumT BoostTemp, [CHR 0xC2, CHR 0xB0] @ ''C''), (NumT BoostHours, ''h''),
     (NumT NachtTemp, [CHR 0xC2, CHR 0xB0] @ ''C''),
     (NumT UrlaubTemp, [CHR 0xC2, CHR 0xB0] @ ''C''),
     (NumT RaumSollTemp, [CHR 0xC2, CHR 0xB0] @ ''C''),
     (NumT RaumIstTemp, [CHR 0xC2, CHR 0xB0] @ ''C''), (NumT RaumEinfluss, ''K''),
     (NumT RaumOffset, ''K''), (NumT SchwelleSommerWinter, [CHR 0xC2, CHR 0xB0] @ ''C''),
     (NumT FrostSchutzTemp, [CHR 0xC2, CHR 0xB0] @ ''C''),
     (NumT AuslegungsTemp, [CHR 0xC2, CHR 0xB0] @ ''C''),
     (NumT RaumUebersteuerTemp, [CHR 0xC2, CHR 0xB0] @ ''C''),
     (NumT AbsenkungsSchwellenTemp, [CHR 0xC2, CHR 0xB0] @ ''C''),
     (NumT UrlaubAbsenkungsSchwellenTemp, [CHR 0xC2, CHR 0xB0] @ ''C''),
     (NumT AbsenkungsAbbruchTemp, [CHR 0xC2, CHR 0xB0] @ ''C''),
     (NumT GedaempfteTemp, [CHR 0xC2, CHR 0xB0] @ ''C''),
     (NumT DesinfektionsTemp, [CHR 0xC2, CHR 0xB0] @ ''C''),
     (NumT RaumTemperaturAenderung, ''K/min''), (NumT EinschaltHysterese, ''K''),
     (NumT AusschaltHysterese, ''K''), (NumT DurchflussMenge, ''l/min''),
     (NumT IstModulation, ''%''), (NumT SollModulation, ''%''), (NumT MinModulation, ''%''),
     (NumT MaxModulation, ''%''), (NumT SollLeistung, ''%''),
     (NumT Flammenstrom, [CHR 0xC2, CHR 0xB5] @ ''A''), (NumT Systemdruck, ''bar''),
     (IntT BetriebsZeit, ''min''), (IntT BetriebsZeit2, ''min''), (IntT HeizZeit, ''min''),
     (IntT WarmwasserbereitungsZeit, ''min''), (IntT EinschaltoptimierungsZeit, ''min''),
     (IntT AusschaltoptimierungsZeit, ''min''), (IntT AntipendelZeit, ''min''),
     (IntT NachlaufZeit, ''min''), (IntT DesinfektionStunde, ''h''), (IntT PausenZeit, ''h''),
     (IntT PartyZeit, ''h'')]"

definition desc_WWSYSTEMMAPPING :: "value_names" where
  "desc_WWSYSTEMMAPPING = [
     (0, ''keins''), (1, ''Durchlauferhitzer''), (2, ''klein''),
     (3, ''gro'' @ [CHR 0xC3, CHR 0x9F]), (4, ''Speicherladesystem'')]"

definition desc_ZIRKSPMAPPING :: "value_names" where
  "desc_ZIRKSPMAPPING = [
     (0, ''aus''), (1, ''1x 3min''), (2, ''2x 3min''), (3, ''3x 3min''), (4, ''4x 3min''),
     (5, ''5x 3min''), (6, ''6x 3min''), (7, ''dauerhaft an'')]"

definition desc_MAINTENANCEMESSAGESMAPPING :: "value_names" where
  "desc_MAINTENANCEMESSAGESMAPPING = [
     (0, ''keine''), (1, ''nach Brennerstunden''), (2, ''nach Datum''),
     (3, ''nach Betriebsmonaten'')]"

definition desc_MAINTENANCENEEDEDMAPPING :: "value_names" where
  "desc_MAINTENANCENEEDEDMAPPING = [
     (0, ''nein''), (3, ''ja, wegen Betriebsstunden''), (8, ''ja, wegen Datum'')]"

definition desc_ERRORTYPEMAPPING :: "value_names" where
  "desc_ERRORTYPEMAPPING = [
     (0x10, ''Verriegelnder Fehler''), (0x11, ''Blockierender Fehler''),
     (0x12, ''Anlagenfehler''),
     (0x13, ''Zur'' @ [CHR 0xC3, CHR 0xBC] @ ''ckgesetzter Anlagenfehler'')]"

definition desc_WEEKDAYMAPPING :: "value_names" where
  "desc_WEEKDAYMAPPING = [
     (0, ''Montag''), (1, ''Dienstag''), (2, ''Mittwoch''), (3, ''Donnerstag''),
     (4, ''Freitag''), (5, ''Samstag''), (6, ''Sonntag'')]"

definition desc_OPMODEMAPPING :: "value_names" where
  "desc_OPMODEMAPPING = [
     (0, ''st'' @ [CHR 0xC3, CHR 0xA4] @ ''ndig aus''),
     (1, ''st'' @ [CHR 0xC3, CHR 0xA4] @ ''ndig an''), (2, ''Automatik'')]"

definition desc_HKOPMODEMAPPING :: "value_names" where
  "desc_HKOPMODEMAPPING = [
     (0, ''aus''), (1, ''durchheizen''), (2, ''Automatik'')]"

definition desc_HKSUMMEROPMODEMAPPING :: "value_names" where
  "desc_HKSUMMEROPMODEMAPPING = [
     (1, ''Automatik''), (2, ''heizen'')]"

definition desc_HKOPSTATEMAPPING :: "value_names" where
  "desc_HKOPSTATEMAPPING = [
     (0, ''aus''), (1, ''abgesenkt''), (2, ''manuell''), (3, ''normal''), (6, ''boost'')]"

definition desc_WWOPMODEMAPPING :: "value_names" where
  "desc_WWOPMODEMAPPING = [
     (0, ''aus''), (1, ''Eco''), (2, ''Komfort''), (3, ''wie Heizung''), (4, ''Automatik'')]"

definition desc_ZIRKOPMODEMAPPING :: "value_names" where
  "desc_ZIRKOPMODEMAPPING = [
     (0, ''aus''), (1, ''ein''), (2, ''wie Warmwasser''), (3, ''Automatik'')]"

definition desc_BUILDINGTYPEMAPPING :: "value_names" where
  "desc_BUILDINGTYPEMAPPING = [
     (1, ''leicht''), (2, ''mittel''), (3, ''schwer'')]"

definition desc_HEATINGTYPEMAPPING :: "value_names" where
  "desc_HEATINGTYPEMAPPING = [
     (1, ''Heizk'' @ [CHR 0xC3, CHR 0xB6] @ ''rper''), (2, ''Konvektor''),
     (3, ''Fu'' @ [CHR 0xC3, CHR 0x9F] @ ''boden'')]"

definition desc_REDUCTIONMODEMAPPING :: "value_names" where
  "desc_REDUCTIONMODEMAPPING = [
     (0, ''Abschalt''), (1, ''Reduziert''), (2, ''Raumhalt''),
     (3, ''Au'' @ [CHR 0xC3, CHR 0x9F] @ ''enhalt'')]"

definition desc_FROSTPROTECTMAPPING :: "value_names" where
  "desc_FROSTPROTECTMAPPING = [
     (0, ''kein''), (1, ''Au'' @ [CHR 0xC3, CHR 0x9F] @ ''entemperatur''),
     (2, ''Raumtemperatur 5 Grad'')]"

definition desc_RELEVANTVALUEMAPPING :: "value_names" where
  "desc_RELEVANTVALUEMAPPING = [
     (0, ''au'' @ [CHR 0xC3, CHR 0x9F] @ ''entemperaturgef'' @ [CHR 0xC3, CHR 0xBC] @ ''hrt''),
     (1, ''raumtemperaturgef'' @ [CHR 0xC3, CHR 0xBC] @ ''hrt'')]"

definition desc_VACATIONREDUCTIONMAPPING :: "value_names" where
  "desc_VACATIONREDUCTIONMAPPING = [
     (3, ''Au'' @ [CHR 0xC3, CHR 0x9F] @ ''enhalt''), (2, ''Raumhalt'')]"

definition desc_REMOTETYPEMAPPING :: "value_names" where
  "desc_REMOTETYPEMAPPING = [
     (0, ''Keine''), (1, ''RC20''), (2, ''RC3x'')]"

section \<open>Formatting\<close>

definition desc_enum_names :: "ems_value \<Rightarrow> value_names option" where
  "desc_enum_names value =
     (case v_type value of
        EnumT t \<Rightarrow>
          (case t of
             WWSystemType \<Rightarrow> Some desc_WWSYSTEMMAPPING
           | Schaltpunkte \<Rightarrow> Some desc_ZIRKSPMAPPING
           | Wartungsmeldungen \<Rightarrow> Some desc_MAINTENANCEMESSAGESMAPPING
           | WartungFaellig \<Rightarrow> Some desc_MAINTENANCENEEDEDMAPPING
           | Betriebsart \<Rightarrow>
               Some (if isForHK (v_subType value) then desc_HKOPMODEMAPPING
                     else if v_subType value = WW then desc_WWOPMODEMAPPING
                     else if v_subType value = Zirkulation then desc_ZIRKOPMODEMAPPING
                     else desc_OPMODEMAPPING)
           | Betriebszustand \<Rightarrow>
               Some (if isForHK (v_subType value) then desc_HKOPSTATEMAPPING
                     else if v_subType value = WW then desc_WWOPMODEMAPPING
                     else if v_subType value = Zirkulation then desc_ZIRKOPMODEMAPPING
                     else desc_OPMODEMAPPING)
           | DesinfektionTag \<Rightarrow> Some desc_WEEKDAYMAPPING
           | GebaeudeArt \<Rightarrow> Some desc_BUILDINGTYPEMAPPING
           | HeizSystem \<Rightarrow> Some desc_HEATINGTYPEMAPPING
           | AbsenkModus \<Rightarrow> Some desc_REDUCTIONMODEMAPPING
           | FBTyp \<Rightarrow> Some desc_REMOTETYPEMAPPING
           | Frostschutz \<Rightarrow> Some desc_FROSTPROTECTMAPPING
           | FuehrungsGroesse \<Rightarrow> Some desc_RELEVANTVALUEMAPPING
           | UrlaubAbsenkungsArt \<Rightarrow> Some desc_VACATIONREDUCTIONMAPPING)
      | BoolT t \<Rightarrow> (if t = Sommerbetriebsart then Some desc_HKSUMMEROPMODEMAPPING else None)
      | _ \<Rightarrow> None)"

text \<open>The name of the reading: subtype and type, with \<open>???\<close> for a type without a name.\<close>

definition desc_name :: "ems_type \<Rightarrow> sub_type \<Rightarrow> string" where
  "desc_name t st =
     (let type = map_of desc_TYPEMAPPING t; subtype = map_of desc_SUBTYPEMAPPING st
      in (case subtype of None \<Rightarrow> [] | Some s \<Rightarrow> s @ (if type \<noteq> None then ''-'' else []))
         @ (case type of None \<Rightarrow> ''???'' | Some s \<Rightarrow> s))"

definition desc_unit :: "ems_type \<Rightarrow> string" where
  "desc_unit t = (case map_of desc_UNITMAPPING t of None \<Rightarrow> [] | Some u \<Rightarrow> '' '' @ u)"

definition desc_enum :: "value_names option \<Rightarrow> u8 \<Rightarrow> string" where
  "desc_enum names b =
     (case (case names of None \<Rightarrow> None | Some m \<Rightarrow> map_of m b) of
        Some s \<Rightarrow> s | None \<Rightarrow> ''??? ('' @ dec_of_nat (unat b) @ '')'')"

definition degrees_C :: string where
  "degrees_C = [CHR '' '', CHR 0xC2, CHR 0xB0] @ ''C''"

definition desc_kennlinie :: "bytes \<Rightarrow> string result" where
  "desc_kennlinie k =
     bindR (vec_index k 0) (\<lambda>a. bindR (vec_index k 1) (\<lambda>b. bindR (vec_index k 2) (\<lambda>c.
       Inr (''-10'' @ degrees_C @ '': '' @ fmt_d (unat a) @ degrees_C @ '' / 0'' @ degrees_C @ '': '' @ fmt_d (unat b)
            @ degrees_C @ '' / 10'' @ degrees_C @ '': '' @ fmt_d (unat c) @ degrees_C))))"

definition desc_error :: "error_entry \<Rightarrow> string result" where
  "desc_error entry =
     (let record = ee_record entry; t = er_time record
      in case map_of desc_ERRORTYPEMAPPING (ucast (ee_type entry)) of
           None \<Rightarrow> Inl OutOfRangeThrown
         | Some s \<Rightarrow> Inr (s @ '' '' @ dec_of_nat (unat (ee_index entry)) @ '': '' @
             (if er_ascii record ! 0 = 0 then ''Leer''
              else ''Quelle 0x'' @ fmt_0x 2 (unat (er_source record)) @ '', Fehler ''
                @ [char_of_byte (er_ascii record ! 0), char_of_byte (er_ascii record ! 1)] @ '', Code ''
                @ fmt_d (unat (BE16_TO_CPU (er_code_be16 record))) @ '', Dauer ''
                @ fmt_d (unat (BE16_TO_CPU (er_duration_be16 record))) @ '' Minuten''
                @ (if dt_valid t
                   then ''; Zeitpunkt '' @ fmt_d (unat (dt_day t)) @ ''.'' @ fmt_d (unat (dt_month t)) @ ''.''
                     @ fmt_d (2000 + unat (dt_year t)) @ '' '' @ fmt_d (unat (dt_hour t)) @ '':''
                     @ fmt_0d 2 (unat (dt_minute t))
                   else [])) @ ''\<newline>''))"

definition desc_date :: "date_record \<Rightarrow> string" where
  "desc_date r = fmt_d (unat (d_day r)) @ ''.'' @ fmt_d (unat (d_month r)) @ ''.'' @ fmt_d (2000 + unat (d_year r))"

definition desc_flags :: "system_time_record \<Rightarrow> string" where
  "desc_flags r =
     (let flags = (if st_running r then [''l'' @ [CHR 0xC3, CHR 0xA4] @ ''uft''] else [])
            @ (if st_dcf r then [''DCF''] else []) @ (if st_dst r then [''Sommerzeit''] else [])
      in if flags = [] then []
         else '' ('' @ hd flags @ concat (map (\<lambda>f. '', '' @ f) (tl flags)) @ '')'')"

definition desc_system_time :: "system_time_record \<Rightarrow> string" where
  "desc_system_time r =
     (let c = st_common r
      in fmt_d (unat (dt_day c)) @ ''.'' @ fmt_d (unat (dt_month c)) @ ''.'' @ fmt_d (2000 + unat (dt_year c))
         @ (case map_of desc_WEEKDAYMAPPING (st_dayOfWeek r) of None \<Rightarrow> [] | Some d \<Rightarrow> '' ('' @ d @ '')'')
         @ '', '' @ fmt_d (unat (dt_hour c)) @ '':'' @ fmt_0d 2 (unat (dt_minute c)) @ '':''
         @ fmt_0d 2 (unat (st_second r)) @ desc_flags r)"

definition not_available :: string where
  "not_available = ''nicht verf'' @ [CHR 0xC3, CHR 0xBC] @ ''gbar''"

definition printDescriptive :: "ems_value \<Rightarrow> string result" where
  "printDescriptive value =
     bindR
       (case v_readingType value of
          Numeric \<Rightarrow>
            (if v_isValid value
             then bindR (get_float (v_value value)) (\<lambda>x. Inr (print_float x @ desc_unit (v_type value)))
             else Inr not_available)
        | Integer \<Rightarrow>
            (if v_isValid value
             then bindR (get_uint (v_value value)) (\<lambda>x. Inr (dec_of_nat (unat x) @ desc_unit (v_type value)))
             else Inr not_available)
        | Boolean \<Rightarrow> bindR (get_bool (v_value value)) (\<lambda>b. Inr (if b then ''AN'' else ''AUS''))
        | Enumeration \<Rightarrow> bindR (get_byte (v_value value)) (\<lambda>b. Inr (desc_enum (desc_enum_names value) b))
        | Kennlinie \<Rightarrow> bindR (get_bytes (v_value value)) desc_kennlinie
        | Error \<Rightarrow> bindR (get_error (v_value value)) desc_error
        | Date \<Rightarrow> bindR (get_date (v_value value)) (\<lambda>r. Inr (desc_date r))
        | SystemTime \<Rightarrow> bindR (get_system_time (v_value value)) (\<lambda>r. Inr (desc_system_time r))
        | Formatted \<Rightarrow> get_string (v_value value))
       (\<lambda>text. Inr (desc_name (v_type value) (v_subType value) @ '' = '' @ text))"

section \<open>Totality\<close>

lemma same_error_types: "map fst desc_ERRORTYPEMAPPING = map fst ERRORTYPEMAPPING"
  by (simp add: desc_ERRORTYPEMAPPING_def ERRORTYPEMAPPING_def)

lemma printDescriptive_total_iff:
  assumes "ems_value_wf v"
  shows "(\<exists>s. printDescriptive v = Inr s) \<longleftrightarrow> (\<exists>s. formatValue v = Inr s)"
proof -
  have "map_of desc_ERRORTYPEMAPPING b = None \<longleftrightarrow> map_of ERRORTYPEMAPPING b = None" for b
    using same_error_types by (metis dom_map_of_conv_image_fst domIff list.set_map)
  moreover have "(\<exists>s. desc_error e = Inr s) \<longleftrightarrow> map_of desc_ERRORTYPEMAPPING (ucast (ee_type e)) \<noteq> None"
    "(\<exists>s. format_error e = Inr s) \<longleftrightarrow> map_of ERRORTYPEMAPPING (ucast (ee_type e)) \<noteq> None" for e
    by (cases "map_of desc_ERRORTYPEMAPPING (ucast (ee_type e))"; simp add: desc_error_def Let_def)
      (cases "map_of ERRORTYPEMAPPING (ucast (ee_type e))"; simp add: format_error_def Let_def)
  ultimately have "(\<exists>s. desc_error e = Inr s) \<longleftrightarrow> (\<exists>s. format_error e = Inr s)" for e
    by simp
  then show ?thesis
    using assms
    by (cases "v_value v") (auto simp: printDescriptive_def formatValue_def ems_value_wf_def desc_kennlinie_def bindR_Inr_iff)
qed

lemma handled_descriptive:
  "handle m = Inr vs \<Longrightarrow> v \<in> set vs \<Longrightarrow> \<exists>s. printDescriptive v = Inr s"
  using printDescriptive_total_iff handled_format handle_good by (metis good_value_def)

end
