(* ===== verification/MqttAdapter.thy ===== *)
theory MqttAdapter
  imports ApiCommands ValueCache
begin

text \<open>
  The MQTT adapter (\<open>MqttAdapter.h\<close>, \<open>MqttAdapter.cpp\<close>): its connection with the retry delay, the
  topics that readings are published under, and the control topics that carry commands.  The
  client library is not modelled: an operation yields what it asks the client to do.
\<close>

section \<open>State\<close>

definition MinRetryDelaySeconds :: nat where "MinRetryDelaySeconds = 5"
definition MaxRetryDelaySeconds :: nat where "MaxRetryDelaySeconds = 5 * 60"

record mqtt =
  mq_sender :: bool
  mq_connected :: bool
  mq_retryDelay :: nat
  mq_commandParser :: "parser option"
  mq_retryTimer :: "nat option"
  mq_topicPrefix :: string

datatype mqtt_effect = Connect | Subscribe string | Publish string string | Submitted ems_message

definition mqtt_init :: "bool \<Rightarrow> string \<Rightarrow> mqtt \<times> mqtt_effect list" where
  "mqtt_init sender topicPrefix =
     (\<lparr>mq_sender = sender, mq_connected = False, mq_retryDelay = MinRetryDelaySeconds,
       mq_commandParser = None, mq_retryTimer = None,
       mq_topicPrefix = (if topicPrefix = [] then ''/ems'' else topicPrefix)\<rparr>, [Connect])"

section \<open>Operations\<close>

definition topic_of :: "string \<Rightarrow> ems_type \<Rightarrow> sub_type \<Rightarrow> string" where
  "topic_of topicPrefix t st =
     (let type = getTypeName t; subtype = getSubTypeName st
      in topicPrefix @ ''/sensor/'' @ (if subtype \<noteq> [] then subtype @ ''/'' else [])
         @ (if type \<noteq> [] then type @ ''/'' else []) @ ''value'')"

definition mqtt_handleValue :: "ems_value \<Rightarrow> mqtt \<Rightarrow> mqtt_effect list result" where
  "mqtt_handleValue value s =
     (if \<not> mq_connected s then Inr []
      else bindR (formatValue value) (\<lambda>formattedValue.
             Inr [Publish (topic_of (mq_topicPrefix s) (v_type value) (v_subType value)) formattedValue]))"

definition scheduleConnectionRetry :: "mqtt \<Rightarrow> mqtt" where
  "scheduleConnectionRetry s = s\<lparr>mq_retryTimer := Some (mq_retryDelay s)\<rparr>"

definition onRetryTimer :: "mqtt \<Rightarrow> mqtt \<times> mqtt_effect list" where
  "onRetryTimer s =
     (case mq_retryTimer s of
        None \<Rightarrow> (s, [])
      | Some d \<Rightarrow> (s\<lparr>mq_retryTimer := None, mq_retryDelay := min (mq_retryDelay s * 2) MaxRetryDelaySeconds\<rparr>, [Connect]))"

text \<open>\<open>memory\<close> is what the members of a new parser that its constructor leaves unset hold.\<close>

definition onConnect :: "parser \<Rightarrow> bool \<Rightarrow> mqtt \<Rightarrow> mqtt \<times> mqtt_effect list" where
  "onConnect memory accepted s =
     (let s1 = s\<lparr>mq_connected := accepted\<rparr>
      in if \<not> accepted then (scheduleConnectionRetry (s1\<lparr>mq_retryDelay := MinRetryDelaySeconds\<rparr>), [])
         else if mq_sender s1
         then (s1\<lparr>mq_commandParser := Some (parser_init memory)\<rparr>, [Subscribe (mq_topicPrefix s1 @ ''/control/#'')])
         else (s1, []))"

definition onError :: "mqtt \<Rightarrow> mqtt" where
  "onError s = scheduleConnectionRetry (s\<lparr>mq_connected := False, mq_commandParser := None\<rparr>)"

definition onClose :: "mqtt \<Rightarrow> mqtt" where
  "onClose s = scheduleConnectionRetry (s\<lparr>mq_connected := False, mq_commandParser := None,
     mq_retryDelay := MinRetryDelaySeconds\<rparr>)"

text \<open>What the parser does with the outside: only its messages matter, its output is dropped.\<close>

definition submitted :: "effect list \<Rightarrow> mqtt_effect list" where
  "submitted es = concat (map (\<lambda>e. case e of Send m \<Rightarrow> [Submitted m] | _ \<Rightarrow> []) es)"

definition control_command :: "string \<Rightarrow> string \<Rightarrow> string result" where
  "control_command topicPrefix topic =
     (if length topic < length topicPrefix + 9 then Inl OutOfRangeThrown
      else Inr (map (\<lambda>c. if c = CHR ''/'' then CHR '' '' else c) (drop (length topicPrefix + 9) topic)))"

definition onMessageReceived ::
    "environment \<Rightarrow> string \<Rightarrow> string \<Rightarrow> mqtt \<Rightarrow> (mqtt \<times> mqtt_effect list) result" where
  "onMessageReceived env topic contents s =
     bindR (control_command (mq_topicPrefix s) topic) (\<lambda>command.
       case mq_commandParser s of
         None \<Rightarrow> Inl NullDereferenced
       | Some p \<Rightarrow>
           bindR (parse env None (stream_of (command @ '' '' @ contents)) p) (\<lambda>(r, is, p', es).
             Inr (s\<lparr>mq_commandParser := Some p'\<rparr>, submitted es)))"

text \<open>The client of the scheduler (\<open>MqttAdapter::CommandClient\<close>).\<close>

definition mqtt_onIncomingMessage ::
    "(nat \<Rightarrow> u8) \<Rightarrow> ems_message \<Rightarrow> mqtt \<Rightarrow> (mqtt \<times> mqtt_effect list) result" where
  "mqtt_onIncomingMessage junk m s =
     (case mq_commandParser s of
        None \<Rightarrow> Inl NullDereferenced
      | Some p \<Rightarrow> bindR (onIncomingMessage junk p m) (\<lambda>(r, p', es).
          Inr (s\<lparr>mq_commandParser := Some p'\<rparr>, submitted es)))"

definition mqtt_onTimeout :: "mqtt \<Rightarrow> (mqtt \<times> mqtt_effect list) result" where
  "mqtt_onTimeout s =
     (case mq_commandParser s of
        None \<Rightarrow> Inl NullDereferenced
      | Some p \<Rightarrow> (case onTimeout p of (r, p', es) \<Rightarrow> Inr (s\<lparr>mq_commandParser := Some p'\<rparr>, submitted es)))"

section \<open>The connection\<close>

datatype mqtt_event = Connack parser bool | ConnectionError | Closed | RetryTimer

fun mqtt_step :: "mqtt_event \<Rightarrow> mqtt \<Rightarrow> mqtt" where
  "mqtt_step (Connack memory accepted) s = fst (onConnect memory accepted s)"
| "mqtt_step ConnectionError s = onError s"
| "mqtt_step Closed s = onClose s"
| "mqtt_step RetryTimer s = fst (onRetryTimer s)"

text \<open>
  The invariant: the delay stays in its bounds, a running timer was set to the current delay, and
  a disconnected adapter that has a parser does not exist.
\<close>

definition mqtt_inv :: "mqtt \<Rightarrow> bool" where
  "mqtt_inv s \<longleftrightarrow> MinRetryDelaySeconds \<le> mq_retryDelay s \<and> mq_retryDelay s \<le> MaxRetryDelaySeconds
     \<and> (mq_commandParser s \<noteq> None \<longrightarrow> mq_sender s)
     \<and> (\<forall>d. mq_retryTimer s = Some d \<longrightarrow> MinRetryDelaySeconds \<le> d \<and> d \<le> MaxRetryDelaySeconds)"

lemmas mqtt_defs = onConnect_def onError_def onClose_def onRetryTimer_def scheduleConnectionRetry_def

lemma mqtt_step_inv: "mqtt_inv s \<Longrightarrow> mqtt_inv (mqtt_step e s)"
  by (cases e) (auto simp: mqtt_inv_def mqtt_defs Let_def MinRetryDelaySeconds_def MaxRetryDelaySeconds_def
      split: option.splits)

text \<open>Failing retries: the connection attempt ends with an error, again and again.\<close>

lemma failing_retries:
  assumes "mq_retryDelay s = d" and "d \<le> MaxRetryDelaySeconds"
  shows "mq_retryTimer (((mqtt_step ConnectionError \<circ> mqtt_step RetryTimer) ^^ n) (mqtt_step ConnectionError s))
     = Some (min (d * 2 ^ n) MaxRetryDelaySeconds)
   \<and> mq_retryDelay (((mqtt_step ConnectionError \<circ> mqtt_step RetryTimer) ^^ n) (mqtt_step ConnectionError s))
     = min (d * 2 ^ n) MaxRetryDelaySeconds"
proof (induction n)
  case 0
  then show ?case using assms by (simp add: mqtt_defs)
next
  case (Suc n)
  then show ?case by (simp add: mqtt_defs min_def)
qed

section \<open>Topics\<close>

lemma names_no_slash:
  "list_all (\<lambda>(t, n). CHR ''/'' \<notin> set n) TYPEMAPPING" "list_all (\<lambda>(t, n). CHR ''/'' \<notin> set n) SUBTYPEMAPPING"
  by code_simp+

lemma type_name_no_slash: "CHR ''/'' \<notin> set (getTypeName t)"
  using names_no_slash(1)
  by (cases "map_of TYPEMAPPING t") (auto simp: getTypeName_def lookup_name_def list_all_iff dest: map_of_SomeD)

lemma subtype_name_no_slash: "CHR ''/'' \<notin> set (getSubTypeName t)"
  using names_no_slash(2)
  by (cases "map_of SUBTYPEMAPPING t") (auto simp: getSubTypeName_def lookup_name_def list_all_iff dest: map_of_SomeD)

lemma slash_split:
  "CHR ''/'' \<notin> set a \<Longrightarrow> CHR ''/'' \<notin> set b \<Longrightarrow> a @ CHR ''/'' # x = b @ CHR ''/'' # y \<longleftrightarrow> a = b \<and> x = y"
  by (auto simp: append_eq_append_conv2 append_eq_Cons_conv Cons_eq_append_conv)

lemma slash_in: "a @ CHR ''/'' # b = c \<Longrightarrow> CHR ''/'' \<in> set c" "c = a @ CHR ''/'' # b \<Longrightarrow> CHR ''/'' \<in> set c"
  by auto

lemma subtype_nameless: "getSubTypeName st = [] \<longleftrightarrow> st = NoSub"
  unfolding getSubTypeName_def lookup_name_Nil_iff [OF names_nonempty(2)] named_subtypes by simp

lemma subtype_name_unique: "getSubTypeName st = getSubTypeName st' \<longleftrightarrow> st = st'"
  using subtype_name_inject [of st st'] subtype_nameless [of st] subtype_nameless [of st'] by metis

lemma topic_inject:
  assumes t: "getTypeName t \<noteq> []" "getTypeName t' \<noteq> []"
  shows "topic_of p t st = topic_of p t' st' \<longleftrightarrow> t = t' \<and> st = st'"
proof
  assume e: "topic_of p t st = topic_of p t' st'"
  let ?n = "getTypeName t" and ?n' = "getTypeName t'" and ?m = "getSubTypeName st" and ?m' = "getSubTypeName st'"
  note slash = type_name_no_slash [of t] type_name_no_slash [of t'] subtype_name_no_slash [of st]
    subtype_name_no_slash [of st']
  have "(if ?m \<noteq> [] then ?m @ ''/'' else []) @ ?n @ ''/value'' = (if ?m' \<noteq> [] then ?m' @ ''/'' else []) @ ?n' @ ''/value''"
    using e t by (simp add: topic_of_def Let_def)
  then have "?n = ?n' \<and> ?m = ?m'"
    using slash t subtype_not_type [of st t'] subtype_not_type [of st' t] by (auto simp: slash_split split: if_splits dest: slash_in)
  then show "t = t' \<and> st = st'"
    using type_name_inject [OF t(1)] subtype_name_unique by blast
qed simp

section \<open>Properties\<close>

text \<open>
  the retry delay doubles from 5 seconds up to the maximum of 300: after a connection was
  closed and \<open>n\<close> attempts to connect have failed, the next attempt is made after exactly
  \<open>min (5 * 2 ^ n) 300\<close> seconds.
\<close>

theorem mqtt_backoff:
  "mq_retryTimer (((mqtt_step ConnectionError \<circ> mqtt_step RetryTimer) ^^ n) (mqtt_step Closed s))
     = Some (min (MinRetryDelaySeconds * 2 ^ n) MaxRetryDelaySeconds)"
proof -
  have "mqtt_step Closed s = mqtt_step ConnectionError (s\<lparr>mq_retryDelay := MinRetryDelaySeconds\<rparr>)"
    by (simp add: mqtt_defs)
  then show ?thesis
    using failing_retries [of "s\<lparr>mq_retryDelay := MinRetryDelaySeconds\<rparr>" MinRetryDelaySeconds n]
    by (simp add: MinRetryDelaySeconds_def MaxRetryDelaySeconds_def)
qed

text \<open>
  different readings never share a topic: two named types with their subtypes that are
  published under the same topic are the same.
\<close>

theorem mqtt_topics_unique:
  assumes "getTypeName t \<noteq> []" and "getTypeName t' \<noteq> []"
  shows "topic_of p t st = topic_of p t' st' \<longleftrightarrow> t = t' \<and> st = st'"
  using assms by (rule topic_inject)

lemma mqtt_topics_unique_witness:
  "topic_of ''/ems'' (NumT IstTemp) Aussen \<noteq> topic_of ''/ems'' (NumT IstTemp) Kessel"
proof -
  have "getTypeName (NumT IstTemp) \<noteq> []" by code_simp
  then show ?thesis using mqtt_topics_unique [of "NumT IstTemp" "NumT IstTemp" "''/ems''" Aussen Kessel] by simp
qed

text \<open>
  the subscription to the control topics, \<open>prefix/control/#\<close>, also matches \<open>prefix/control\<close>
  itself; a message to that topic makes \<open>substr\<close> throw, whatever it contains and whatever the
  state, and no handler catches that.
\<close>

theorem mqtt_parent_topic_throws:
  "onMessageReceived env (mq_topicPrefix s @ ''/control'') contents s = Inl OutOfRangeThrown"
  by (simp add: onMessageReceived_def control_command_def)

text \<open>
  an answer of the bus, or its timeout, that comes after the broker connection was lost calls
  through a null pointer: the request stays with the scheduler, but its parser is gone.
\<close>

theorem mqtt_answer_after_error:
  "mqtt_onIncomingMessage junk m (mqtt_step ConnectionError s) = Inl NullDereferenced
     \<and> mqtt_onTimeout (mqtt_step Closed s) = Inl NullDereferenced"
  by (simp add: mqtt_onIncomingMessage_def mqtt_onTimeout_def mqtt_defs)

end
