(* ===== verification/Collector.thy ===== *)
theory Collector
  imports CommandPort DataHandler Database Descriptive MqttAdapter
begin

text \<open>
  The composition of the collector (\<open>main.cpp\<close>, \<open>IoHandler::handleValue\<close>): which handler a target
  names, and the path of a telegram from the bus through the receiver to the database, the value
  cache, the broker, the live data port and the command scheduler, in the order in which \<open>main\<close>
  registers them.  An exception of any of them ends the program.
\<close>

section \<open>Targets\<close>

datatype handler_kind = SerialHandler string | SendingSerialHandler string | TcpHandler string string

definition starts_with :: "string \<Rightarrow> string \<Rightarrow> bool" where
  "starts_with s p \<longleftrightarrow> take (length p) s = p"

definition getHandler :: "string \<Rightarrow> handler_kind option" where
  "getHandler target =
     (if starts_with target ''serial:'' then Some (SerialHandler (drop 7 target))
      else if starts_with target ''tx-serial:'' then Some (SendingSerialHandler (drop 10 target))
      else if starts_with target ''tcp:'' then
        (case find_from (CHR '':'') 4 target of
           None \<Rightarrow> None
         | Some pos \<Rightarrow> Some (TcpHandler (substr 4 (pos - 4) target) (drop (pos + 1) target)))
      else None)"

definition mqtt_target :: "string \<Rightarrow> (string \<times> string) option" where
  "mqtt_target target =
     (case find_char (CHR '':'') target of
        None \<Rightarrow> None
      | Some pos \<Rightarrow> Some (substr 0 pos target, drop (pos + 1) target))"

text \<open>\<open>dynamic_cast<EmsCommandSender *>\<close>: the handlers that can send.\<close>

fun can_send :: "handler_kind \<Rightarrow> bool" where
  "can_send (SerialHandler d) = False"
| "can_send (SendingSerialHandler d) = True"
| "can_send (TcpHandler h p) = True"

section \<open>The running collector\<close>

record collector =
  col_io :: io_handler
  col_debug :: "string list option"
  col_db :: "database option"
  col_queries :: "query list"
  col_cache :: value_cache
  col_mqtt :: "mqtt option"
  col_published :: "mqtt_effect list"
  col_data :: "data_handler option"
  col_sender :: "connection scheduler option"
  col_command :: "command_handler option"
  col_sent :: "ems_message list"

text \<open>
  What the environment decides while one event is handled: the clocks, the options, the outcome of
  insertions, what the parsers of the clients ask their surroundings, and bytes of uninitialised buffers.
\<close>

record col_env =
  ce_time :: nat
  ce_millis :: nat
  ce_rateLimit :: int
  ce_inserted :: "ems_value \<Rightarrow> nat option"
  ce_env :: environment
  ce_junk :: "nat \<Rightarrow> u8"

definition debug_value :: "ems_value \<Rightarrow> collector \<Rightarrow> collector result" where
  "debug_value v c =
     (case col_debug c of
        None \<Rightarrow> Inr c
      | Some ls \<Rightarrow> bindR (printDescriptive v) (\<lambda>text. Inr (c\<lparr>col_debug := Some (ls @ [''DATA: '' @ text])\<rparr>)))"

definition store_value :: "col_env \<Rightarrow> ems_value \<Rightarrow> collector \<Rightarrow> collector result" where
  "store_value env v c =
     (case col_db c of
        None \<Rightarrow> Inr c
      | Some db \<Rightarrow>
          bindR (db_handleValue (ce_rateLimit env) (int (ce_time env)) (ce_inserted env v) v db) (\<lambda>(db', qs).
            Inr (c\<lparr>col_db := Some db', col_queries := col_queries c @ qs\<rparr>)))"

definition publish_value :: "ems_value \<Rightarrow> collector \<Rightarrow> collector result" where
  "publish_value v c =
     (case col_mqtt c of
        None \<Rightarrow> Inr c
      | Some m \<Rightarrow> bindR (mqtt_handleValue v m) (\<lambda>es. Inr (c\<lparr>col_published := col_published c @ es\<rparr>)))"

definition broadcast_value :: "ems_value \<Rightarrow> collector \<Rightarrow> collector result" where
  "broadcast_value v c =
     (case col_data c of
        None \<Rightarrow> Inr c
      | Some h \<Rightarrow> bindR (data_handleValue v h) (\<lambda>h'. Inr (c\<lparr>col_data := Some h'\<rparr>)))"

definition io_handleValue :: "col_env \<Rightarrow> ems_value \<Rightarrow> collector \<Rightarrow> collector result" where
  "io_handleValue env v c =
     bindR (debug_value v c) (\<lambda>c.
     bindR (store_value env v c) (\<lambda>c.
     bindR (publish_value v (c\<lparr>col_cache := cache_handleValue (ce_time env) v (col_cache c)\<rparr>)) (\<lambda>c.
       broadcast_value v c)))"

fun handle_values :: "col_env \<Rightarrow> ems_value list \<Rightarrow> collector \<Rightarrow> collector result" where
  "handle_values env [] c = Inr c"
| "handle_values env (v # vs) c = bindR (io_handleValue env v c) (handle_values env vs)"

text \<open>
  The command port is there when the handler can send and a port number is given; it shares the
  scheduler with the handler and reads the cache.
\<close>

definition port_env_of :: "col_env \<Rightarrow> collector \<Rightarrow> port_env" where
  "port_env_of env c =
     \<lparr>pe_now = ce_millis env, pe_env = ce_env env, pe_cache = col_cache c, pe_junk = ce_junk env\<rparr>"

definition command_step :: "col_env \<Rightarrow> port_event \<Rightarrow> collector \<Rightarrow> collector result" where
  "command_step env e c =
     (case (col_sender c, col_command c) of
        (Some s, Some h) \<Rightarrow>
          bindR (port_step (port_env_of env c) e \<lparr>po_handler = h, po_sched = s\<rparr>) (\<lambda>(po, out).
            Inr (c\<lparr>col_sender := Some (po_sched po), col_command := Some (po_handler po),
                   col_sent := col_sent c @ out\<rparr>))
      | _ \<Rightarrow> Inr c)"

text \<open>A handler that cannot send ignores telegrams for the collector.\<close>

definition onPcMessageReceived :: "col_env \<Rightarrow> ems_message \<Rightarrow> collector \<Rightarrow> collector result" where
  "onPcMessageReceived env m c =
     (case (col_sender c, col_command c) of
        (None, _) \<Rightarrow> Inr c
      | (Some s, None) \<Rightarrow> bindR (handlePcMessage (connection_ops (ce_junk env)) (ce_millis env) m s) (\<lambda>(s', out).
          Inr (c\<lparr>col_sender := Some s', col_sent := col_sent c @ out\<rparr>))
      | (Some s, Some h) \<Rightarrow> command_step env (Bus (PcMessageReceived m)) c)"

fun io_events :: "col_env \<Rightarrow> io_event list \<Rightarrow> collector \<Rightarrow> collector result" where
  "io_events env [] c = Inr c"
| "io_events env (Values vs # es) c = bindR (handle_values env vs c) (io_events env es)"
| "io_events env (PcMessage m # es) c = bindR (onPcMessageReceived env m c) (io_events env es)"

definition collector_read :: "col_env \<Rightarrow> bytes \<Rightarrow> collector \<Rightarrow> collector result" where
  "collector_read env bs c =
     bindR (rx_bytes (col_io c) bs) (\<lambda>(io, es). io_events env es (c\<lparr>col_io := io\<rparr>))"

section \<open>What a reading reaches\<close>

definition good_text :: "ems_value \<Rightarrow> bool" where
  "good_text v \<longleftrightarrow> good_value v \<and> (\<exists>s. formatValue v = Inr s)"

lemma handled_good_text: "handle m = Inr vs \<Longrightarrow> v \<in> set vs \<Longrightarrow> good_text v"
  by (simp add: good_text_def handle_good handled_format)

definition col_ok :: "collector \<Rightarrow> bool" where
  "col_ok c \<longleftrightarrow> cache_inv (col_cache c) \<and> (\<forall>h. col_data c = Some h \<longrightarrow> data_ok h)"

text \<open>The effect of a sequence of readings on the parts that only readings change.\<close>

definition cached_after :: "col_env \<Rightarrow> ems_value list \<Rightarrow> value_cache \<Rightarrow> value_cache" where
  "cached_after env vs cache = fold (\<lambda>v. cache_handleValue (ce_time env) v) vs cache"

definition data_after :: "ems_value list \<Rightarrow> data_handler \<Rightarrow> data_handler" where
  "data_after vs h = h\<lparr>dh_written := (\<lambda>c. dh_written h c @
     (if c \<in> set (dh_connections h) then concat (map live_lines vs) else []))\<rparr>"

text \<open>\<open>stored\<close>: the database and the statements it has executed.\<close>

definition stored :: "collector \<Rightarrow> database option \<times> query list" where
  "stored c = (col_db c, col_queries c)"

definition stored_after :: "col_env \<Rightarrow> ems_value \<Rightarrow> database option \<times> query list \<Rightarrow> database option \<times> query list" where
  "stored_after env v st =
     (case st of
        (None, qs) \<Rightarrow> (None, qs)
      | (Some db, qs) \<Rightarrow>
          (case db_handleValue (ce_rateLimit env) (int (ce_time env)) (ce_inserted env v) v db of
             Inl f \<Rightarrow> (Some db, qs)
           | Inr (db', qs') \<Rightarrow> (Some db', qs @ qs')))"

lemma data_after_simps [simp]:
  "data_after [] h = h" "dh_connections (data_after vs h) = dh_connections h" "data_ok (data_after vs h) = data_ok h"
  "data_after vs (data_after us h) = data_after (us @ vs) h"
  by (auto simp: data_after_def data_ok_def intro!: data_handler.equality)

lemma data_handleValue_after:
  "data_ok h \<Longrightarrow> formatValue v = Inr str \<Longrightarrow> data_handleValue v h = Inr (data_after [v] h)"
  by (simp add: data_handleValue_lines) (auto simp: data_after_def intro!: data_handler.equality)

lemma debug_value_good:
  assumes "good_text v"
  shows "\<exists>ls. debug_value v c = Inr (c\<lparr>col_debug := ls\<rparr>)"
proof -
  obtain d where "printDescriptive v = Inr d"
    using assms printDescriptive_total_iff [of v] by (auto simp: good_text_def good_value_def)
  then show ?thesis
    by (cases "col_debug c") (auto simp: debug_value_def intro: exI [of _ None])
qed

lemma store_value_good:
  assumes "good_text v"
  shows "\<exists>db qs. store_value env v c = Inr (c\<lparr>col_db := db, col_queries := qs\<rparr>) \<and> (db, qs) = stored_after env v (stored c)"
proof (cases "col_db c")
  case None
  then show ?thesis
    by (intro exI [of _ "col_db c"] exI [of _ "col_queries c"]) (simp add: store_value_def stored_def stored_after_def)
next
  case (Some db)
  obtain db' qs where "db_handleValue (ce_rateLimit env) (int (ce_time env)) (ce_inserted env v) v db = Inr (db', qs)"
    using assms good_sample [of v] by (fastforce simp: good_text_def db_handleValue_def)
  then show ?thesis using Some by (auto simp: store_value_def stored_def stored_after_def)
qed

lemma publish_value_good:
  assumes "formatValue v = Inr str"
  shows "\<exists>es. publish_value v c = Inr (c\<lparr>col_published := es\<rparr>)"
proof (cases "col_mqtt c")
  case None
  then show ?thesis by (intro exI [of _ "col_published c"]) (simp add: publish_value_def)
next
  case (Some q)
  obtain es where "mqtt_handleValue v q = Inr es"
    using that assms by (cases "mq_connected q") (simp_all add: mqtt_handleValue_def)
  then show ?thesis using Some by (auto simp: publish_value_def)
qed

lemma broadcast_value_good:
  assumes "formatValue v = Inr str" and "\<forall>h. col_data c = Some h \<longrightarrow> data_ok h"
  shows "broadcast_value v c = Inr (c\<lparr>col_data := map_option (data_after [v]) (col_data c)\<rparr>)"
  using assms data_handleValue_after by (cases "col_data c") (auto simp: broadcast_value_def)

lemma io_handleValue_good:
  assumes "good_text v" and "col_ok c"
  shows "\<exists>c'. io_handleValue env v c = Inr c' \<and> col_ok c' \<and> col_cache c' = cached_after env [v] (col_cache c)
    \<and> col_data c' = map_option (data_after [v]) (col_data c) \<and> stored c' = stored_after env v (stored c)
    \<and> col_sender c' = col_sender c
    \<and> col_command c' = col_command c \<and> col_sent c' = col_sent c \<and> col_io c' = col_io c"
proof -
  obtain str where t: "formatValue v = Inr str" using assms(1) by (auto simp: good_text_def)
  obtain ls where 1: "debug_value v c = Inr (c\<lparr>col_debug := ls\<rparr>)" using debug_value_good [OF assms(1)] ..
  obtain db qs where 2: "store_value env v (c\<lparr>col_debug := ls\<rparr>) = Inr (c\<lparr>col_debug := ls, col_db := db, col_queries := qs\<rparr>)"
    and st: "(db, qs) = stored_after env v (stored c)"
    using store_value_good [OF assms(1), of env "c\<lparr>col_debug := ls\<rparr>"] by (auto simp: stored_def)
  let ?c = "c\<lparr>col_debug := ls, col_db := db, col_queries := qs, col_cache := cache_handleValue (ce_time env) v (col_cache c)\<rparr>"
  obtain es where 3: "publish_value v ?c = Inr (?c\<lparr>col_published := es\<rparr>)" using publish_value_good [OF t] by blast
  have "io_handleValue env v c = broadcast_value v (?c\<lparr>col_published := es\<rparr>)"
    unfolding io_handleValue_def 1 bindR_simps 2 using 3 by simp
  also have "\<dots> = Inr (?c\<lparr>col_published := es, col_data := map_option (data_after [v]) (col_data c)\<rparr>)"
    using broadcast_value_good [OF t, of "?c\<lparr>col_published := es\<rparr>"] assms(2) by (simp add: col_ok_def)
  finally show ?thesis
    using assms(2) t cache_inv_handleValue st by (auto simp: col_ok_def cached_after_def stored_def)
qed

lemma handle_values_good:
  "list_all good_text vs \<Longrightarrow> col_ok c \<Longrightarrow> \<exists>c'. handle_values env vs c = Inr c' \<and> col_ok c'
    \<and> col_cache c' = cached_after env vs (col_cache c) \<and> col_data c' = map_option (data_after vs) (col_data c)
    \<and> stored c' = fold (stored_after env) vs (stored c)
    \<and> col_sender c' = col_sender c \<and> col_command c' = col_command c \<and> col_sent c' = col_sent c \<and> col_io c' = col_io c"
proof (induction vs arbitrary: c)
  case Nil
  then show ?case by (simp add: cached_after_def option.map_id0 [unfolded id_def] data_after_simps(1) [abs_def])
next
  case (Cons v vs)
  then obtain c1 where 1: "io_handleValue env v c = Inr c1" "col_ok c1" "col_cache c1 = cached_after env [v] (col_cache c)"
    "col_data c1 = map_option (data_after [v]) (col_data c)" "col_sender c1 = col_sender c" "col_sent c1 = col_sent c"
    "col_io c1 = col_io c" "col_command c1 = col_command c" "stored c1 = stored_after env v (stored c)"
    using io_handleValue_good [of v c env] by auto
  obtain c2 where 2: "handle_values env vs c1 = Inr c2" "col_ok c2" "col_cache c2 = cached_after env vs (col_cache c1)"
    "col_data c2 = map_option (data_after vs) (col_data c1)" "col_sender c2 = col_sender c1" "col_sent c2 = col_sent c1"
    "col_io c2 = col_io c1" "col_command c2 = col_command c1" "stored c2 = fold (stored_after env) vs (stored c1)"
    using Cons.IH [OF _ 1(2)] Cons.prems(1) by auto
  show ?case using 1 2 by (auto simp: cached_after_def option.map_comp o_def)
qed

lemma cached_after_lookup:
  "RBT.lookup (cached_after env vs cache) k =
     (case filter (\<lambda>w. value_key w = k) vs of [] \<Rightarrow> RBT.lookup cache k
      | ws \<Rightarrow> Some \<lparr>ce_timestamp = ce_time env, ce_value = last ws\<rparr>)"
  by (induction vs rule: rev_induct) (auto simp: cached_after_def split: list.splits)

section \<open>Fetching what was read\<close>

lemma names_no_space:
  "list_all (\<lambda>(t, n). list_all (\<lambda>x. \<not> is_space x) n) TYPEMAPPING"
  "list_all (\<lambda>(t, n). list_all (\<lambda>x. \<not> is_space x) n) SUBTYPEMAPPING"
  by code_simp+

lemma name_no_space:
  "list_all (\<lambda>x. \<not> is_space x) (getTypeName t)" "list_all (\<lambda>x. \<not> is_space x) (getSubTypeName st)"
  using names_no_space
  by (cases "map_of TYPEMAPPING t"; cases "map_of SUBTYPEMAPPING st";
      auto simp: getTypeName_def getSubTypeName_def lookup_name_def list_all_iff dest!: map_of_SomeD; fail)+

lemma read_tokens_step:
  "read_string s = (t, s') \<Longrightarrow> \<not> is_fail s \<Longrightarrow> fst (read_tokens s) = t # fst (read_tokens s')"
  by (subst read_tokens.simps) (simp add: case_prod_beta)

lemma read_tokens_line:
  assumes "list_all (\<lambda>x. \<not> is_space x) a" "a \<noteq> []" "list_all (\<lambda>x. \<not> is_space x) b" "b \<noteq> []"
  shows "fst (read_tokens (stream_of ('' '' @ a @ '' '' @ b @ ''\<newline>''))) = [a, b, []]"
proof -
  let ?s = "stream_of ('' '' @ a @ '' '' @ b @ ''\<newline>'')"
  have 1: "read_string ?s = (a, stream_of ('' '' @ b @ ''\<newline>''))"
    using read_string_token [of ?s "'' ''" a "'' '' @ b @ ''\<newline>''"] assms
    by (simp add: stream_of_def ends_token_def is_space_def)
  have 2: "read_string (stream_of ('' '' @ b @ ''\<newline>'')) = (b, stream_of ''\<newline>'')"
    using read_string_token [of "stream_of ('' '' @ b @ ''\<newline>'')" "'' ''" b "''\<newline>''"] assms
    by (simp add: stream_of_def ends_token_def is_space_def)
  have 3: "fst (read_string (stream_of ''\<newline>'')) = []" "is_fail (snd (read_string (stream_of ''\<newline>'')))"
    by code_simp+
  obtain t3 where 4: "read_string (stream_of ''\<newline>'') = ([], t3)" "is_fail t3"
    using 3 by (metis prod.collapse)
  have nf: "\<not> is_fail (stream_of x)" for x by (simp add: stream_of_def)
  have "fst (read_tokens t3) = []" using 4(2) by (subst read_tokens.simps) simp
  then show ?thesis
    using read_tokens_step [OF 1 nf] read_tokens_step [OF 2 nf] read_tokens_step [OF 4(1) nf] by simp
qed

lemma fetch_request:
  assumes v: "getTypeName t \<noteq> []" "getSubTypeName st \<noteq> []" and e: "RBT.lookup cache (t, st) = Some e"
    and line: "cache_line ((t, st), e) = Inr line" and idle: "m_activeRequest (c_parser conn) = None"
    and req: "c_request conn = ''cache fetch '' @ getSubTypeName st @ '' '' @ getTypeName t @ ''\<newline>''"
  shows "\<exists>conn'. handleRequest lenv cache conn = Inr (conn', []) \<and> c_written conn' = c_written conn @ [line, ''OK'']
    \<and> c_parser conn' = c_parser conn"
proof -
  let ?r = "'' '' @ getSubTypeName st @ '' '' @ getTypeName t @ ''\<newline>''"
  have w1: "read_string (stream_of (c_request conn)) = (''cache'', stream_of ('' fetch'' @ ?r))"
    using read_string_token [of "stream_of (c_request conn)" "[]" "''cache''" "'' fetch'' @ ?r"]
    by (simp add: stream_of_def ends_token_def is_space_def req)
  have w2: "read_string (stream_of ('' fetch'' @ ?r)) = (''fetch'', stream_of ?r)"
    using read_string_token [of "stream_of ('' fetch'' @ ?r)" "'' ''" "''fetch''" ?r]
    by (simp add: stream_of_def ends_token_def is_space_def)
  have w3: "fst (read_tokens (stream_of ?r)) = [getSubTypeName st, getTypeName t, []]"
    using name_no_space v by (intro read_tokens_line)
  have o: "outputValues cache [getSubTypeName st, getTypeName t] = Inr line"
    using fetch_pair [OF v] e line by simp
  have "parse lenv (Some cache) (stream_of (c_request conn)) (c_parser conn) =
      Inr (Ok, snd (read_tokens (stream_of ?r)), c_parser conn, [Output line, Output ''OK''])"
    unfolding parse_def w1 prod.case handleCacheCommand_def w2
    using w3 o v idle by (simp add: case_prod_beta reply_def and_then_def emit_def)
  then show ?thesis
    using req by (simp add: handleRequest_def absorb_def lines_of_def sends_of_def)
qed

text \<open>Reading a frame: first its readings, then what is left of its events.\<close>

lemma frame_read_values:
  assumes "rx_idle (col_io c)" and "rx_sendable d" and "telegram_events d = Inr (Values vs # es)"
    and "list_all good_text vs" and "col_ok c"
  shows "\<exists>c'. collector_read env (serial_frame d) c = io_events env es c' \<and> rx_idle (col_io c') \<and> col_ok c'
    \<and> col_cache c' = cached_after env vs (col_cache c) \<and> col_data c' = map_option (data_after vs) (col_data c)
    \<and> stored c' = fold (stored_after env) vs (stored c)
    \<and> col_sender c' = col_sender c \<and> col_command c' = col_command c \<and> col_sent c' = col_sent c"
proof -
  obtain io where io: "rx_bytes (col_io c) (serial_frame d) = Inr (io, Values vs # es)" "rx_idle io"
    using rx_frame [OF assms(1,2,3)] by blast
  have "col_ok (c\<lparr>col_io := io\<rparr>)" "stored (c\<lparr>col_io := io\<rparr>) = stored c"
    using assms(5) by (simp_all add: col_ok_def stored_def)
  then show ?thesis
    using handle_values_good [OF assms(4), of "c\<lparr>col_io := io\<rparr>" env] io by (auto simp: collector_read_def)
qed

lemma frame_read:
  assumes "rx_idle (col_io c)" and "rx_sendable d" and "telegram_events d = Inr [Values vs]"
    and "list_all good_text vs" and "col_ok c"
  shows "\<exists>c'. collector_read env (serial_frame d) c = Inr c' \<and> rx_idle (col_io c') \<and> col_ok c'
    \<and> col_cache c' = cached_after env vs (col_cache c) \<and> col_data c' = map_option (data_after vs) (col_data c)
    \<and> stored c' = fold (stored_after env) vs (stored c)
    \<and> col_sender c' = col_sender c \<and> col_command c' = col_command c \<and> col_sent c' = col_sent c"
  using frame_read_values [OF assms, of env] by simp

text \<open>Clients and telegrams for the collector change neither the receiver nor the consumers of readings.\<close>

lemma command_step_frame:
  assumes "command_step env e c = Inr c'"
  shows "col_io c' = col_io c \<and> col_cache c' = col_cache c \<and> col_data c' = col_data c \<and> stored c' = stored c"
  using assms by (auto simp: command_step_def stored_def bindR_Inr_iff split: option.splits)

lemma onPcMessageReceived_frame:
  assumes "onPcMessageReceived env m c = Inr c'"
  shows "col_io c' = col_io c \<and> col_cache c' = col_cache c \<and> col_data c' = col_data c \<and> stored c' = stored c"
  using assms command_step_frame by (auto simp: stored_def onPcMessageReceived_def bindR_Inr_iff split: option.splits)

text \<open>When no client has a request, a telegram for the collector changes nothing that a client could see.\<close>

definition unused :: "collector \<Rightarrow> bool" where
  "unused c \<longleftrightarrow> (\<forall>s. col_sender c = Some s \<longrightarrow> m_currentClient s = None \<and> m_pending s = [])"

lemma onPcMessageReceived_unused:
  assumes "unused c"
  shows "\<exists>c'. onPcMessageReceived env m c = Inr c' \<and> unused c'"
proof (cases "col_sender c")
  case None
  then show ?thesis using assms by (simp add: onPcMessageReceived_def)
next
  case (Some s)
  then have idle: "m_currentClient s = None" "m_pending s = []" using assms by (simp_all add: unused_def)
  obtain s' where s': "handlePcMessage ops now m s = Inr (s', [])" "m_currentClient s' = None" "m_pending s' = []"
    if "ops = connection_ops (ce_junk env)" and "now = ce_millis env" for ops now
    using idle by (simp add: handlePcMessage_def continueWithNextRequest_def Let_def)
  show ?thesis
  proof (cases "col_command c")
    case None
    then show ?thesis using Some s' [OF refl refl] by (simp add: onPcMessageReceived_def unused_def)
  next
    case (Some h)
    then show ?thesis
      using \<open>col_sender c = Some s\<close> idle s' [OF refl refl]
      by (simp add: onPcMessageReceived_def unused_def command_step_def bus_event_def callback_of_def sched_event_def
          port_env_of_def Let_def)
  qed
qed

lemma telegram_events_shape:
  "telegram_events d = Inr es \<Longrightarrow> \<exists>vs. es = [Values vs] \<or> (\<exists>m. es = [Values vs, PcMessage m])"
  by (auto simp: telegram_events_def Let_def bindR_Inr_iff split: if_splits)

lemma telegram_events_good:
  assumes "telegram_events d = Inr (Values vs # es)"
  shows "list_all good_text vs"
  using assms handled_good_text by (auto simp: telegram_events_def Let_def bindR_Inr_iff list_all_iff split: if_splits)

definition collector_init :: collector where
  "collector_init = \<lparr>col_io = io_init, col_debug = Some [], col_db = Some (database_init True), col_queries = [],
     col_cache = RBT.empty, col_mqtt = None, col_published = [],
     col_data = Some (data_startConnection 1 data_handler_init), col_sender = None, col_command = None,
     col_sent = []\<rparr>"

definition col_env_example :: col_env where
  "col_env_example = \<lparr>ce_time = 7, ce_millis = 7000, ce_rateLimit = 60, ce_inserted = (\<lambda>v. Some 1),
     ce_env = example_env, ce_junk = (\<lambda>n. 0)\<rparr>"

lemma collector_init_simps [simp]:
  "rx_idle (col_io collector_init)" "col_ok collector_init" "col_cache collector_init = RBT.empty"
  "col_data collector_init = Some (data_startConnection 1 data_handler_init)" "col_sender collector_init = None"
  by (simp_all add: collector_init_def col_ok_def cache_inv_empty rx_idle_init)

section \<open>Properties\<close>



text \<open>
  C6: from the bus to a client of the command port: after a telegram was read, \<open>cache fetch\<close> with
  the names of one of its readings writes the line of the last such reading with the time it was
  read, then \<open>OK\<close>, and sends nothing to the bus.
\<close>

theorem telegram_to_cache_fetch:
  assumes "rx_idle (col_io c)" and "rx_sendable d" and "telegram_events d = Inr [Values vs]" and "col_ok c"
    and v: "filter (\<lambda>w. value_key w = value_key v) vs = us @ [v]"
    and named: "getTypeName (v_type v) \<noteq> []" "getSubTypeName (v_subType v) \<noteq> []"
    and idle: "m_activeRequest (c_parser conn) = None"
    and req: "c_request conn = ''cache fetch '' @ getSubTypeName (v_subType v) @ '' '' @ getTypeName (v_type v) @ ''\<newline>''"
  shows "\<exists>c' t conn'. collector_read env (serial_frame d) c = Inr c' \<and> formatValue v = Inr t
    \<and> handleRequest lenv (col_cache c') conn = Inr (conn', [])
    \<and> c_written conn' = c_written conn @ [getSubTypeName (v_subType v) @ '' '' @ getTypeName (v_type v) @ '' = '' @ t
         @ '' | '' @ dec_of_nat (ce_time env) @ ''\<newline>'', ''OK'']"
proof -
  obtain c' where c': "collector_read env (serial_frame d) c = Inr c'" "col_cache c' = cached_after env vs (col_cache c)"
    using frame_read [OF assms(1-3) telegram_events_good [OF assms(3)] assms(4), of env] by blast
  have "v \<in> set vs" using v by (metis filter_is_subset in_set_conv_decomp subsetD)
  then obtain t where t: "formatValue v = Inr t"
    using telegram_events_good [OF assms(3)] by (auto simp: list_all_iff good_text_def)
  have look: "RBT.lookup (col_cache c') (v_type v, v_subType v) = Some \<lparr>ce_timestamp = ce_time env, ce_value = v\<rparr>"
    using v unfolding c'(2) cached_after_lookup by (cases us) (simp_all add: value_key_def)
  have line: "cache_line ((v_type v, v_subType v), \<lparr>ce_timestamp = ce_time env, ce_value = v\<rparr>) =
      Inr (getSubTypeName (v_subType v) @ '' '' @ getTypeName (v_type v) @ '' = '' @ t
         @ '' | '' @ dec_of_nat (ce_time env) @ ''\<newline>'')"
    using named t by (simp add: cache_line_def Let_def)
  show ?thesis
    using fetch_request [OF named look line idle req, of lenv] c'(1) t by blast
qed

lemma telegram_to_cache_fetch_witness:
  "\<exists>c' conn'. collector_read col_env_example (serial_frame outdoor_telegram) collector_init = Inr c'
    \<and> handleRequest example_env (col_cache c') ((connection_init idle_parser)\<lparr>c_request :=
         ''cache fetch outdoor currenttemperature\<newline>''\<rparr>) = Inr (conn', [])
    \<and> c_written conn' = [''outdoor currenttemperature = 21.5 | 7\<newline>'', ''OK'']"
proof -
  let ?v = "numericValue (NumT IstTemp) Aussen [0, 215] 2 10 True (Some INVALID_TEMPERATURE_VALUES)"
  let ?conn = "(connection_init idle_parser)\<lparr>c_request := ''cache fetch outdoor currenttemperature\<newline>''\<rparr>"
  have n: "getTypeName (NumT IstTemp) = ''currenttemperature''" "getSubTypeName Aussen = ''outdoor''"
    by code_simp+
  have d: "dec_of_nat 7 = ''7''" by code_simp
  have p: "m_activeRequest (c_parser ?conn) = None" "c_written ?conn = []" "ce_time col_env_example = 7"
    by (simp_all add: connection_init_def parser_init_def col_env_example_def)
  have "\<exists>c' t conn'. collector_read col_env_example (serial_frame outdoor_telegram) collector_init = Inr c'
    \<and> formatValue ?v = Inr t \<and> handleRequest example_env (col_cache c') ?conn = Inr (conn', [])
    \<and> c_written conn' = c_written ?conn @ [getSubTypeName (v_subType ?v) @ '' '' @ getTypeName (v_type ?v) @ '' = '' @ t
         @ '' | '' @ dec_of_nat (ce_time col_env_example) @ ''\<newline>'', ''OK'']"
    by (rule telegram_to_cache_fetch [OF _ outdoor_sendable outdoor_events, where us = "[]"]) (use p n in simp_all)
  then show ?thesis
    unfolding format_outdoor_example by (auto simp: n p d)
qed

end
