(* ===== verification/Supervisor.thy ===== *)
theory Supervisor
  imports Collector Options
begin

text \<open>
  The main function (\<open>main.cpp\<close>): from the parsed options to the loop that runs one handler after the
  other, ten seconds apart, until a signal or an exception ends it.  The database and the value cache
  live as long as the program, everything else as long as one handler.
\<close>

section \<open>Starting\<close>

text \<open>
  How the program can end: \<open>main\<close> returns a status, it catches an exception and returns 1 (\<open>Threw\<close>), an
  exception leaves it (\<open>Terminated\<close>), or it does something undefined (\<open>Crashed\<close>).
\<close>

datatype main_state =
    Working collector
  | Waiting collector
  | Exited nat
  | Threw fault
  | Crashed fault
  | Terminated

text \<open>
  One pass of the loop up to \<open>run\<close>: the parts around a new handler.  \<open>opened\<close>: whether the serial device
  and the two ports can be opened; their constructors throw if not.
\<close>

definition new_handler :: "options \<Rightarrow> bool \<Rightarrow> (nat \<Rightarrow> connection) \<Rightarrow> collector \<Rightarrow> main_state" where
  "new_handler opts opened clients c =
     (case getHandler (o_target opts) of
        None \<Rightarrow> Exited 1
      | Some kind \<Rightarrow>
          if \<not> opened then Exited 1
          else (let sender = can_send kind;
               mqtt = (if mqtt_target (o_mqttTarget opts) = None then None
                       else Some (mqtt_init sender (o_mqttPrefix opts)));
               cmdHandler = (if sender \<and> o_commandPort opts \<noteq> 0 then Some command_handler_init else None);
               dataHandler = (if o_dataPort opts \<noteq> 0 then Some data_handler_init else None)
           in Working
                (c\<lparr>col_io := io_init, col_mqtt := map_option fst mqtt,
                   col_published := col_published c @ (case mqtt of None \<Rightarrow> [] | Some (m, es) \<Rightarrow> es),
                   col_data := dataHandler,
                   col_sender := (if sender then Some (scheduler_init clients) else None),
                   col_command := cmdHandler\<rparr>)))"

text \<open>The parts that are made once: the cache, and the database, connected unless its path is \<open>none\<close>.\<close>

definition first_collector :: "options \<Rightarrow> collector" where
  "first_collector opts =
     \<lparr>col_io = io_init,
      col_debug = (if ds_active (o_debugStreams opts DebugData) then Some [] else None),
      col_db = Some (database_init (o_dbPath opts \<noteq> ''none'')), col_queries = [], col_cache = RBT.empty,
      col_mqtt = None, col_published = [], col_data = None, col_sender = None,
      col_command = None, col_sent = []\<rparr>"

text \<open>\<open>connected\<close>: whether the database server accepts; \<open>daemonized\<close>: whether lock and fork succeed.\<close>

definition main_start :: "parse_outcome \<Rightarrow> bool \<Rightarrow> bool \<Rightarrow> bool \<Rightarrow> (nat \<Rightarrow> connection) \<Rightarrow> main_state" where
  "main_start outcome connected daemonized opened clients =
     (case outcome of
        Escapes \<Rightarrow> Terminated
      | Returns ParseFailure opts \<Rightarrow> Exited 1
      | Returns CloseAfterParse opts \<Rightarrow> Exited 0
      | Returns ParseSuccess opts \<Rightarrow>
          if o_dbPath opts \<noteq> ''none'' \<and> \<not> connected then Exited 1
          else if o_daemonize opts \<and> \<not> daemonized then Exited 1
          else new_handler opts opened clients (first_collector opts))"

section \<open>The loop\<close>

text \<open>
  What the event loop of a handler runs: reads of the bus, the handlers of the command port with the
  timers of its scheduler and parsers, and those of the data port.  \<open>HandlerClosed\<close>: the loop was
  stopped by \<open>doClose\<close>.
\<close>

datatype main_event =
    Read col_env bytes
  | Command col_env port_event
  | DataAccepted data_outcome nat
  | DataWritten data_outcome nat
  | HandlerClosed
  | RetryTimeout bool
  | StopSignal

text \<open>Telegrams only come from reads, and only a parser submits requests.\<close>

fun loop_event :: "port_event \<Rightarrow> bool" where
  "loop_event (Bus (PcMessageReceived m)) = False"
| "loop_event (Bus (Submit c m)) = False"
| "loop_event e = True"

text \<open>An exception is caught in \<open>main\<close>, which returns 1; an access out of bounds is undefined.\<close>

fun is_exception :: "fault \<Rightarrow> bool" where
  "is_exception OutOfRangeThrown = True"
| "is_exception BadGetThrown = True"
| "is_exception RangeErrorThrown = True"
| "is_exception OutOfBounds = False"
| "is_exception NullDereferenced = False"
| "is_exception UseAfterFree = False"

text \<open>A signal clears \<open>running\<close> and stops the loop that runs, so that \<open>main\<close> returns.\<close>

fun stopHandler :: "main_state \<Rightarrow> main_state" where
  "stopHandler (Working c) = Exited 0"
| "stopHandler (Waiting c) = Exited 0"
| "stopHandler s = s"

definition after_event :: "collector result \<Rightarrow> main_state" where
  "after_event r = (case r of Inl e \<Rightarrow> if is_exception e then Threw e else Crashed e | Inr c \<Rightarrow> Working c)"

fun daemon_step :: "options \<Rightarrow> (nat \<Rightarrow> connection) \<Rightarrow> main_event \<Rightarrow> main_state \<Rightarrow> main_state" where
  "daemon_step opts clients (Read env bs) (Working c) = after_event (collector_read env bs c)"
| "daemon_step opts clients (Command env e) (Working c) =
     (if loop_event e then after_event (command_step env e c) else Working c)"
| "daemon_step opts clients (DataAccepted outcome k) (Working c) =
     Working (c\<lparr>col_data := map_option (data_handleAccept outcome k) (col_data c)\<rparr>)"
| "daemon_step opts clients (DataWritten outcome k) (Working c) =
     Working (c\<lparr>col_data := map_option (data_handleWrite outcome k) (col_data c)\<rparr>)"
| "daemon_step opts clients HandlerClosed (Working c) = Waiting c"
| "daemon_step opts clients StopSignal s = stopHandler s"
| "daemon_step opts clients (RetryTimeout opened) (Waiting c) = new_handler opts opened clients c"
| "daemon_step opts clients e s = s"

section \<open>Targets\<close>

lemma getHandler_valid:
  "getHandler target \<noteq> None \<longleftrightarrow> prefix ''serial:'' target \<or> prefix ''tx-serial:'' target
     \<or> prefix ''tcp:'' target \<and> CHR '':'' \<in> set (drop 4 target)"
proof -
  have starts: "starts_with target p \<longleftrightarrow> prefix p target" for p
    by (auto simp: starts_with_def prefix_def) (metis append_take_drop_id)
  have colon: "find_from (CHR '':'') 4 target = None \<longleftrightarrow> CHR '':'' \<notin> set (drop 4 target)"
    by (simp add: find_from_def find_char_None_iff)
  show ?thesis using colon by (auto simp: getHandler_def starts split: option.splits)
qed

section \<open>Restarts\<close>

lemma new_handler_parts:
  assumes "getHandler (o_target opts) \<noteq> None"
  shows "\<exists>c'. new_handler opts True clients c = Working c' \<and> col_io c' = io_init \<and> col_cache c' = col_cache c
    \<and> stored c' = stored c \<and> unused c' \<and> (cache_inv (col_cache c) \<longrightarrow> col_ok c')"
  using assms
  by (auto simp: new_handler_def Let_def col_ok_def data_ok_def data_handler_init_def data_startAccepting_def rx_idle_init
      unused_def stored_def scheduler_init_def)

text \<open>
  The readings a sequence of events brings.  The receiver of the handler that works is followed through the
  reads, which deliver any bytes in any pieces; a new handler has a new receiver.  A reading has the
  environment of the read that completed its telegram.
\<close>

definition values_of :: "io_event list \<Rightarrow> ems_value list" where
  "values_of es = concat (map (\<lambda>e. case e of Values vs \<Rightarrow> vs | PcMessage m \<Rightarrow> []) es)"

fun receiver_after :: "main_event \<Rightarrow> io_handler option \<Rightarrow> io_handler option" where
  "receiver_after (Read env bs) (Some io) = (case rx_bytes io bs of Inl f \<Rightarrow> Some io | Inr (io', es) \<Rightarrow> Some io')"
| "receiver_after HandlerClosed r = None"
| "receiver_after (RetryTimeout opened) None = Some io_init"
| "receiver_after e r = r"

fun event_readings :: "main_event \<Rightarrow> io_handler option \<Rightarrow> (col_env \<times> ems_value) list" where
  "event_readings (Read env bs) (Some io) =
     (case rx_bytes io bs of Inl f \<Rightarrow> [] | Inr (io', es) \<Rightarrow> map (Pair env) (values_of es))"
| "event_readings e r = []"

fun readings_of :: "io_handler option \<Rightarrow> main_event list \<Rightarrow> (col_env \<times> ems_value) list" where
  "readings_of r [] = []"
| "readings_of r (e # evs) = event_readings e r @ readings_of (receiver_after e r) evs"

definition cache_all :: "(col_env \<times> ems_value) list \<Rightarrow> value_cache \<Rightarrow> value_cache" where
  "cache_all rs cache = fold (\<lambda>(env, v). cache_handleValue (ce_time env) v) rs cache"

definition store_all :: "(col_env \<times> ems_value) list \<Rightarrow> database option \<times> query list \<Rightarrow> database option \<times> query list" where
  "store_all rs st = fold (\<lambda>(env, v). stored_after env v) rs st"

text \<open>
  Surroundings that let the daemon run: the telegrams in what is read decode, restarts can open their
  device and ports, and nobody sends a signal.
\<close>

fun quiet_event :: "main_event \<Rightarrow> io_handler option \<Rightarrow> bool" where
  "quiet_event (Read env bs) (Some io) \<longleftrightarrow> (case rx_bytes io bs of Inl f \<Rightarrow> False | Inr r \<Rightarrow> True)"
| "quiet_event StopSignal r \<longleftrightarrow> False"
| "quiet_event (RetryTimeout opened) r \<longleftrightarrow> opened"
| "quiet_event e r \<longleftrightarrow> True"

fun quiet_history :: "io_handler option \<Rightarrow> main_event list \<Rightarrow> bool" where
  "quiet_history r [] \<longleftrightarrow> True"
| "quiet_history r (e # evs) \<longleftrightarrow> quiet_event e r \<and> quiet_history (receiver_after e r) evs"

fun is_command :: "main_event \<Rightarrow> bool" where
  "is_command (Command env e) = True"
| "is_command _ = False"

fun receiver_of :: "main_state \<Rightarrow> io_handler option" where
  "receiver_of (Working c) = Some (col_io c)"
| "receiver_of _ = None"

fun is_working :: "main_state \<Rightarrow> bool" where
  "is_working (Working c) = True"
| "is_working _ = False"

fun ended :: "main_state \<Rightarrow> bool" where
  "ended (Working c) = False"
| "ended (Waiting c) = False"
| "ended _ = True"

text \<open>The invariant; \<open>used\<close>: a client of the command port has done something.\<close>

fun main_ok :: "bool \<Rightarrow> value_cache \<Rightarrow> database option \<times> query list \<Rightarrow> main_state \<Rightarrow> bool" where
  "main_ok used cache st (Working c) \<longleftrightarrow> col_ok c \<and> col_cache c = cache \<and> stored c = st \<and> (used \<or> unused c)"
| "main_ok used cache st (Waiting c) \<longleftrightarrow> cache_inv cache \<and> col_cache c = cache \<and> stored c = st"
| "main_ok used cache st _ \<longleftrightarrow> used"

lemma main_ok_ended: "ended s \<Longrightarrow> main_ok used cache st s = used"
  by (cases s) simp_all

lemma ended_step: "ended s \<Longrightarrow> daemon_step opts clients e s = s"
  by (cases e; cases s) simp_all

lemma ended_stays: "ended s \<Longrightarrow> fold (daemon_step opts clients) evs s = s"
  by (induction evs) (simp_all add: ended_step)

text \<open>What the receiver delivers, whatever was read: readings that every consumer accepts.\<close>

primrec good_event :: "io_event \<Rightarrow> bool" where
  "good_event (Values vs) \<longleftrightarrow> list_all good_text vs"
| "good_event (PcMessage m) \<longleftrightarrow> True"

lemma rx_bytes_good: "rx_bytes io bs = Inr (io', es) \<Longrightarrow> list_all good_event es"
proof (induction bs arbitrary: io io' es)
  case (Cons b bs)
  obtain io1 es1 es2 where r: "rx_byte io b = Inr (io1, es1)" "rx_bytes io1 bs = Inr (io', es2)" "es = es1 @ es2"
    using Cons.prems by (auto simp: bindR_Inr_iff)
  have "list_all good_event es1"
    using r(1) telegram_events_good telegram_events_shape
    by (fastforce simp: rx_byte_def Let_def bindR_Inr_iff split: rx_state.splits if_splits)
  then show ?case using Cons.IH [OF r(2)] r(3) by simp
qed simp

lemma values_of_simps [simp]:
  "values_of [] = []" "values_of (Values vs # es) = vs @ values_of es" "values_of (PcMessage m # es) = values_of es"
  by (simp_all add: values_of_def)

lemma io_events_ok:
  "list_all good_event es \<Longrightarrow> col_ok c \<Longrightarrow> used \<or> unused c \<Longrightarrow>
   case io_events env es c of
     Inl f \<Rightarrow> used
   | Inr c' \<Rightarrow> col_ok c' \<and> (used \<or> unused c') \<and> col_io c' = col_io c
       \<and> col_cache c' = cached_after env (values_of es) (col_cache c)
       \<and> stored c' = fold (stored_after env) (values_of es) (stored c)"
proof (induction env es c rule: io_events.induct)
  case (1 env c)
  then show ?case by (simp add: cached_after_def)
next
  case (2 env vs es c)
  obtain c1 where c1: "handle_values env vs c = Inr c1" "col_ok c1" "col_cache c1 = cached_after env vs (col_cache c)"
    "stored c1 = fold (stored_after env) vs (stored c)" "col_sender c1 = col_sender c" "col_io c1 = col_io c"
    using handle_values_good [of vs c env] "2.prems"(1,2) by auto
  then have "used \<or> unused c1" using "2.prems"(3) by (simp add: unused_def)
  then show ?case
    using "2.IH" [of c1] "2.prems"(1) c1 by (simp add: cached_after_def split: sum.splits)
next
  case (3 env m es c)
  show ?case
  proof (cases "onPcMessageReceived env m c")
    case (Inl f)
    then have used using "3.prems"(3) onPcMessageReceived_unused [of c env m] by auto
    then show ?thesis using Inl by simp
  next
    case (Inr c1)
    have "used \<or> unused c1" using Inr "3.prems"(3) onPcMessageReceived_unused [of c env m] by auto
    moreover have "col_ok c1" using onPcMessageReceived_frame [OF Inr] "3.prems"(2) by (simp add: col_ok_def)
    ultimately show ?thesis
      using "3.IH" [of c1] "3.prems"(1) onPcMessageReceived_frame [OF Inr] Inr by (simp split: sum.splits)
  qed
qed

text \<open>A read: its readings are cached, and what the clients make of it does not touch that.\<close>

lemma read_step_ok:
  assumes "main_ok used cache st (Working c)" and "rx_bytes (col_io c) bs = Inr (io, es)"
  shows "main_ok used (cache_all (map (Pair env) (values_of es)) cache) (store_all (map (Pair env) (values_of es)) st)
      (after_event (collector_read env bs c))
    \<and> (is_working (after_event (collector_read env bs c)) \<longrightarrow> receiver_of (after_event (collector_read env bs c)) = Some io)"
proof -
  have c: "col_ok (c\<lparr>col_io := io\<rparr>)" "used \<or> unused (c\<lparr>col_io := io\<rparr>)" "stored (c\<lparr>col_io := io\<rparr>) = st"
    "col_cache (c\<lparr>col_io := io\<rparr>) = cache"
    using assms(1) by (auto simp: col_ok_def unused_def stored_def)
  show ?thesis
    using io_events_ok [OF rx_bytes_good [OF assms(2)] c(1,2), of env] assms(2) c(3,4)
    by (cases "io_events env es (c\<lparr>col_io := io\<rparr>)")
      (auto simp: collector_read_def after_event_def cached_after_def cache_all_def store_all_def fold_map comp_def)
qed

lemma daemon_step_ok:
  assumes "getHandler (o_target opts) \<noteq> None" and "main_ok used cache st s" and "quiet_event e (receiver_of s)" and "\<not> ended s"
  shows "main_ok (used \<or> is_command e) (cache_all (event_readings e (receiver_of s)) cache)
      (store_all (event_readings e (receiver_of s)) st) (daemon_step opts clients e s)
    \<and> (ended (daemon_step opts clients e s) \<or> receiver_of (daemon_step opts clients e s) = receiver_after e (receiver_of s))"
proof (cases s)
  case (Working c)
  show ?thesis
  proof (cases e)
    case (Read env bs)
    then obtain io es where rx: "rx_bytes (col_io c) bs = Inr (io, es)"
      using assms(3) Working by (auto split: sum.splits)
    show ?thesis
      using read_step_ok [OF assms(2) [unfolded Working] rx, of env] Read Working rx
      by (cases "collector_read env bs c") (auto simp: after_event_def)
  next
    case (Command env e')
    show ?thesis
    proof (cases "command_step env e' c")
      case (Inl f)
      then show ?thesis using Command assms(2) Working by (simp add: after_event_def cache_all_def store_all_def)
    next
      case (Inr c')
      then show ?thesis
        using Command assms(2) Working command_step_frame [OF Inr]
        by (clarsimp simp: after_event_def cache_all_def store_all_def col_ok_def)
    qed
  next
    case (DataAccepted outcome k)
    then show ?thesis using assms(2) Working by (auto simp: cache_all_def store_all_def col_ok_def unused_def stored_def)
  next
    case (DataWritten outcome k)
    then show ?thesis using assms(2) Working by (auto simp: cache_all_def store_all_def col_ok_def unused_def stored_def)
  qed (use Working assms in \<open>auto simp: cache_all_def store_all_def col_ok_def\<close>)
next
  case (Waiting c)
  obtain c' where "new_handler opts True clients c = Working c'" "col_io c' = io_init" "col_cache c' = col_cache c"
    "unused c'" "cache_inv (col_cache c) \<longrightarrow> col_ok c'" "stored c' = stored c"
    using new_handler_parts [OF assms(1)] by blast
  then show ?thesis using assms(2,3) Waiting by (cases e) (simp_all add: cache_all_def store_all_def)
qed (use assms in simp_all)

lemma cache_all_append: "cache_all (xs @ ys) cache = cache_all ys (cache_all xs cache)"
  by (simp add: cache_all_def)

lemma store_all_append: "store_all (xs @ ys) st = store_all ys (store_all xs st)"
  by (simp add: store_all_def)

lemma main_run_ok:
  assumes "getHandler (o_target opts) \<noteq> None"
  shows "main_ok used cache st s \<Longrightarrow> quiet_history (receiver_of s) evs \<Longrightarrow>
    main_ok (used \<or> list_ex is_command evs) (cache_all (readings_of (receiver_of s) evs) cache)
      (store_all (readings_of (receiver_of s) evs) st) (fold (daemon_step opts clients) evs s)"
proof (induction evs arbitrary: used s cache st)
  case Nil
  then show ?case by (simp add: cache_all_def store_all_def)
next
  case (Cons e evs)
  have e: "quiet_event e (receiver_of s)" "quiet_history (receiver_after e (receiver_of s)) evs"
    using Cons.prems(2) by simp_all
  let ?s = "daemon_step opts clients e s"
  show ?case
  proof (cases "ended s")
    case True
    then show ?thesis
      using ended_stays [OF True] ended_step [OF True] Cons.prems(1) by (auto simp: main_ok_ended)
  next
    case alive: False
    note step = daemon_step_ok [OF assms Cons.prems(1) e(1) alive, of clients]
    note ok = step [THEN conjunct1]
    show ?thesis
    proof (cases "ended ?s")
      case True
      then show ?thesis using ended_stays [OF True] ok by (auto simp: main_ok_ended)
    next
      case False
      then have r: "receiver_of ?s = receiver_after e (receiver_of s)" using step by simp
      then show ?thesis
        using Cons.IH [OF ok] e(2) by (simp add: cache_all_append store_all_append disj_assoc)
    qed
  qed
qed

lemma cache_all_lookup:
  "RBT.lookup (cache_all rs cache) k =
     (case filter (\<lambda>(env, v). value_key v = k) rs of [] \<Rightarrow> RBT.lookup cache k
      | ps \<Rightarrow> Some \<lparr>ce_timestamp = ce_time (fst (last ps)), ce_value = snd (last ps)\<rparr>)"
  by (induction rs rule: rev_induct) (auto simp: cache_all_def split: list.splits)

lemma main_start_ok:
  assumes "getHandler (o_target opts) \<noteq> None" and "o_dbPath opts = ''none'' \<or> connected"
    and "\<not> o_daemonize opts \<or> daemonized"
  shows "main_ok False RBT.empty (Some (database_init (o_dbPath opts \<noteq> ''none'')), [])
      (main_start (Returns ParseSuccess opts) connected daemonized True clients)
    \<and> receiver_of (main_start (Returns ParseSuccess opts) connected daemonized True clients) = Some io_init"
  using assms new_handler_parts [OF assms(1), of clients "first_collector opts"]
  by (auto simp: main_start_def first_collector_def stored_def cache_inv_empty)

section \<open>Properties\<close>

text \<open>
  the program starts to work exactly when the options could be parsed, the database server accepts
  (unless its path is \<open>none\<close>), the process could be put into the background (unless it stays in the
  foreground), the device and the ports can be opened, and the target names a device or, behind \<open>tcp:\<close>, a host and a port with a colon between.
\<close>

theorem daemon_starts_iff:
  "is_working (main_start (Returns r opts) connected daemonized opened clients) \<longleftrightarrow>
     r = ParseSuccess \<and> opened \<and> (o_dbPath opts = ''none'' \<or> connected) \<and> (if o_daemonize opts then daemonized else True)
     \<and> (prefix ''serial:'' (o_target opts) \<or> prefix ''tx-serial:'' (o_target opts)
        \<or> prefix ''tcp:'' (o_target opts) \<and> CHR '':'' \<in> set (drop 4 (o_target opts)))"
proof -
  have "is_working (new_handler opts opened clients c) \<longleftrightarrow> opened \<and> getHandler (o_target opts) \<noteq> None" for c
    by (simp add: new_handler_def Let_def split: option.splits)
  then show ?thesis
    by (cases r) (auto simp: main_start_def getHandler_valid [symmetric])
qed

text \<open>
  C9: the daemon keeps running and remembers: whatever bytes it reads in whatever pieces, as long as the
  telegrams among them decode, and whatever actions of clients, closed handlers and restarts come between,
  it does not end by itself unless a client of the command port has done something, and as long as it runs
  its cache holds for every key the last reading that arrived while a handler worked, with the time of the
  read that completed its telegram, also across restarts.
\<close>

theorem daemon_remembers:
  assumes "getHandler (o_target opts) \<noteq> None" and "o_dbPath opts = ''none'' \<or> connected"
    and "\<not> o_daemonize opts \<or> daemonized" and "quiet_history (Some io_init) evs"
  shows "let s = fold (daemon_step opts clients) evs (main_start (Returns ParseSuccess opts) connected daemonized True clients)
    in if ended s then list_ex is_command evs
       else \<exists>c. (s = Working c \<or> s = Waiting c)
         \<and> RBT.lookup (col_cache c) k =
           (case filter (\<lambda>(env, v). value_key v = k) (readings_of (Some io_init) evs) of [] \<Rightarrow> None
            | ps \<Rightarrow> Some \<lparr>ce_timestamp = ce_time (fst (last ps)), ce_value = snd (last ps)\<rparr>)"
proof -
  let ?s = "main_start (Returns ParseSuccess opts) connected daemonized True clients"
  note ok = main_start_ok [OF assms(1-3), of clients]
  have "main_ok (list_ex is_command evs) (cache_all (readings_of (Some io_init) evs) RBT.empty)
      (store_all (readings_of (Some io_init) evs) (Some (database_init (o_dbPath opts \<noteq> ''none'')), []))
      (fold (daemon_step opts clients) evs ?s)"
    using main_run_ok [OF assms(1), of False RBT.empty _ ?s evs clients] ok assms(4) by simp
  then show ?thesis
    by (cases "fold (daemon_step opts clients) evs ?s") (simp_all add: cache_all_lookup split: list.split)
qed

definition daemon_options_example :: options where
  "daemon_options_example = options_init\<lparr>o_target := ''serial:/dev/ttyS0'', o_dbPath := ''none'', o_daemonize := False\<rparr>"

text \<open>Noise and the frame of a telegram, read in two pieces.\<close>

definition outdoor_pieces :: "bytes \<times> bytes" where
  "outdoor_pieces = ([0x00, 0xff] @ take 4 (serial_frame outdoor_telegram), drop 4 (serial_frame outdoor_telegram))"

lemma outdoor_pieces_read:
  "\<exists>io io'. rx_bytes io_init (fst outdoor_pieces) = Inr (io, [])
     \<and> rx_bytes io (snd outdoor_pieces) = Inr (io', [Values [numericValue (NumT IstTemp) Aussen [0, 215] 2 10 True
         (Some INVALID_TEMPERATURE_VALUES)]])"
proof -
  let ?noise = "[0x00, 0xff] :: bytes" and ?a = "[0xaa, 0x55, 6, 0x88] :: bytes"
  let ?b = "drop 4 (serial_frame outdoor_telegram)"
  have f: "serial_frame outdoor_telegram = ?a @ ?b" "fst outdoor_pieces = ?noise @ ?a" "snd outdoor_pieces = ?b"
    by (simp_all add: serial_frame_def outdoor_telegram_def outdoor_pieces_def)
  have noise: "rx_bytes io_init ?noise = Inr (io_init, [])"
    by (simp add: rx_byte_def io_init_def)
  obtain io where io: "rx_bytes io_init ?a = Inr (io, [])"
    by (simp add: rx_byte_def io_init_def)
  obtain io' where "rx_bytes io_init (?a @ ?b) =
      Inr (io', [Values [numericValue (NumT IstTemp) Aussen [0, 215] 2 10 True (Some INVALID_TEMPERATURE_VALUES)]])"
    using rx_frame [OF rx_idle_init outdoor_sendable outdoor_events] f(1) by metis
  then have "rx_bytes io ?b =
      Inr (io', [Values [numericValue (NumT IstTemp) Aussen [0, 215] 2 10 True (Some INVALID_TEMPERATURE_VALUES)]])"
    unfolding serial_link.feed_append io by (auto simp: bindR_Inr_iff simp del: rx_bytes.simps)
  then show ?thesis
    unfolding f(2,3) serial_link.feed_append noise bindR_simps prod.case io by simp
qed

lemma daemon_remembers_witness:
  "\<exists>c v. fold (daemon_step daemon_options_example (\<lambda>_. connection_init idle_parser))
       [Read col_env_example (fst outdoor_pieces), Read (col_env_example\<lparr>ce_time := 9\<rparr>) (snd outdoor_pieces),
        HandlerClosed, RetryTimeout True]
       (main_start (Returns ParseSuccess daemon_options_example) False False True (\<lambda>_. connection_init idle_parser))
     \<in> {Working c, Waiting c}
    \<and> RBT.lookup (col_cache c) (NumT IstTemp, Aussen) = Some \<lparr>ce_timestamp = 9, ce_value = v\<rparr>"
proof -
  let ?clients = "\<lambda>_. connection_init idle_parser"
  let ?v = "numericValue (NumT IstTemp) Aussen [0, 215] 2 10 True (Some INVALID_TEMPERATURE_VALUES)"
  let ?evs = "[Read col_env_example (fst outdoor_pieces), Read (col_env_example\<lparr>ce_time := 9\<rparr>) (snd outdoor_pieces),
    HandlerClosed, RetryTimeout True]"
  have t: "getHandler (o_target daemon_options_example) \<noteq> None"
    by (simp add: getHandler_def starts_with_def daemon_options_example_def)
  have k: "value_key ?v = (NumT IstTemp, Aussen)" by (simp add: value_key_def)
  have q: "quiet_history (Some io_init) ?evs"
    and r: "readings_of (Some io_init) ?evs = [(col_env_example\<lparr>ce_time := 9\<rparr>, ?v)]"
    using outdoor_pieces_read by auto
  have o: "o_dbPath daemon_options_example = ''none''" "\<not> o_daemonize daemon_options_example" "\<not> list_ex is_command ?evs"
    by (simp_all add: daemon_options_example_def)
  show ?thesis
    using daemon_remembers [OF t _ _ q, of False False ?clients "(NumT IstTemp, Aussen)"] o unfolding r Let_def
    by (auto simp del: fold_simps simp: k split: if_splits)
qed

text \<open>
  the retry does not wait for a serial device that comes back: when the device cannot be
  opened ten seconds after a handler was closed, its constructor throws and the daemon ends.
\<close>

theorem unplugged_device_ends_daemon:
  assumes "getHandler (o_target opts) \<noteq> None"
  shows "fold (daemon_step opts clients) [HandlerClosed, RetryTimeout False] (Working c) = Exited 1"
  using assms by (auto simp: new_handler_def)

end
