(* ===== verification/Gateway.thy ===== *)
theory Gateway
  imports Supervisor CommandService
begin

text \<open>
  A read request on its whole way: from the line of a client through the command port, the scheduler and
  the serial line to the device, and from the frames of the answers through the receiver back to the
  client, while the main loop runs (\<open>main.cpp\<close>).
\<close>

unbundle bit_operations_syntax

section \<open>An answer in the scheduler\<close>

text \<open>The specification of the requests: each asks for exactly what is still missing.\<close>

fun read_requests :: "u8 \<Rightarrow> u16 \<Rightarrow> nat \<Rightarrow> nat \<Rightarrow> ems_message list \<Rightarrow> ems_message list" where
  "read_requests dest type offset len [] = []"
| "read_requests dest type offset len (m # ms) =
     sendMessage_ctor dest type (of_nat offset) [of_nat len] True
     # read_requests dest type (offset + length (m_data m)) (len - length (m_data m)) ms"

text \<open>A connection that waits for the bytes from \<open>offset\<close> on behind those it has.\<close>

definition reading :: "u8 \<Rightarrow> u16 \<Rightarrow> nat \<Rightarrow> nat \<Rightarrow> bytes \<Rightarrow> parser \<Rightarrow> bool" where
  "reading dest type offset len bs p \<longleftrightarrow> m_activeRequest p \<noteq> None \<and> m_outputRawData p \<and> m_requestDestination p = dest
     \<and> m_requestType p = type \<and> m_requestOffset p = offset \<and> m_requestLength p = len \<and> m_requestResponse p = bs"

lemma reading_more:
  assumes "reading dest type offset len bs p" and "type \<noteq> 0xff"
    and "m_source m = dest" and "getType m = type" and "unat (m_offset m) = offset + length bs" and "m_data m \<noteq> []"
    and "length (bs @ m_data m) < len"
  shows "\<exists>p'. onIncomingMessage junk p m = Inr (Indeterminate, p',
       [Send (sendMessage_ctor dest type (of_nat (offset + length (bs @ m_data m))) [of_nat (len - length (bs @ m_data m))] True)])
     \<and> reading dest type offset len (bs @ m_data m) p'"
  using assms by (auto simp: reading_def onIncomingMessage_def continueRequest_def sendCommand_def
      sendActiveRequest_def Let_def)

lemma reading_done:
  assumes "reading dest type offset len bs p" and "type \<noteq> 0xff"
    and "m_source m = dest" and "getType m = type" and "unat (m_offset m) = offset + length bs" and "m_data m \<noteq> []"
    and "len \<le> length (bs @ m_data m)"
  shows "\<exists>p'. onIncomingMessage junk p m = Inr (Yes, p', [Output (raw_line (bs @ m_data m))]) \<and> m_activeRequest p' = None"
  using assms by (auto simp: reading_def onIncomingMessage_def continueRequest_def Let_def)

lemma answer_continues:
  assumes "serving k m0 t s" and "m_dest m1 = m_dest m0" and "m_dest m1 AND 0x80 \<noteq> 0" and "m_source m \<noteq> m_dest m1"
    and "onIncomingMessage junk (c_parser (s_clients s k)) m = Inr (Indeterminate, p', [Send m1])"
    and "t + MinDistanceBetweenRequests < now"
  shows "\<exists>s'. handlePcMessage (connection_ops junk) now m s = Inr (s', [m1]) \<and> serving k m1 now s'
    \<and> c_parser (s_clients s' k) = p' \<and> c_written (s_clients s' k) = c_written (s_clients s k)"
proof -
  define conn where "conn = absorb p' [Send m1] (s_clients s k)"
  define s2 where "s2 = s\<lparr>m_lastCommTimes := RBT.insert (unat (m_source m)) now (m_lastCommTimes s), m_responseTimeout := None,
    s_clients := (s_clients s)(k := conn), m_pending := [(k, m1)], m_currentClient := Some k\<rparr>"
  have ne: "unat (m_dest m0) \<noteq> unat (m_source m)"
    using assms(2,4) by (metis word_unat_eq_iff)
  then have "sendMessage now m1 s2 = doSendMessage now m1 s2"
    using assms(1,2,6) by (intro sendMessage_free) (simp add: s2_def serving_def)
  moreover have "connection_onIncomingMessage junk (s_clients s k) m = Inr (conn, [m1])"
    using assms(5) by (simp add: connection_onIncomingMessage_def conn_def sends_of_def)
  ultimately show ?thesis
    using assms(1-3) ne
    by (simp add: handlePcMessage_def serving_def connection_ops_def after_callback_def Let_def conn_def
        continueWithNextRequest_def doSendMessage_def scheduleResponseTimeout_def s2_def absorb_def lines_of_def)
qed

lemma answer_ends:
  assumes "serving k m0 t s"
    and "onIncomingMessage junk (c_parser (s_clients s k)) m = Inr (Yes, p', [Output line])"
  shows "\<exists>s'. handlePcMessage (connection_ops junk) now m s = Inr (s', []) \<and> m_currentClient s' = None \<and> m_pending s' = []
    \<and> c_parser (s_clients s' k) = p' \<and> c_written (s_clients s' k) = c_written (s_clients s k) @ [line, ''OK'']"
  using assms
  by (simp add: handlePcMessage_def serving_def connection_ops_def after_callback_def Let_def sends_of_def
      connection_onIncomingMessage_def continueWithNextRequest_def absorb_def lines_of_def respond_def)

section \<open>An answer from the bus\<close>

text \<open>
  An answer that comes at \<open>env\<close>: the bytes of its telegram, and the telegram as it is read.
\<close>

definition heard :: "col_env \<times> bytes \<times> ems_message \<Rightarrow> bool" where
  "heard a \<longleftrightarrow> (case a of (env, d, m) \<Rightarrow>
     rx_sendable d \<and> (\<exists>vs. telegram_events d = Inr [Values vs, PcMessage m]))"

text \<open>The daemon works, and connection \<open>k\<close> of its command port is open.\<close>

definition connected :: "nat \<Rightarrow> collector \<Rightarrow> bool" where
  "connected k c \<longleftrightarrow> rx_idle (col_io c) \<and> col_ok c
     \<and> (\<exists>s h. col_sender c = Some s \<and> col_command c = Some h \<and> k \<in> set (ch_connections h))"

definition sender :: "collector \<Rightarrow> connection scheduler" where
  "sender c = the (col_sender c)"

lemma answer_read:
  assumes "connected k c" and "heard (env, d, m)" and "m_currentClient (sender c) = Some k"
    and "handlePcMessage (connection_ops (ce_junk env)) (ce_millis env) m (sender c) = Inr (s', out)"
  shows "\<exists>c'. daemon_step opts clients (Read env (serial_frame d)) (Working c) = Working c' \<and> connected k c'
    \<and> sender c' = s' \<and> col_sent c' = col_sent c @ out"
proof -
  obtain vs where d: "rx_sendable d" "telegram_events d = Inr [Values vs, PcMessage m]"
    using assms(2) by (auto simp: heard_def)
  obtain s h where c: "col_sender c = Some s" "col_command c = Some h" "k \<in> set (ch_connections h)" "sender c = s"
    "rx_idle (col_io c)" "col_ok c"
    using assms(1) by (auto simp: connected_def sender_def)
  obtain c1 where c1: "collector_read env (serial_frame d) c = io_events env [PcMessage m] c1" "rx_idle (col_io c1)" "col_ok c1"
    "col_sender c1 = Some s" "col_command c1 = Some h" "col_sent c1 = col_sent c"
    using frame_read_values [OF c(5) d telegram_events_good [OF d(2)] c(6), of env] c(1,2) by auto
  obtain h' where h': "bus_event (port_env_of env c1) (PcMessageReceived m) \<lparr>po_handler = h, po_sched = s\<rparr> =
      Inr (\<lparr>po_handler = h', po_sched = s'\<rparr>, out)" "ch_connections h' = ch_connections h"
    using assms(3,4) c(3,4)
    by (simp add: bus_event_def callback_of_def sched_event_def alive_def port_env_of_def Let_def started_writes_def)
  let ?c = "c1\<lparr>col_sender := Some s', col_command := Some h', col_sent := col_sent c1 @ out\<rparr>"
  have "onPcMessageReceived env m c1 = Inr ?c"
    using c1(4,5) h'(1) by (simp add: onPcMessageReceived_def command_step_def)
  then show ?thesis
    using c1 c(3) h'(2) by (intro exI [of _ ?c]) (simp add: after_event_def connected_def sender_def col_ok_def)
qed

text \<open>Each answer comes later than the minimal distance between requests after the one before.\<close>

fun spaced :: "nat \<Rightarrow> col_env list \<Rightarrow> bool" where
  "spaced t [] \<longleftrightarrow> True"
| "spaced t (env # envs) \<longleftrightarrow> t + MinDistanceBetweenRequests < ce_millis env \<and> spaced (ce_millis env) envs"

definition answer_event :: "col_env \<times> bytes \<times> ems_message \<Rightarrow> main_event" where
  "answer_event a = (case a of (env, d, m) \<Rightarrow> Read env (serial_frame d))"

abbreviation telegrams :: "(col_env \<times> bytes \<times> ems_message) list \<Rightarrow> ems_message list" where
  "telegrams as \<equiv> map (\<lambda>(env, d, m). m) as"

text \<open>The request of \<open>k\<close> is over: it has read \<open>lines\<close>, and the scheduler is free.\<close>

definition answered :: "nat \<Rightarrow> string list \<Rightarrow> collector \<Rightarrow> bool" where
  "answered k lines c \<longleftrightarrow> connected k c \<and> m_currentClient (sender c) = None \<and> m_pending (sender c) = []
     \<and> m_activeRequest (c_parser (s_clients (sender c) k)) = None \<and> c_written (s_clients (sender c) k) = lines"

text \<open>One answer: it asks for the rest, or it is the last one.\<close>

lemma answer_heard_more:
  assumes "connected k c" and "serving k m0 t (sender c)" and "m_dest m0 = dest OR 0x80" and "dest AND 0x80 = 0"
    and "heard (env, d, m)" and "t + MinDistanceBetweenRequests < ce_millis env"
    and "reading dest type offset len bs (c_parser (s_clients (sender c) k))" and "type \<noteq> 0xff"
    and m: "m_source m = dest" "getType m = type" "unat (m_offset m) = offset + length bs" "m_data m \<noteq> []"
    and "length (bs @ m_data m) < len"
    and m1: "m1 = sendMessage_ctor dest type (of_nat (offset + length (bs @ m_data m))) [of_nat (len - length (bs @ m_data m))] True"
  shows "\<exists>c'. daemon_step opts clients (answer_event (env, d, m)) (Working c) = Working c' \<and> connected k c'
    \<and> serving k m1 (ce_millis env) (sender c') \<and> m_dest m1 = dest OR 0x80
    \<and> reading dest type offset len (bs @ m_data m) (c_parser (s_clients (sender c') k))
    \<and> c_written (s_clients (sender c') k) = c_written (s_clients (sender c) k) \<and> col_sent c' = col_sent c @ [m1]"
proof -
  have current: "m_currentClient (sender c) = Some k" using assms(2) by (simp add: serving_def)
  from reading_more [OF assms(7,8) m assms(13), of "ce_junk env"] obtain p' where
    p': "onIncomingMessage (ce_junk env) (c_parser (s_clients (sender c) k)) m = Inr (Indeterminate, p', [Send m1])"
    "reading dest type offset len (bs @ m_data m) p'" unfolding m1 by blast
  have dest: "m_dest m1 = dest OR 0x80" by (simp add: m1 sendMessage_ctor_def)
  then have read: "m_dest m1 = m_dest m0" "m_dest m1 AND 0x80 \<noteq> 0" using assms(3) by simp_all
  have other: "m_source m \<noteq> m_dest m1" using assms(4) m(1) read(2) by metis
  obtain s' where s': "handlePcMessage (connection_ops (ce_junk env)) (ce_millis env) m (sender c) = Inr (s', [m1])"
    "serving k m1 (ce_millis env) s'" "c_parser (s_clients s' k) = p'"
    "c_written (s_clients s' k) = c_written (s_clients (sender c) k)"
    using answer_continues [OF assms(2) read other p'(1) assms(6)] by blast
  show ?thesis
    using answer_read [OF assms(1,5) current s'(1), of opts clients] s'(2-4) p'(2) dest by (auto simp: answer_event_def)
qed

lemma answer_heard_last:
  assumes "connected k c" and "serving k m0 t (sender c)" and "heard (env, d, m)"
    and "reading dest type offset len bs (c_parser (s_clients (sender c) k))" and "type \<noteq> 0xff"
    and m: "m_source m = dest" "getType m = type" "unat (m_offset m) = offset + length bs" "m_data m \<noteq> []"
    and "len \<le> length (bs @ m_data m)"
  shows "\<exists>c'. daemon_step opts clients (answer_event (env, d, m)) (Working c) = Working c'
    \<and> answered k (c_written (s_clients (sender c) k) @ [raw_line (bs @ m_data m), ''OK'']) c' \<and> col_sent c' = col_sent c"
proof -
  have current: "m_currentClient (sender c) = Some k" using assms(2) by (simp add: serving_def)
  from reading_done [OF assms(4,5) m assms(10), of "ce_junk env"] obtain p' where p':
    "onIncomingMessage (ce_junk env) (c_parser (s_clients (sender c) k)) m = Inr (Yes, p', [Output (raw_line (bs @ m_data m))])"
    "m_activeRequest p' = None" by blast
  obtain s' where s': "handlePcMessage (connection_ops (ce_junk env)) (ce_millis env) m (sender c) = Inr (s', [])"
    "m_currentClient s' = None" "m_pending s' = []" "c_parser (s_clients s' k) = p'"
    "c_written (s_clients s' k) = c_written (s_clients (sender c) k) @ [raw_line (bs @ m_data m), ''OK'']"
    using answer_ends [OF assms(2) p'(1)] by blast
  show ?thesis
    using answer_read [OF assms(1,3) current s'(1), of opts clients] s'(2-5) p'(2) by (auto simp: answered_def answer_event_def)
qed

lemma answers_heard:
  assumes "type \<noteq> 0xff" and "dest AND 0x80 = 0"
  shows "connected k c \<Longrightarrow> serving k m0 t (sender c) \<Longrightarrow> m_dest m0 = dest OR 0x80 \<Longrightarrow>
    reading dest type offset len bs (c_parser (s_clients (sender c) k)) \<Longrightarrow>
    answers dest type (offset + length bs) (telegrams as) \<Longrightarrow> as \<noteq> [] \<Longrightarrow>
    length (bs @ concat (map m_data (butlast (telegrams as)))) < len \<Longrightarrow>
    len \<le> length (bs @ concat (map m_data (telegrams as))) \<Longrightarrow> list_all heard as \<Longrightarrow> spaced t (map fst as) \<Longrightarrow>
    \<exists>c'. fold (daemon_step opts clients) (map answer_event as) (Working c) = Working c'
      \<and> answered k (c_written (s_clients (sender c) k) @ [raw_line (bs @ concat (map m_data (telegrams as))), ''OK'']) c'
      \<and> col_sent c' = col_sent c @ read_requests dest type (offset + length (bs @ m_data (hd (telegrams as))))
          (len - length (bs @ m_data (hd (telegrams as)))) (tl (telegrams as))"
proof (induction as arbitrary: c m0 t bs)
  case (Cons a as)
  obtain env d m where a: "a = (env, d, m)" by (cases a)
  have m: "m_source m = dest" "getType m = type" "unat (m_offset m) = offset + length bs" "m_data m \<noteq> []"
    using Cons.prems(5) a by auto
  have heard: "heard (env, d, m)" and time: "t + MinDistanceBetweenRequests < ce_millis env"
    using Cons.prems(9,10) a by auto
  let ?bs = "bs @ m_data m"
  show ?case
  proof (cases as)
    case Nil
    then have "len \<le> length ?bs" using Cons.prems(8) a by simp
    from answer_heard_last [OF Cons.prems(1,2) heard Cons.prems(4) assms(1) m this, of opts clients] show ?thesis
      using Nil a by auto
  next
    case as: (Cons a' as')
    have more: "length ?bs < len" using Cons.prems(7) as a by simp
    obtain c1 m1 where c1: "daemon_step opts clients (answer_event a) (Working c) = Working c1" "connected k c1"
      "serving k m1 (ce_millis env) (sender c1)" "m_dest m1 = dest OR 0x80"
      "reading dest type offset len ?bs (c_parser (s_clients (sender c1) k))"
      "c_written (s_clients (sender c1) k) = c_written (s_clients (sender c) k)" "col_sent c1 = col_sent c @ [m1]"
      "m1 = sendMessage_ctor dest type (of_nat (offset + length ?bs)) [of_nat (len - length ?bs)] True"
      using answer_heard_more [OF Cons.prems(1,2,3) assms(2) heard time Cons.prems(4) assms(1) m more refl, of opts clients] a
      by blast
    have "\<exists>c'. fold (daemon_step opts clients) (map answer_event as) (Working c1) = Working c'
      \<and> answered k (c_written (s_clients (sender c1) k) @ [raw_line (?bs @ concat (map m_data (telegrams as))), ''OK'']) c'
      \<and> col_sent c' = col_sent c1 @ read_requests dest type (offset + length (?bs @ m_data (hd (telegrams as))))
          (len - length (?bs @ m_data (hd (telegrams as)))) (tl (telegrams as))"
      by (rule Cons.IH [OF c1(2-5)]) (use Cons.prems as a in \<open>simp_all add: add.assoc\<close>)
    then show ?thesis using c1(1,6-8) as a by (auto simp: add.assoc diff_diff_left simp del: daemon_step.simps)
  qed
qed simp

text \<open>The line of the client.\<close>

lemma read_request_sent:
  assumes "connected k c" and "col_command c = Some h" and "k \<in> set (ch_reading h)"
    and "2 < length (c_request (s_clients (sender c) k) @ line)"
    and "parse (ce_env env) (Some (col_cache c)) (stream_of (c_request (s_clients (sender c) k) @ line))
        (c_parser (s_clients (sender c) k)) = reply Ok is (startRequest dest type offset len True True p)"
    and "0 < len" and "bus_idle (ce_millis env) (dest OR 0x80) (sender c)"
  shows "\<exists>c'. daemon_step opts clients (Command env (RequestRead k line)) (Working c) = Working c' \<and> connected k c'
    \<and> serving k (sendMessage_ctor dest type (of_nat offset) [of_nat len] True) (ce_millis env) (sender c')
    \<and> reading dest type offset len [] (c_parser (s_clients (sender c') k))
    \<and> c_written (s_clients (sender c') k) = c_written (s_clients (sender c) k)
    \<and> col_sent c' = col_sent c @ [sendMessage_ctor dest type (of_nat offset) [of_nat len] True]"
proof -
  let ?m = "sendMessage_ctor dest type (of_nat offset) [of_nat len] True"
  let ?r = "startRequest dest type offset len True True p"
  have r: "?r = (fst ?r, [Send ?m])" "reading dest type offset len [] (fst ?r)"
    using assms(6) by (simp_all add: startRequest_def continueRequest_def sendCommand_def sendActiveRequest_def reading_def Let_def)
  have s: "col_sender c = Some (sender c)" "k \<in> set (ch_connections h)" "rx_idle (col_io c)" "col_ok c"
    using assms(1,2) by (auto simp: connected_def sender_def)
  let ?po = "\<lparr>po_handler = h, po_sched = sender c\<rparr>"
  have dest: "m_dest ?m = dest OR 0x80" by (simp add: sendMessage_ctor_def)
  obtain po' where po': "port_step (port_env_of env c) (RequestRead k line) ?po = Inr (po', [?m])"
    "serving k ?m (ce_millis env) (po_sched po')" "c_parser (client po' k) = fst ?r"
    "c_written (client po' k) = c_written (client ?po k)" "others_same k ?po po'"
    using request_submits [of k ?po line "port_env_of env c" "is" "fst ?r" ?m] assms(3-5,7) r(1) dest
    by (auto simp: client_def port_env_of_def simp del: port_step.simps)
  let ?c = "c\<lparr>col_sender := Some (po_sched po'), col_command := Some (po_handler po'), col_sent := col_sent c @ [?m]\<rparr>"
  have "command_step env (RequestRead k line) c = Inr ?c"
    using s(1) assms(2) po'(1) by (simp add: command_step_def del: port_step.simps)
  then show ?thesis
    using s po'(2-5) r(2)
    by (intro exI [of _ ?c]) (auto simp: after_event_def connected_def sender_def client_def others_same_def col_ok_def)
qed

section \<open>Properties\<close>


definition client_collector :: collector where
  "client_collector = collector_init\<lparr>col_sender := Some (scheduler_init (\<lambda>_. connection_init idle_parser)),
     col_command := Some (handleAccept Success command_handler_init)\<rparr>"

definition raw_line_example :: string where
  "raw_line_example = ''raw read 16 5 0 2\<newline>''"

lemma raw_line_example_parse:
  "\<exists>s. parse example_env (Some RBT.empty) (stream_of raw_line_example) idle_parser =
     reply Ok s (startRequest 0x10 0x05 0 2 True True idle_parser)"
proof -
  have w: "read_string (stream_of raw_line_example) = (''raw'', stream_of '' read 16 5 0 2\<newline>'')"
    "read_string (stream_of '' read 16 5 0 2\<newline>'') = (''read'', stream_of '' 16 5 0 2\<newline>'')"
    "fst (parse_numbers [255, 65535, 255, 255] (stream_of '' 16 5 0 2\<newline>'')) = Some [16, 5, 0, 2]"
    by code_simp+
  then show ?thesis
    unfolding parse_def w(1) prod.case handleRawCommand_def
    by (cases "parse_numbers [255, 65535, 255, 255] (stream_of '' 16 5 0 2\<newline>'')") auto
qed


end
