(* ===== verification/DaemonHistory.thy ===== *)
theory DaemonHistory
  imports Supervisor
begin

text \<open>
  From the bus to the rows of the database (\<open>main.cpp\<close>, \<open>IoHandler.cpp\<close>, \<open>Database.cpp\<close>): what the statements
  that the daemon executes while it runs leave in the tables.
\<close>

section \<open>Statements\<close>

text \<open>The key of each new row; 0 stands for an insertion that failed.\<close>

fun insert_keys :: "query \<Rightarrow> (string \<times> nat) list" where
  "insert_keys (UpdateEnd table now i) = []"
| "insert_keys (InsertRow table sensor value t t' inserted) = [(table, case inserted of None \<Rightarrow> 0 | Some i \<Rightarrow> i)]"

text \<open>A server that executes every insertion and gives each new row a key of its own.\<close>

definition server_ok :: "query list \<Rightarrow> bool" where
  "server_ok qs \<longleftrightarrow> distinct (concat (map insert_keys qs)) \<and> (\<forall>(table, i) \<in> set (concat (map insert_keys qs)). i \<noteq> 0)"

lemma server_ok_append: "server_ok (qs @ qs') \<Longrightarrow> server_ok qs"
  by (auto simp: server_ok_def)

definition tables_after :: "query list \<Rightarrow> row list" where
  "tables_after qs = fold apply_query qs []"

lemma apply_query_keys:
  "(\<lambda>r. (r_table r, r_id r)) ` set (apply_query q rows) \<subseteq> (\<lambda>r. (r_table r, r_id r)) ` set rows \<union> set (insert_keys q)"
proof (cases q)
  case (InsertRow table sensor v t t' inserted)
  then show ?thesis by (cases inserted) auto
qed (auto split: if_splits)

lemma tables_after_keys:
  "(\<lambda>r. (r_table r, r_id r)) ` set (tables_after qs) \<subseteq> set (concat (map insert_keys qs))"
proof (induction qs rule: rev_induct)
  case (snoc q qs)
  have "tables_after (qs @ [q]) = apply_query q (tables_after qs)" by (simp add: tables_after_def)
  then show ?case using apply_query_keys [of q "tables_after qs"] snoc by (simp add: subset_iff) blast
qed (simp add: tables_after_def)

text \<open>The statements for one sample: an update, an insertion, or both, one after the other.\<close>

lemma record_value_inserted:
  assumes "record_value table mk n value now inserted cache ids = (cache', ids', qs)"
  shows "concat (map insert_keys qs) = [] \<and> record_value table mk n value now inserted' cache ids = (cache', ids', qs)
    \<or> (\<exists>update. qs = update @ [InsertRow table n (mk value) now now inserted] \<and> concat (map insert_keys update) = [])"
  using assms by (auto simp: record_value_def Let_def split: option.splits if_splits)

lemma addSensorValue_inserted:
  assumes "addSensorValue limit now inserted x db = (db', qs)"
  shows "concat (map insert_keys qs) = [] \<and> addSensorValue limit now inserted' x db = (db', qs)
    \<or> (\<exists>update table n value. qs = update @ [InsertRow table n value now now inserted] \<and> concat (map insert_keys update) = [])"
proof (cases x)
  case (NumericSample s v)
  obtain ok db1 where l: "checkAndUpdateRateLimit limit (numeric_sensor_number s) now db = (ok, db1)" by fastforce
  obtain cache ids qs' where r: "record_value numericTableName NumericValue (numeric_sensor_number s) v now inserted
      (m_numericCache db1) (m_lastInsertIds db1) = (cache, ids, qs')" by (metis prod_cases3)
  show ?thesis
    using record_value_inserted [OF r, of inserted'] assms NumericSample r l
    by (auto simp: addSensorValue_numeric_def Let_def split: if_splits bool.splits)
next
  case (BooleanSample s v)
  obtain cache ids qs' where r: "record_value booleanTableName BooleanValue (boolean_sensor_number s) v now inserted
      (m_booleanCache db) (m_lastInsertIds db) = (cache, ids, qs')" by (metis prod_cases3)
  show ?thesis
    using record_value_inserted [OF r, of inserted'] assms BooleanSample r
    by (auto simp: addSensorValue_boolean_def Let_def split: if_splits bool.splits)
next
  case (StateSample s v)
  obtain cache ids qs' where r: "record_value stateTableName StateValue (state_sensor_number s) v now inserted
      (m_stateCache db) (m_lastInsertIds db) = (cache, ids, qs')" by (metis prod_cases3)
  show ?thesis
    using record_value_inserted [OF r, of inserted'] assms StateSample r
    by (auto simp: addSensorValue_state_def Let_def split: if_splits bool.splits)
qed

text \<open>A connected database takes every sample of a sensor that is not rate limited.\<close>

fun limited :: "int \<Rightarrow> sample \<Rightarrow> bool" where
  "limited limit (NumericSample s v) \<longleftrightarrow> limit \<noteq> 0"
| "limited limit x \<longleftrightarrow> False"

lemma record_value_nonempty: "snd (snd (record_value table mk n value now inserted cache ids)) \<noteq> []"
  by (auto simp: record_value_def Let_def split: option.splits)

lemma addSensorValue_connection:
  assumes "addSensorValue limit now inserted x db = (db', qs)" and "m_connection db"
  shows "m_connection db'" and "\<not> limited limit x \<Longrightarrow> qs \<noteq> []"
proof -
  show "m_connection db'"
    using assms by (cases x) (auto simp: addSensorValue_numeric_def addSensorValue_boolean_def addSensorValue_state_def Let_def
        dest: limit_frame(3) split: prod.splits bool.splits)
  have ne: "record_value table mk n v now inserted cache ids = (a, b, c) \<Longrightarrow> c \<noteq> []" for table mk n v cache ids a b c
    using record_value_nonempty [of table mk n v now inserted cache ids] by simp
  show "qs \<noteq> []" if "\<not> limited limit x"
    using that assms by (cases x) (auto simp: addSensorValue_numeric_def addSensorValue_boolean_def addSensorValue_state_def
        checkAndUpdateRateLimit_def Let_def dest: ne split: prod.splits bool.splits)
qed

section \<open>From readings to rows\<close>

text \<open>The samples of the valid readings that have a sensor, with the time of their arrival.\<close>

definition sample_of :: "col_env \<times> ems_value \<Rightarrow> (int \<times> sample) list" where
  "sample_of r = (case r of (env, v) \<Rightarrow>
     if v_isValid v then (case handleValue_sample v of Inr (Some x) \<Rightarrow> [(int (ce_time env), x)] | _ \<Rightarrow> []) else [])"

definition arrivals :: "(col_env \<times> ems_value) list \<Rightarrow> (int \<times> sample) list" where
  "arrivals rs = concat (map sample_of rs)"

lemma stored_after_Inr:
  assumes "stored_after env v (Some db, qs) = (dbo, qs1)"
  shows "\<exists>db1 q. dbo = Some db1 \<and> qs1 = qs @ q
    \<and> (sample_of (env, v) = [] \<and> q = [] \<and> db1 = db
       \<or> (\<exists>x. sample_of (env, v) = [(int (ce_time env), x)] \<and> handleValue_sample v = Inr (Some x) \<and> v_isValid v
           \<and> addSensorValue (ce_rateLimit env) (int (ce_time env)) (ce_inserted env v) x db = (db1, q)))"
  using assms
  by (cases "addSensorValue (ce_rateLimit env) (int (ce_time env)) (ce_inserted env v) (the (projr (handleValue_sample v))) db")
    (auto simp: stored_after_def db_handleValue_def sample_of_def bindR_def split: sum.splits option.splits if_splits)

lemma store_all_grows:
  "store_all rs (Some db, qs) = (dbo, qs') \<Longrightarrow> \<exists>db' q. dbo = Some db' \<and> qs' = qs @ q"
proof (induction rs arbitrary: db qs)
  case (Cons r rs)
  obtain env v where r: "r = (env, v)" by (cases r)
  obtain db1 q where st: "stored_after env v (Some db, qs) = (Some db1, qs @ q)"
    using stored_after_Inr [of env v db qs] by (metis surj_pair)
  then show ?case using Cons r by (fastforce simp: store_all_def)
qed (auto simp: store_all_def)

lemma inserted_fresh:
  assumes "server_ok (qs @ update @ [InsertRow table n v now now inserted])" and "concat (map insert_keys update) = []"
  shows "\<exists>i. inserted = Some i \<and> fresh_id i (update @ [InsertRow table n v now now inserted]) (tables_after qs)"
proof -
  let ?i = "case inserted of None \<Rightarrow> 0 | Some i \<Rightarrow> i"
  have i: "?i \<noteq> 0" "(table, ?i) \<notin> set (concat (map insert_keys qs))"
    using assms(1) by (auto simp: server_ok_def)
  then obtain j where j: "inserted = Some j" by (cases inserted) auto
  have "list_all (\<lambda>r. r_table r = table \<longrightarrow> r_id r \<noteq> j) (tables_after qs)"
    using i(2) j tables_after_keys [of qs] by (auto simp: list_all_iff)
  moreover have "list_all (\<lambda>q. case q of InsertRow t _ _ _ _ _ \<Rightarrow> list_all (\<lambda>r. r_table r = t \<longrightarrow> r_id r \<noteq> j) (tables_after qs)
      | _ \<Rightarrow> True) update"
    using assms(2) by (auto simp: list_all_iff split: query.split)
  ultimately show ?thesis using i j by (simp add: fresh_id_def)
qed

text \<open>One sample: the statements extend the run of the database.\<close>

lemma sample_run:
  assumes "db_run limit tr (db, tables_after qs)" and "m_connection db"
    and "handleValue_sample v = Inr (Some x)" and "v_isValid v"
    and "addSensorValue limit now inserted x db = (db', q)" and "server_ok (qs @ q)" and "\<forall>(t, y) \<in> set tr. t \<le> now"
  shows "\<exists>tr'. db_run limit (tr @ tr') (db', tables_after (qs @ q)) \<and> (tr' = [] \<and> limited limit x \<or> tr' = [(now, x)])"
proof (cases "q = []")
  case True
  then have "db_handleValue limit now inserted v db = Inr (db', [])"
    using assms(3-5) by (simp add: db_handleValue_def)
  from db_ignored [OF assms(1) this] show ?thesis
    using True addSensorValue_connection(2) [OF assms(5,2)] by (intro exI [of _ "[]"]) auto
next
  case False
  have rows: "fold apply_query q (tables_after qs) = tables_after (qs @ q)" by (simp add: tables_after_def)
  obtain i where i: "addSensorValue limit now (Some i) x db = (db', q)" "fresh_id i q (tables_after qs)"
    using addSensorValue_inserted [OF assms(5), of "Some 1"]
  proof (elim disjE exE conjE)
    assume none: "concat (map insert_keys q) = []" and same: "addSensorValue limit now (Some 1) x db = (db', q)"
    have "fresh_id 1 q (tables_after qs)"
      using none by (fastforce simp: fresh_id_def list_all_iff split: query.split)
    then show thesis using same that by blast
  next
    fix update table n w
    assume "q = update @ [InsertRow table n w now now inserted]" "concat (map insert_keys update) = []"
    then show thesis using inserted_fresh [of qs update table n w now inserted] assms(5,6) that by auto
  qed
  then have "db_handleValue limit now (Some i) v db = Inr (db', q)"
    using assms(3,4) by (simp add: db_handleValue_def)
  from db_stored [OF assms(1) this False assms(3) i(2) assms(7)] show ?thesis
    unfolding rows by blast
qed

text \<open>One reading takes the run on by its sample, or by nothing where the rate limit holds it back.\<close>

lemma reading_run:
  assumes st: "stored_after env v (Some db, qs) = (Some db1, qs1)" and ok: "server_ok qs1"
    and run: "db_run (ce_rateLimit env) tr (db, tables_after qs)" and up: "m_connection db"
    and old: "\<forall>(t, y) \<in> set tr. t \<le> int (ce_time env)"
  obtains tr1 where "db_run (ce_rateLimit env) (tr @ tr1) (db1, tables_after qs1)" "m_connection db1"
    "subseq tr1 (sample_of (env, v))" "\<forall>(t, y) \<in> set tr1. t = int (ce_time env)"
    "filter (\<lambda>(t, x). \<not> limited (ce_rateLimit env) x) tr1
      = filter (\<lambda>(t, x). \<not> limited (ce_rateLimit env) x) (sample_of (env, v))"
proof -
  obtain q where qs1: "qs1 = qs @ q"
    and cases: "sample_of (env, v) = [] \<and> q = [] \<and> db1 = db
       \<or> (\<exists>x. sample_of (env, v) = [(int (ce_time env), x)] \<and> handleValue_sample v = Inr (Some x) \<and> v_isValid v
           \<and> addSensorValue (ce_rateLimit env) (int (ce_time env)) (ce_inserted env v) x db = (db1, q))"
    using stored_after_Inr [of env v db qs] st by fastforce
  from cases show ?thesis
  proof (elim disjE exE conjE)
    assume "sample_of (env, v) = []" "q = []" "db1 = db"
    then show thesis using that [of "[]"] run up qs1 by simp
  next
    fix x
    assume x: "sample_of (env, v) = [(int (ce_time env), x)]" "handleValue_sample v = Inr (Some x)" "v_isValid v"
      "addSensorValue (ce_rateLimit env) (int (ce_time env)) (ce_inserted env v) x db = (db1, q)"
    from sample_run [OF run up x(2,3,4) ok [unfolded qs1] old]
    obtain tr1 where "db_run (ce_rateLimit env) (tr @ tr1) (db1, tables_after (qs @ q))"
      "tr1 = [] \<and> limited (ce_rateLimit env) x \<or> tr1 = [(int (ce_time env), x)]" by blast
    then show thesis
      using that [of tr1] addSensorValue_connection(1) [OF x(4) up] x(1) qs1 by auto
  qed
qed

lemma store_run:
  "store_all rs (Some db, qs) = (Some db', qs') \<Longrightarrow> server_ok qs' \<Longrightarrow> db_run limit tr (db, tables_after qs) \<Longrightarrow> m_connection db \<Longrightarrow>
    sorted (map (\<lambda>(env, v). ce_time env) rs) \<Longrightarrow> list_all (\<lambda>(env, v). ce_rateLimit env = limit) rs \<Longrightarrow>
    \<forall>(t, y) \<in> set tr. \<forall>(env, v) \<in> set rs. t \<le> int (ce_time env) \<Longrightarrow>
    \<exists>tr'. db_run limit (tr @ tr') (db', tables_after qs') \<and> subseq tr' (arrivals rs)
      \<and> filter (\<lambda>(t, x). \<not> limited limit x) tr' = filter (\<lambda>(t, x). \<not> limited limit x) (arrivals rs)"
proof (induction rs arbitrary: db qs tr)
  case Nil
  then show ?case by (intro exI [of _ "[]"]) (simp add: store_all_def arrivals_def)
next
  case (Cons r rs)
  obtain env v where r: "r = (env, v)" by (cases r)
  obtain db1 q where st: "stored_after env v (Some db, qs) = (Some db1, qs @ q)"
    using stored_after_Inr [of env v db qs] by (metis surj_pair)
  have rest: "store_all rs (Some db1, qs @ q) = (Some db', qs')"
    using Cons.prems(1) st r by (simp add: store_all_def)
  then obtain more where "qs' = (qs @ q) @ more" using store_all_grows by blast
  then have ok: "server_ok (qs @ q)" using Cons.prems(2) server_ok_append by metis
  have limit: "ce_rateLimit env = limit" and sorted: "\<forall>(env', v') \<in> set rs. ce_time env \<le> ce_time env'"
    using Cons.prems(5,6) r by auto
  have old: "\<forall>(t, y) \<in> set tr. t \<le> int (ce_time env)" using Cons.prems(7) r by auto
  obtain tr1 where tr1: "db_run limit (tr @ tr1) (db1, tables_after (qs @ q))" "m_connection db1"
    "subseq tr1 (sample_of (env, v))" "\<forall>(t, y) \<in> set tr1. t = int (ce_time env)"
    "filter (\<lambda>(t, x). \<not> limited limit x) tr1 = filter (\<lambda>(t, x). \<not> limited limit x) (sample_of (env, v))"
    using reading_run [OF st ok, unfolded limit, OF Cons.prems(3,4) old] by blast
  have "\<forall>(t, y) \<in> set (tr @ tr1). \<forall>(env, v) \<in> set rs. t \<le> int (ce_time env)"
    using Cons.prems(7) tr1(4) sorted r by fastforce
  from Cons.IH [OF rest Cons.prems(2) tr1(1,2) _ _ this] Cons.prems(5,6) obtain tr' where
    "db_run limit ((tr @ tr1) @ tr') (db', tables_after qs')" "subseq tr' (arrivals rs)"
    "filter (\<lambda>(t, x). \<not> limited limit x) tr' = filter (\<lambda>(t, x). \<not> limited limit x) (arrivals rs)" by auto
  then show ?case
    using tr1 r by (intro exI [of _ "tr1 @ tr'"]) (simp add: arrivals_def list_emb_append_mono)
qed

section \<open>Properties\<close>

text \<open>
  C10: from the bus to the tables: while the daemon runs, with whatever clients and restarts, its statements
  leave for every sensor the run-length history of the samples that came from the bus in the order of their
  arrival; no sample of a boolean or state sensor is missing, and none at all when no rate limit is set.
\<close>

theorem daemon_history:
  assumes "getHandler (o_target opts) \<noteq> None" and "o_dbPath opts \<noteq> ''none''"
    and "\<not> o_daemonize opts \<or> daemonized" and "quiet_history (Some io_init) evs"
    and "fold (daemon_step opts clients) evs (main_start (Returns ParseSuccess opts) True daemonized True clients) \<in> {Working c, Waiting c}"
    and "server_ok (col_queries c)" and "sorted (map (\<lambda>(env, v). ce_time env) (readings_of (Some io_init) evs))"
    and "list_all (\<lambda>(env, v). ce_rateLimit env = limit) (readings_of (Some io_init) evs)"
  shows "\<exists>tr. subseq tr (arrivals (readings_of (Some io_init) evs))
    \<and> filter (\<lambda>(t, x). \<not> limited limit x) tr = filter (\<lambda>(t, x). \<not> limited limit x) (arrivals (readings_of (Some io_init) evs))
    \<and> (if samples_of k tr = [] then rows_of k (tables_after (col_queries c)) = []
       else history (rows_of k (tables_after (col_queries c))) (samples_of k tr))"
proof -
  let ?s = "main_start (Returns ParseSuccess opts) True daemonized True clients"
  let ?rs = "readings_of (Some io_init) evs"
  have "main_ok (list_ex is_command evs) (cache_all ?rs RBT.empty) (store_all ?rs (Some (database_init True), []))
      (fold (daemon_step opts clients) evs ?s)"
    using main_run_ok [OF assms(1), of False RBT.empty _ ?s evs clients] assms(2,4)
      main_start_ok [OF assms(1) _ assms(3), of True clients] by simp
  then have "store_all ?rs (Some (database_init True), []) = stored c" using assms(5) by auto
  moreover obtain db' where "stored c = (Some db', col_queries c)"
    using calculation store_all_grows by (metis stored_def prod.inject)
  ultimately have run: "store_all ?rs (Some (database_init True), []) = (Some db', col_queries c)" by simp
  obtain tr where tr: "db_run limit tr (db', tables_after (col_queries c))" "subseq tr (arrivals ?rs)"
    "filter (\<lambda>(t, x). \<not> limited limit x) tr = filter (\<lambda>(t, x). \<not> limited limit x) (arrivals ?rs)"
    using store_run [OF run assms(6), of limit "[]"] db_start [of limit] assms(7,8)
    by (auto simp: tables_after_def database_init_def)
  then show ?thesis using db_run_inv [OF tr(1)] by (intro exI [of _ tr]) (auto simp: sensor_inv_def)
qed

definition history_options_example :: options where
  "history_options_example = daemon_options_example\<lparr>o_dbPath := ''localhost''\<rparr>"

lemma outdoor_sample:
  "\<exists>x. handleValue_sample (numericValue (NumT IstTemp) Aussen [0, 215] 2 10 True (Some INVALID_TEMPERATURE_VALUES)) =
     Inr (Some (NumericSample SensorAussenTemp x))"
proof -
  let ?v = "numericValue (NumT IstTemp) Aussen [0, 215] 2 10 True (Some INVALID_TEMPERATURE_VALUES)"
  obtain f where "v_value ?v = FloatReading f" "v_type ?v = NumT IstTemp" "v_subType ?v = Aussen"
    by (cases "numeric_decode [0, 215] 2 True") (simp add: numericValue_def)
  then show ?thesis
    by (simp add: handleValue_sample_def find_mapping_def NUMERICMAPPING_def)
qed

lemma daemon_history_witness:
  "\<exists>c x. fold (daemon_step history_options_example (\<lambda>_. connection_init idle_parser))
       [Read (col_env_example\<lparr>ce_time := 5\<rparr>) (fst outdoor_pieces),
        Read (col_env_example\<lparr>ce_rateLimit := 0\<rparr>) (snd outdoor_pieces), HandlerClosed]
       (main_start (Returns ParseSuccess history_options_example) True False True (\<lambda>_. connection_init idle_parser))
     \<in> {Working c, Waiting c}
    \<and> history (rows_of (NumericSensor SensorAussenTemp) (tables_after (col_queries c))) [(7, NumericValue x)]"
proof -
  let ?clients = "\<lambda>_. connection_init idle_parser" and ?env = "col_env_example\<lparr>ce_rateLimit := 0\<rparr>"
  let ?v = "numericValue (NumT IstTemp) Aussen [0, 215] 2 10 True (Some INVALID_TEMPERATURE_VALUES)"
  let ?evs = "[Read (col_env_example\<lparr>ce_time := 5\<rparr>) (fst outdoor_pieces), Read ?env (snd outdoor_pieces), HandlerClosed]"
  let ?s = "main_start (Returns ParseSuccess history_options_example) True False True ?clients"
  have opts: "getHandler (o_target history_options_example) \<noteq> None" "o_dbPath history_options_example \<noteq> ''none''"
    "\<not> o_daemonize history_options_example"
    by (simp_all add: getHandler_def starts_with_def daemon_options_example_def history_options_example_def)
  have q: "quiet_history (Some io_init) ?evs" and r: "readings_of (Some io_init) ?evs = [(?env, ?v)]"
    using outdoor_pieces_read by auto
  obtain x where x: "handleValue_sample ?v = Inr (Some (NumericSample SensorAussenTemp x))" using outdoor_sample by blast
  have valid: "v_isValid ?v" by code_simp
  have a: "arrivals [(?env, ?v)] = [(7, NumericSample SensorAussenTemp x)]"
    using x valid by (simp add: arrivals_def sample_of_def col_env_example_def)
  have "main_ok False (cache_all [(?env, ?v)] RBT.empty) (store_all [(?env, ?v)] (Some (database_init True), []))
      (fold (daemon_step history_options_example ?clients) ?evs ?s)"
    using main_run_ok [OF opts(1), of False RBT.empty _ ?s ?evs ?clients] q opts(2,3) r
      main_start_ok [OF opts(1), of True False ?clients] by (simp del: fold_simps readings_of.simps)
  then obtain c where c: "fold (daemon_step history_options_example ?clients) ?evs ?s \<in> {Working c, Waiting c}"
    "stored c = store_all [(?env, ?v)] (Some (database_init True), [])"
    by (cases "fold (daemon_step history_options_example ?clients) ?evs ?s") (auto simp del: fold_simps)
  have "server_ok (col_queries c)"
    using c(2) x valid
    by (simp add: stored_def store_all_def stored_after_def db_handleValue_def addSensorValue_numeric_def
        checkAndUpdateRateLimit_def record_value_def database_init_def col_env_example_def server_ok_def)
  from daemon_history [OF opts(1,2) _ q c(1) this, of 0 "NumericSensor SensorAussenTemp"] opts(3) r obtain tr where
    "filter (\<lambda>(t, x). \<not> limited 0 x) tr = [(7, NumericSample SensorAussenTemp x)]"
    "subseq tr [(7, NumericSample SensorAussenTemp x)]"
    "if samples_of (NumericSensor SensorAussenTemp) tr = [] then rows_of (NumericSensor SensorAussenTemp) (tables_after (col_queries c)) = []
       else history (rows_of (NumericSensor SensorAussenTemp) (tables_after (col_queries c))) (samples_of (NumericSensor SensorAussenTemp) tr)"
    by (auto simp: a simp del: readings_of.simps)
  moreover from this(1,2) have "tr = [(7, NumericSample SensorAussenTemp x)]"
    by (cases tr) (auto split: if_splits)
  ultimately show ?thesis using c(1) by (auto simp: samples_of_def simp del: fold_simps)
qed

end
