(* ===== verification/DaemonSafety.thy ===== *)
theory DaemonSafety
  imports Supervisor
begin

text \<open>
  The ways in which the running daemon (\<open>main.cpp\<close> with \<open>CommandHandler.cpp\<close>) can fail: the invariant of
  the command port (\<open>CommandPort\<close>) is lifted to the loop of \<open>main\<close>, through telegrams that arrive between
  the actions of the clients, and through handlers that are closed and made again.
\<close>

section \<open>Well-behaved surroundings\<close>

text \<open>The command port of a collector, when it has one.\<close>

definition port_of :: "collector \<Rightarrow> port option" where
  "port_of c = (case (col_sender c, col_command c) of
     (Some s, Some h) \<Rightarrow> Some \<lparr>po_handler = h, po_sched = s\<rparr> | _ \<Rightarrow> None)"

text \<open>No client hangs up while something of it is under way.\<close>

fun polite_main :: "main_event \<Rightarrow> main_state \<Rightarrow> bool" where
  "polite_main (Command env e) (Working c) \<longleftrightarrow>
     (case port_of c of None \<Rightarrow> True | Some po \<Rightarrow> loop_event e \<longrightarrow> polite e po)"
| "polite_main e s \<longleftrightarrow> True"

fun polite_history :: "options \<Rightarrow> (nat \<Rightarrow> connection) \<Rightarrow> main_event list \<Rightarrow> main_state \<Rightarrow> bool" where
  "polite_history opts clients [] s \<longleftrightarrow> True"
| "polite_history opts clients (e # evs) s \<longleftrightarrow>
     polite_main e s \<and> polite_history opts clients evs (daemon_step opts clients e s)"

section \<open>The invariant\<close>

text \<open>Without a command port nobody ever asks the scheduler for anything.\<close>

definition port_sound :: "collector \<Rightarrow> bool" where
  "port_sound c \<longleftrightarrow> (case port_of c of None \<Rightarrow> unused c | Some po \<Rightarrow> port_inv po)"

fun main_sound :: "main_state \<Rightarrow> bool" where
  "main_sound (Working c) \<longleftrightarrow> port_sound c"
| "main_sound (Waiting c) \<longleftrightarrow> True"
| "main_sound (Threw f) \<longleftrightarrow> f = RangeErrorThrown"
| "main_sound (Crashed f) \<longleftrightarrow> f = OutOfBounds"
| "main_sound (Exited n) \<longleftrightarrow> False"
| "main_sound Terminated \<longleftrightarrow> False"

definition step_sound :: "collector result \<Rightarrow> bool" where
  "step_sound r \<longleftrightarrow> (case r of Inl f \<Rightarrow> known_fault f | Inr c \<Rightarrow> port_sound c)"

lemma after_event_sound: "step_sound r \<Longrightarrow> main_sound (after_event r)"
  by (auto simp: step_sound_def after_event_def known_fault_def split: sum.splits)

lemma port_sound_cong:
  "col_sender c' = col_sender c \<Longrightarrow> col_command c' = col_command c \<Longrightarrow> port_sound c' = port_sound c"
  using arg_cong2 [of "col_sender c'" "col_sender c" "col_command c'" "col_command c"]
  by (simp add: port_sound_def port_of_def unused_def cong: option.case_cong)

lemma port_eta [simp]: "\<lparr>po_handler = po_handler po, po_sched = po_sched po\<rparr> = po"
  by simp

lemma command_step_sound:
  assumes "port_sound c" and "cache_inv (col_cache c)" and "\<And>po. port_of c = Some po \<Longrightarrow> polite e po"
  shows "step_sound (command_step env e c)"
proof (cases "port_of c")
  case None
  then have "command_step env e c = Inr c"
    by (auto simp: port_of_def command_step_def split: option.splits)
  then show ?thesis using assms(1) by (simp add: step_sound_def)
next
  case (Some po)
  let ?pe = "port_env_of env c"
  have inv: "port_inv po" "polite e po" "cache_inv (pe_cache ?pe)"
    using assms Some by (simp_all add: port_sound_def port_env_of_def)
  have "command_step env e c = bindR (port_step ?pe e po) (\<lambda>(po, out).
      Inr (c\<lparr>col_sender := Some (po_sched po), col_command := Some (po_handler po), col_sent := col_sent c @ out\<rparr>))"
    using Some by (auto simp: command_step_def port_of_def split: option.splits)
  then show ?thesis
    using port_step_fault [OF inv] port_step_inv [OF inv(1,2)]
    by (cases "port_step ?pe e po") (auto simp: step_sound_def port_sound_def port_of_def)
qed

text \<open>Whoever sends it, a telegram for the collector only reaches clients that are connected.\<close>

lemma onPcMessageReceived_sound:
  assumes "port_sound c" and "cache_inv (col_cache c)"
  shows "step_sound (onPcMessageReceived env m c)"
proof (cases "port_of c")
  case None
  then have "unused c" using assms(1) by (simp add: port_sound_def)
  then obtain c' where "onPcMessageReceived env m c = Inr c'" "unused c'"
    using onPcMessageReceived_unused by blast
  moreover from this(1) None have "port_of c' = None"
    by (auto simp: onPcMessageReceived_def port_of_def bindR_Inr_iff split: option.splits)
  ultimately show ?thesis by (simp add: step_sound_def port_sound_def)
next
  case (Some po)
  then have "onPcMessageReceived env m c = command_step env (Bus (PcMessageReceived m)) c"
    by (auto simp: onPcMessageReceived_def port_of_def split: option.splits)
  then show ?thesis using command_step_sound [OF assms] by simp
qed

lemma io_events_sound:
  "list_all good_event es \<Longrightarrow> col_ok c \<Longrightarrow> port_sound c \<Longrightarrow> step_sound (io_events env es c)"
proof (induction env es c rule: io_events.induct)
  case (1 env c)
  then show ?case by (simp add: step_sound_def)
next
  case (2 env vs es c)
  obtain c1 where c1: "handle_values env vs c = Inr c1" "col_ok c1" "col_sender c1 = col_sender c"
    "col_command c1 = col_command c"
    using handle_values_good [of vs c env] "2.prems"(1,2) by auto
  then show ?case using "2.IH" [of c1] "2.prems" port_sound_cong [OF c1(3,4)] by simp
next
  case (3 env m es c)
  have sound: "step_sound (onPcMessageReceived env m c)"
    using onPcMessageReceived_sound "3.prems"(2,3) by (simp add: col_ok_def)
  show ?case
  proof (cases "onPcMessageReceived env m c")
    case (Inl f)
    then show ?thesis using sound by (simp add: step_sound_def)
  next
    case (Inr c1)
    moreover have "col_ok c1" using onPcMessageReceived_frame [OF Inr] "3.prems"(2) by (simp add: col_ok_def)
    ultimately show ?thesis using "3.IH" [of c1] "3.prems"(1) sound by (simp add: step_sound_def)
  qed
qed

lemma read_sound:
  assumes "col_ok c" and "port_sound c" and "rx_bytes (col_io c) bs = Inr (io, es)"
  shows "step_sound (collector_read env bs c)"
proof -
  have "col_ok (c\<lparr>col_io := io\<rparr>)" "port_sound (c\<lparr>col_io := io\<rparr>)"
    using assms(1,2) port_sound_cong [of "c\<lparr>col_io := io\<rparr>" c] by (simp_all add: col_ok_def)
  then show ?thesis
    using io_events_sound [OF rx_bytes_good [OF assms(3)]] assms(3) by (simp add: collector_read_def)
qed

lemma new_handler_sound:
  assumes "new_handler opts True (\<lambda>k. connection_init (memory k)) c = Working c'"
  shows "port_sound c'"
  using assms port_init_inv [of memory]
  by (auto simp: new_handler_def Let_def port_sound_def port_of_def port_init_def unused_def scheduler_init_def
      split: option.splits if_splits)

lemma daemon_step_sound:
  assumes "getHandler (o_target opts) \<noteq> None" and "main_ok used cache st s" and "main_sound s"
    and "quiet_event e (receiver_of s)" and "polite_main e s" and clients: "clients = (\<lambda>k. connection_init (memory k))"
  shows "main_sound (daemon_step opts clients e s)"
proof (cases s)
  case (Working c)
  then have c: "port_sound c" "cache_inv (col_cache c)" using assms(2,3) by (auto simp: col_ok_def)
  show ?thesis
  proof (cases e)
    case (Read env bs)
    then show ?thesis
      using read_sound [of c bs _ _ env] assms(2,4) Working c(1) after_event_sound by (auto split: sum.splits)
  next
    case (Command env e')
    then show ?thesis
      using command_step_sound [OF c, of e' env] assms(5) Working c(1) after_event_sound
      by (cases "loop_event e'"; cases "port_of c") simp_all
  next
    case (DataAccepted outcome k)
    then show ?thesis using Working c(1) port_sound_cong [of "c\<lparr>col_data := d\<rparr>" c for d] by simp
  next
    case (DataWritten outcome k)
    then show ?thesis using Working c(1) port_sound_cong [of "c\<lparr>col_data := d\<rparr>" c for d] by simp
  qed (use assms Working in auto)
next
  case (Waiting c)
  obtain c' where "new_handler opts True clients c = Working c'" using new_handler_parts [OF assms(1)] by blast
  then show ?thesis
    using new_handler_sound [of opts memory c c'] Waiting assms(4) clients by (cases e) simp_all
qed (use assms in \<open>cases e; simp\<close>)+

lemma main_run_sound:
  assumes "getHandler (o_target opts) \<noteq> None" and clients: "clients = (\<lambda>k. connection_init (memory k))"
  shows "main_ok True cache st s \<Longrightarrow> main_sound s \<Longrightarrow> quiet_history (receiver_of s) evs \<Longrightarrow>
    polite_history opts clients evs s \<Longrightarrow> main_sound (fold (daemon_step opts clients) evs s)"
proof (induction evs arbitrary: s cache st)
  case (Cons e evs)
  let ?s = "daemon_step opts clients e s"
  have e: "quiet_event e (receiver_of s)" "quiet_history (receiver_after e (receiver_of s)) evs"
    using Cons.prems(3) by simp_all
  have sound: "main_sound ?s"
    using daemon_step_sound [OF assms(1) Cons.prems(1,2) e(1) _ clients] Cons.prems(4) by simp
  show ?case
  proof (cases "ended s \<or> ended ?s")
    case True
    then show ?thesis using ended_stays ended_step sound by fastforce
  next
    case False
    then have "main_ok True (cache_all (event_readings e (receiver_of s)) cache)
        (store_all (event_readings e (receiver_of s)) st) ?s" "receiver_of ?s = receiver_after e (receiver_of s)"
      using daemon_step_ok [OF assms(1) Cons.prems(1) e(1), of clients] by auto
    then show ?thesis using Cons.IH [OF _ sound] e(2) Cons.prems(4) by simp
  qed
qed simp

text \<open>A read that completes a telegram for the collector, when calling back the current client fails.\<close>

lemma io_events_freed:
  "list_all good_event es \<Longrightarrow> col_ok c \<Longrightarrow> port_of c = Some po \<Longrightarrow> PcMessage m \<in> set es \<Longrightarrow>
   (\<And>pe m. port_step pe (Bus (PcMessageReceived m)) po = Inl UseAfterFree) \<Longrightarrow>
   io_events env es c = Inl UseAfterFree"
proof (induction env es c rule: io_events.induct)
  case (2 env vs es c)
  obtain c1 where c1: "handle_values env vs c = Inr c1" "col_ok c1" "col_sender c1 = col_sender c"
    "col_command c1 = col_command c"
    using handle_values_good [of vs c env] "2.prems"(1,2) by auto
  have "port_of c1 = Some po" using "2.prems"(3) c1(3,4) by (simp add: port_of_def)
  from "2.IH" [OF _ c1(2) this _ "2.prems"(5)] show ?case using "2.prems"(1,4) c1(1) by simp
next
  case (3 env m' es c)
  have "col_sender c = Some (po_sched po)" "col_command c = Some (po_handler po)"
    using "3.prems"(3) by (auto simp: port_of_def split: option.splits)
  then show ?case
    using "3.prems"(5) by (simp add: onPcMessageReceived_def command_step_def del: port_step.simps)
qed simp

section \<open>Properties\<close>


definition sending_options_example :: options where
  "sending_options_example = daemon_options_example\<lparr>o_target := ''tx-serial:/dev/ttyS0'', o_commandPort := 7777\<rparr>"


text \<open>
  C19: a client that hangs up while its request is under way, and to which nothing is being written,
  takes the daemon with it: the next read that completes a telegram for the collector, whichever it is, and the
  expiration of the response timer make the scheduler use the freed connection.
\<close>

theorem hangup_crashes_daemon:
  assumes "port_of c = Some po" and "m_currentClient (po_sched po) = Some k" and "distinct (ch_reading (po_handler po))"
    and "k \<notin> set (ch_writing (po_handler po))" and "ch_accepting (po_handler po) \<noteq> Some k"
    and "m_responseTimeout (po_sched po) = Some (w, deadline)"
    and "col_ok c" and "rx_bytes (col_io c) bs = Inr (io, es)" and "PcMessage m \<in> set es"
  shows "fold (daemon_step opts clients) [Command env (ReadFailed k Failure), Read env' bs] (Working c)
      = Crashed UseAfterFree
    \<and> fold (daemon_step opts clients)
        [Command env (ReadFailed k Failure), Command (env\<lparr>ce_millis := deadline\<rparr>) (Bus ResponseTimerExpired)] (Working c)
      = Crashed UseAfterFree"
proof -
  obtain po' where po': "port_step (port_env_of env c) (ReadFailed k Failure) po = Inr (po', [])"
    "\<And>pe m. port_step pe (Bus (PcMessageReceived m)) po' = Inl UseAfterFree"
    "port_step ((port_env_of env c)\<lparr>pe_now := deadline\<rparr>) (Bus ResponseTimerExpired) po' = Inl UseAfterFree"
    using hangup_uses_freed_connection [OF assms(2-6), of "port_env_of env c"] by blast
  have c: "col_sender c = Some (po_sched po)" "col_command c = Some (po_handler po)"
    using assms(1) by (auto simp: port_of_def split: option.splits)
  let ?c = "c\<lparr>col_sender := Some (po_sched po'), col_command := Some (po_handler po')\<rparr>"
  have hung: "command_step env (ReadFailed k Failure) c = Inr ?c"
    using po'(1) by (simp add: command_step_def c del: port_step.simps)
  have "io_events env' es (?c\<lparr>col_io := io\<rparr>) = Inl UseAfterFree"
    using io_events_freed [OF rx_bytes_good [OF assms(8)] _ _ assms(9) po'(2), of "?c\<lparr>col_io := io\<rparr>"] assms(7)
    by (simp add: col_ok_def port_of_def del: port_step.simps)
  then have "collector_read env' bs ?c = Inl UseAfterFree"
    using assms(8) by (simp add: collector_read_def)
  moreover have "command_step (env\<lparr>ce_millis := deadline\<rparr>) (Bus ResponseTimerExpired) ?c = Inl UseAfterFree"
    using po'(3) by (simp add: command_step_def port_env_of_def del: port_step.simps)
  ultimately show ?thesis using hung by (simp add: after_event_def)
qed

lemma hangup_crashes_daemon_witness:
  "fold (daemon_step sending_options_example (\<lambda>k. connection_init idle_parser))
      [Command col_env_example (AcceptDone Success), Command col_env_example (RequestRead 0 eco_line),
       Command col_env_example (ReadFailed 0 Failure), Command (col_env_example\<lparr>ce_millis := 7200\<rparr>) (Bus ResponseTimerExpired)]
      (main_start (Returns ParseSuccess sending_options_example) False False True (\<lambda>k. connection_init idle_parser))
    = Crashed UseAfterFree"
proof -
  let ?clients = "\<lambda>k::nat. connection_init idle_parser"
  let ?evs = "[Command col_env_example (AcceptDone Success), Command col_env_example (RequestRead 0 eco_line)]"
  let ?s = "main_start (Returns ParseSuccess sending_options_example) False False True ?clients"
  have run: "case fold (daemon_step sending_options_example ?clients) ?evs ?s of
      Working c \<Rightarrow> (case port_of c of None \<Rightarrow> False | Some po \<Rightarrow> m_currentClient (po_sched po) = Some 0
        \<and> ch_reading (po_handler po) = [0] \<and> ch_writing (po_handler po) = [] \<and> ch_accepting (po_handler po) = Some 1
        \<and> m_responseTimeout (po_sched po) = Some (FakeAnswer, 7200) \<and> col_io c = io_init) | _ \<Rightarrow> False"
    by code_simp
  then obtain c po where c: "fold (daemon_step sending_options_example ?clients) ?evs ?s = Working c" "port_of c = Some po"
    "m_currentClient (po_sched po) = Some 0" "ch_reading (po_handler po) = [0]" "ch_writing (po_handler po) = []"
    "ch_accepting (po_handler po) = Some 1" "m_responseTimeout (po_sched po) = Some (FakeAnswer, 7200)"
    "col_io c = io_init"
    by (auto split: main_state.splits option.splits simp del: fold_simps)
  have t: "getHandler (o_target sending_options_example) \<noteq> None" "o_dbPath sending_options_example = ''none''"
    "\<not> o_daemonize sending_options_example" "quiet_history (Some io_init) ?evs"
    by (simp_all add: sending_options_example_def daemon_options_example_def getHandler_def starts_with_def)
  have s: "main_ok False RBT.empty (Some (database_init False), []) ?s" "receiver_of ?s = Some io_init"
    using main_start_ok [OF t(1), of False False ?clients] t(2,3) by simp_all
  then have "col_ok c" using main_run_ok [OF t(1) s(1), of ?evs ?clients] c(1) t(4) by simp
  have d: "rx_sendable [0x10, 0x0b, 0x05, 0, 1]" "\<exists>m. telegram_events [0x10, 0x0b, 0x05, 0, 1] = Inr [Values [], PcMessage m]"
    by (simp_all add: rx_sendable_def telegram_events_def receivedMessage_def handle_def dispatch_def getType_def address_defs)
  then obtain io m where m: "rx_bytes io_init (serial_frame [0x10, 0x0b, 0x05, 0, 1]) = Inr (io, [Values [], PcMessage m])"
    using rx_frame [OF rx_idle_init d(1)] by blast
  show ?thesis
    using hangup_crashes_daemon [OF c(2,3) _ _ _ c(7) \<open>col_ok c\<close>, of "serial_frame [0x10, 0x0b, 0x05, 0, 1]" io
        "[Values [], PcMessage m]" m sending_options_example ?clients col_env_example] c m by simp
qed

end
