(* ===== verification/BusToCache.thy ===== *)
theory BusToCache
  imports Framer DaemonSafety
begin

text \<open>
  The firmware (\<open>src/framer/main.c\<close>) and the daemon (\<open>src/collector/main.cpp\<close>) together: from the characters
  that the microcontroller receives on the bus, through its ring buffer and the serial line, to the value
  cache of the running daemon.
\<close>

section \<open>A stream that is read in pieces\<close>

definition read_event :: "col_env \<times> bytes \<Rightarrow> main_event" where
  "read_event r = Read (fst r) (snd r)"

lemma values_of_append: "values_of (es @ fs) = values_of es @ values_of fs"
  by (simp add: values_of_def)

lemma values_of_concat: "values_of (concat (map ev ds)) = concat (map (\<lambda>d. values_of (ev d)) ds)"
  by (induction ds) (simp_all add: values_of_append)

text \<open>What the daemon makes of the pieces is what the receiver makes of the whole.\<close>

lemma reads_whole:
  "rx_bytes io (concat (map snd reads)) = Inr (io', es) \<Longrightarrow>
     quiet_history (Some io) (map read_event reads)
     \<and> map snd (readings_of (Some io) (map read_event reads)) = values_of es
     \<and> set (map fst (readings_of (Some io) (map read_event reads))) \<subseteq> set (map fst reads)"
proof (induction reads arbitrary: io es)
  case (Cons r reads)
  obtain env bs where r: "r = (env, bs)" by (cases r)
  obtain io1 es1 es2 where 1: "rx_bytes io bs = Inr (io1, es1)" "rx_bytes io1 (concat (map snd reads)) = Inr (io', es2)"
    "es = es1 @ es2"
    using Cons.prems r by (auto simp: serial_link.feed_append bindR_Inr_iff)
  show ?case using Cons.IH [OF 1(2)] 1(1,3) r by (auto simp: read_event_def values_of_append comp_def)
qed simp

text \<open>Reading neither closes a handler nor makes a new one.\<close>

lemma reads_working:
  "\<not> ended (fold (daemon_step opts clients) (map read_event reads) s) \<Longrightarrow>
   is_working (fold (daemon_step opts clients) (map read_event reads) s) = is_working s"
proof (induction reads arbitrary: s)
  case (Cons r reads)
  let ?s = "daemon_step opts clients (read_event r) s"
  have alive: "\<not> ended ?s" using Cons.prems ended_stays [of ?s] by (auto simp del: fold_simps simp: fold_simps(2))
  then have "is_working ?s = is_working s"
    by (cases s) (auto simp: read_event_def after_event_def split: sum.splits if_splits)
  then show ?case using Cons.IH [of ?s] Cons.prems by simp
qed simp

section \<open>Properties\<close>

text \<open>
  C5: from the bus to the cache, through both programs: in every interleaving of the interrupts and the main
  loop of the firmware, when all it has queued is sent and the daemon has read it, in whatever pieces, the
  daemon is still working and its cache holds for every key the last of the readings of some of the telegrams
  that were on the bus with a right checksum, in their order; of all of them when their frames fit into the
  buffer of the firmware together.
\<close>

theorem bus_to_cache:
  assumes run: "framer_run cs out (s, pc)" and sent: "tx_write_pos s = tx_read_pos s"
    and events: "\<And>d. d \<in> set (bus_telegrams cs) \<Longrightarrow> telegram_events d = Inr (ev d)"
    and reads: "concat (map snd reads) = out"
    and target: "getHandler (o_target opts) \<noteq> None" and "o_dbPath opts = ''none'' \<or> connected"
    and "\<not> o_daemonize opts \<or> daemonized"
  shows "\<exists>ds rs c. subseq ds (bus_telegrams cs)
    \<and> (length (frames (bus_telegrams cs)) < TRANSMIT_BUF_SIZE \<longrightarrow> ds = bus_telegrams cs)
    \<and> map snd rs = concat (map (\<lambda>d. values_of (ev d)) ds) \<and> set (map fst rs) \<subseteq> set (map fst reads)
    \<and> fold (daemon_step opts clients) (map read_event reads)
        (main_start (Returns ParseSuccess opts) connected daemonized True clients) = Working c
    \<and> (\<forall>k. RBT.lookup (col_cache c) k =
        (case filter (\<lambda>(env, v). value_key v = k) rs of [] \<Rightarrow> None
         | ps \<Rightarrow> Some \<lparr>ce_timestamp = ce_time (fst (last ps)), ce_value = snd (last ps)\<rparr>))"
proof -
  obtain ds where inv: "run_inv cs out (s, pc) ds" using framer_run_inv [OF run] ..
  obtain io where ds: "subseq ds (bus_telegrams cs)"
    "length (frames (bus_telegrams cs)) < TRANSMIT_BUF_SIZE \<longrightarrow> ds = bus_telegrams cs"
    "rx_bytes io_init out = Inr (io, concat (map ev ds))"
    using sent_telegrams [OF inv sent events] by blast
  let ?rs = "readings_of (Some io_init) (map read_event reads)"
  let ?s = "main_start (Returns ParseSuccess opts) connected daemonized True clients"
  let ?s' = "fold (daemon_step opts clients) (map read_event reads) ?s"
  have whole: "quiet_history (Some io_init) (map read_event reads)"
    "map snd ?rs = concat (map (\<lambda>d. values_of (ev d)) ds)" "set (map fst ?rs) \<subseteq> set (map fst reads)"
    using reads_whole [of io_init reads io "concat (map ev ds)"] ds(3) reads by (simp_all add: values_of_concat)
  note start = main_start_ok [OF target assms(6,7), of clients]
  have "\<not> list_ex is_command (map read_event reads)" by (simp add: list_ex_iff read_event_def)
  then have ok: "main_ok False (cache_all ?rs RBT.empty) (store_all ?rs (Some (database_init (o_dbPath opts \<noteq> ''none'')), [])) ?s'"
    using main_run_ok [OF target, of False RBT.empty _ ?s "map read_event reads" clients] start whole(1) by simp
  then have "\<not> ended ?s'" using main_ok_ended by blast
  then have "is_working ?s'" using reads_working start by (cases ?s) auto
  then obtain c where "?s' = Working c" by (cases ?s') auto
  then show ?thesis
    using ok ds(1,2) whole(2,3)
    by (intro exI [of _ ds] exI [of _ ?rs] exI [of _ c]) (auto simp: cache_all_lookup split: list.split)
qed

lemma bus_to_cache_witness:
  "\<exists>c v. fold (daemon_step daemon_options_example (\<lambda>_. connection_init idle_parser))
       [Read col_env_example (take 4 (serial_frame outdoor_telegram)),
        Read (col_env_example\<lparr>ce_time := 7\<rparr>) (drop 4 (serial_frame outdoor_telegram))]
       (main_start (Returns ParseSuccess daemon_options_example) False False True (\<lambda>_. connection_init idle_parser)) = Working c
    \<and> RBT.lookup (col_cache c) (NumT IstTemp, Aussen) = Some \<lparr>ce_timestamp = 7, ce_value = v\<rparr>"
proof -
  let ?v = "numericValue (NumT IstTemp) Aussen [0, 215] 2 10 True (Some INVALID_TEMPERATURE_VALUES)"
  let ?ev = "\<lambda>d :: bytes. [Values [?v]]"
  let ?reads = "[(col_env_example, take 4 (serial_frame outdoor_telegram)),
    (col_env_example\<lparr>ce_time := 7\<rparr>, drop 4 (serial_frame outdoor_telegram))]"
  let ?clients = "\<lambda>_. connection_init idle_parser"
  obtain s where s: "framer_run outdoor_chars (serial_frame outdoor_telegram) (s, Test)" "tx_write_pos s = tx_read_pos s"
    using outdoor_run by blast
  have d: "telegram_events d = Inr (?ev d)" if "d \<in> set (bus_telegrams outdoor_chars)" for d
    using that outdoor_events by (simp add: outdoor_bus)
  have t: "getHandler (o_target daemon_options_example) \<noteq> None" "o_dbPath daemon_options_example = ''none''"
    "\<not> o_daemonize daemon_options_example"
    by (simp_all add: getHandler_def starts_with_def daemon_options_example_def)
  have fits: "length (frames (bus_telegrams outdoor_chars)) < TRANSMIT_BUF_SIZE"
    by (simp add: outdoor_bus frames_def serial_frame_def outdoor_telegram_def sizes)
  have r: "concat (map snd ?reads) = serial_frame outdoor_telegram" by simp
  obtain ds rs c where ds: "length (frames (bus_telegrams outdoor_chars)) < TRANSMIT_BUF_SIZE \<longrightarrow> ds = bus_telegrams outdoor_chars"
    "map snd rs = concat (map (\<lambda>d. values_of (?ev d)) ds)"
    and c: "set (map fst rs) \<subseteq> set (map fst ?reads)"
    "fold (daemon_step daemon_options_example ?clients) (map read_event ?reads)
       (main_start (Returns ParseSuccess daemon_options_example) False False True ?clients) = Working c"
    "\<forall>k. RBT.lookup (col_cache c) k =
        (case filter (\<lambda>(env, v). value_key v = k) rs of [] \<Rightarrow> None
         | ps \<Rightarrow> Some \<lparr>ce_timestamp = ce_time (fst (last ps)), ce_value = snd (last ps)\<rparr>)"
    using bus_to_cache [OF s d r t(1) disjI1 [OF t(2)] disjI1 [OF t(3)], of ?clients False False] by blast
  have "map snd rs = [?v]" using ds fits by (simp add: outdoor_bus)
  obtain env where "rs = [(env, ?v)]" "ce_time env = 7"
    using c(1) \<open>map snd rs = [?v]\<close> by (cases rs) (auto simp: col_env_example_def)
  then show ?thesis
    using c(2,3) by (auto simp: read_event_def value_key_def simp del: fold_simps)
qed

end
