(* ===== verification/CrcPolynomial.thy ===== *)
theory CrcPolynomial
  imports Framer
begin

text \<open>
  What the checksum of the bus is, in terms of polynomials over the field with two elements: a reference for
  \<open>calc_checksum\<close> (\<open>framer/main.c\<close>).  A polynomial is the number whose bits are its coefficients.
\<close>

unbundle bit_operations_syntax

section \<open>Polynomials over two elements\<close>

fun gf2_mult :: "nat \<Rightarrow> nat \<Rightarrow> nat" where
  "gf2_mult a b = (if a = 0 then 0 else (if odd a then b else 0) XOR push_bit 1 (gf2_mult (a div 2) b))"

declare gf2_mult.simps [simp del]

text \<open>The bytes of a telegram are its coefficients: byte by byte, not bit by bit.\<close>

fun telegram_poly :: "bytes \<Rightarrow> nat" where
  "telegram_poly [] = 0"
| "telegram_poly (b # bs) = push_bit (length bs) (unat b) XOR telegram_poly bs"

text \<open>\<open>x ^ 8 + x ^ 4 + x ^ 3 + 1\<close>\<close>

definition generator :: nat where
  "generator = 0x119"

lemma xor_cancel [simp]: "a XOR (a XOR b) = b" for a :: nat
  by (simp flip: xor.assoc)

lemma gf2_mult_0 [simp]: "gf2_mult 0 b = 0"
  by (simp add: gf2_mult.simps)

lemma gf2_mult_double: "gf2_mult (2 * a) b = push_bit 1 (gf2_mult a b)"
  by (cases "a = 0") (simp_all add: gf2_mult.simps [of "2 * a"])

lemma gf2_mult_double_Suc: "gf2_mult (Suc (2 * a)) b = b XOR push_bit 1 (gf2_mult a b)"
  by (simp add: gf2_mult.simps [of "Suc (2 * a)"])

lemma xor_div_2: "(a XOR b) div 2 = a div 2 XOR b div (2::nat)"
  by (metis drop_bit_Suc drop_bit_xor drop_bit_0 One_nat_def id_apply)

lemma gf2_mult_unfold: "gf2_mult a c = (if odd a then c else 0) XOR push_bit 1 (gf2_mult (a div 2) c)"
  by (cases "a = 0") (simp_all add: gf2_mult.simps [of a])

lemma gf2_mult_xor: "gf2_mult (a XOR b) c = gf2_mult a c XOR gf2_mult b c"
proof (induction a arbitrary: b rule: less_induct)
  case (less a)
  show ?case
  proof (cases "a = 0")
    case False
    then have "gf2_mult (a div 2 XOR b div 2) c = gf2_mult (a div 2) c XOR gf2_mult (b div 2) c"
      by (intro less) simp
    then show ?thesis
      unfolding gf2_mult_unfold [of "a XOR b"] gf2_mult_unfold [of a] gf2_mult_unfold [of b] xor_div_2
      by (auto simp: push_bit_xor even_xor_iff ac_simps)
  qed simp
qed

text \<open>A multiple of the generator is zero or has at least its degree.\<close>

lemma multiple_degree: "a \<noteq> 0 \<Longrightarrow> 256 \<le> gf2_mult a generator"
proof (induction a rule: less_induct)
  case (less a)
  show ?case
  proof (cases "a div 2 = 0")
    case True
    then have "a = 1" using less.prems by simp
    then show ?thesis by (simp add: gf2_mult.simps [of "Suc 0"] generator_def)
  next
    case False
    then have "256 \<le> gf2_mult (a div 2) generator" by (intro less.IH) simp_all
    then have "drop_bit 9 (gf2_mult a generator) \<noteq> 0"
      by (simp add: gf2_mult_unfold [of a] generator_def drop_bit_xor drop_bit_push_bit)
        (simp add: drop_bit_eq_div div_greater_zero_iff)
    then show ?thesis by (simp add: drop_bit_eq_div)
  qed
qed

section \<open>The checksum as a remainder\<close>

lemma generator_bits: "bit generator n \<longleftrightarrow> n = 0 \<or> n = 3 \<or> n = 4 \<or> n = 8"
proof (cases "n < 9")
  case True
  have "list_all (\<lambda>k. bit generator k = (k = 0 \<or> k = 3 \<or> k = 4 \<or> k = 8)) [0..<9]" by code_simp
  then show ?thesis using True unfolding list_all_iff by fastforce
next
  case False
  have "take_bit 9 generator = generator" by (simp add: generator_def take_bit_nat_eq_self)
  then show ?thesis using False bit_take_bit_iff [of 9 generator n] by simp
qed

lemma crc_step_poly:
  "unat (crc_step c b) = push_bit 1 (unat c) XOR (if bit c 7 then generator else 0) XOR unat b"
proof (rule bit_eqI)
  fix n :: nat
  have short: "bit w m \<longleftrightarrow> m < 8 \<and> bit w m" for w :: u8 and m
    using bit_imp_le_length [of w m] by auto
  consider "n = 0 \<or> n = 1 \<or> n = 2 \<or> n = 3 \<or> n = 4 \<or> n = 5 \<or> n = 6 \<or> n = 7" | "n = 8" | "8 < n"
    by linarith
  then have "(n < 8 \<and> bit (crc_step c b) n) =
      (((1 \<le> n \<and> n - 1 < 8 \<and> bit c (n - 1)) \<noteq> (bit c 7 \<and> bit generator n)) \<noteq> (n < 8 \<and> bit b n))"
    by cases (auto simp: crc_step_bits [simplified] generator_bits)
  then show "bit (unat (crc_step c b)) n = bit (push_bit 1 (unat c) XOR (if bit c 7 then generator else 0) XOR unat b) n"
    unfolding bit_xor_iff bit_push_bit_iff_nat bit_unsigned_iff
    using short [of "crc_step c b" n] short [of c "n - 1"] short [of b n] by (cases "bit c 7"; simp; blast)
qed

lemma telegram_poly_snoc: "telegram_poly (d @ [b]) = push_bit 1 (telegram_poly d) XOR unat b"
  by (induction d) (simp_all add: push_bit_xor ac_simps)

lemma crc_remainder: "\<exists>q. telegram_poly d = gf2_mult q generator XOR unat (crc d)"
proof (induction d rule: rev_induct)
  case Nil
  then show ?case by (intro exI [of _ 0]) (simp add: crc_def)
next
  case (snoc b d)
  then obtain q where q: "telegram_poly d = gf2_mult q generator XOR unat (crc d)" ..
  have step: "unat (crc (d @ [b])) = push_bit 1 (unat (crc d)) XOR (if bit (crc d) 7 then generator else 0) XOR unat b"
    by (simp add: crc_append crc_step_poly)
  show ?case
  proof (cases "bit (crc d) 7")
    case True
    then show ?thesis
      unfolding telegram_poly_snoc q step
      by (intro exI [of _ "Suc (2 * q)"]) (simp only: gf2_mult_double_Suc push_bit_xor if_True xor.assoc xor.commute xor.left_commute xor_cancel)
  next
    case False
    then show ?thesis
      unfolding telegram_poly_snoc q step
      by (intro exI [of _ "2 * q"])
        (simp only: gf2_mult_double push_bit_xor if_False xor.assoc xor.commute xor.left_commute xor.right_neutral xor.left_neutral)
  qed
qed

text \<open>Division by the generator has one remainder.\<close>

lemma remainder_unique:
  assumes "gf2_mult q generator XOR r = gf2_mult q' generator XOR r'" and "r < 256" and "r' < 256"
  shows "r = r'"
proof -
  have "gf2_mult (q XOR q') generator = r XOR r'"
    using assms(1) unfolding gf2_mult_xor by (metis xor_cancel xor.commute xor.left_commute)
  moreover have "r XOR r' < 2 ^ 8"
    unfolding take_bit_nat_eq_self_iff [symmetric] take_bit_xor using assms(2,3) by (simp add: take_bit_nat_eq_self)
  ultimately have "q XOR q' = 0" using multiple_degree [of "q XOR q'"] by fastforce
  then show ?thesis using \<open>gf2_mult (q XOR q') generator = r XOR r'\<close> by (metis gf2_mult_0 xor_cancel xor.right_neutral)
qed

section \<open>Properties\<close>

text \<open>
  C39: the checksum of the bus is a polynomial remainder: with the bytes of a telegram as coefficients over the
  field with two elements, \<open>calc_checksum\<close> computes the one remainder of degree below 8 that the division by
  \<open>x ^ 8 + x ^ 4 + x ^ 3 + 1\<close> leaves.
\<close>

theorem crc_is_remainder:
  "(r < 256 \<and> (\<exists>q. telegram_poly (take (unat len) buffer) = gf2_mult q generator XOR r))
     \<longleftrightarrow> r = unat (calc_checksum buffer len)"
  using crc_remainder [of "take (unat len) buffer"] remainder_unique unsigned_less [of "calc_checksum buffer len"]
  by (auto simp: crc_def calc_checksum_def)

text \<open>
  the weight of a byte is that of the next one times x, not times \<open>x ^ 8\<close>, so the checksum misses every error
  that flips a bit of one byte and the next higher bit of the byte behind it.
\<close>

theorem crc_misses_shifted_pair:
  assumes "\<not> bit e 7"
  shows "crc (as @ (x XOR e) # (y XOR push_bit 1 e) # bs) = crc (as @ x # y # bs)"
proof -
  have twice: "unat (push_bit 1 e) = push_bit 1 (unat e)"
  proof (rule bit_eqI)
    fix n
    show "bit (unat (push_bit 1 e)) n = bit (push_bit 1 (unat e)) n"
      unfolding bit_unsigned_iff bit_push_bit_iff_nat bit_push_bit_iff
      using assms bit_imp_le_length [of e "n - 1"] by (cases "n = 8") (auto simp: possible_bit_def)
  qed
  have first: "crc_step c (x XOR e) = crc_step c x XOR e" for c
    by (simp add: word_unat_eq_iff crc_step_poly unsigned_xor_eq xor.assoc)
  have second: "crc_step (c XOR e) (y XOR push_bit 1 e) = crc_step c y" for c
    unfolding word_unat_eq_iff crc_step_poly unsigned_xor_eq twice push_bit_xor bit_xor_iff
    using assms by (simp only: simp_thms xor.assoc xor.commute xor.left_commute xor_cancel)
  show ?thesis by (simp only: crc_append fold_simps first second)
qed

end
