(* ===== verification/Spec2Isabelle.thy ===== *)
theory Spec2Isabelle
  imports Framer FaultLists SetPoints SetClock TcpLink SerialLink RequestOrder StrayAnswer Schema PidFile
    DebugOutput Gateway DaemonHistory BusToCache CrcPolynomial
begin

text \<open>
  A verification library for the EMS collector: a daemon (\<open>src/collector\<close>, C++) that listens on the EMS
  bus of a Bosch or Buderus heating system, decodes the telegrams into readings, stores and publishes
  them and sends commands back, and the firmware of the bus interface (\<open>src/framer/main.c\<close>, C).

  \<^bold>\<open>The program.\<close>  The firmware takes telegrams from the bus, checks their CRC and sends them as frames
  (\<open>0xaa 0x55 length payload xor\<close>) over a serial line.  \<open>main\<close> parses the options and creates one handler
  after the other (serial port or network gateway), each a receiver \<open>IoHandler\<close> that finds the frames in
  what it reads.  A frame becomes an \<open>EmsMessage\<close>, whose parsers make \<open>EmsValue\<close> readings of it; each
  reading goes to the debug output, the \<open>Database\<close>, the \<open>ValueCache\<close>, the \<open>MqttAdapter\<close> and the live
  connections of the \<open>DataHandler\<close>, in this order, and a telegram for the collector itself goes to the
  scheduler \<open>EmsCommandSender\<close>, which hands it to the client whose request is under way.  Clients are the
  connections of the \<open>CommandHandler\<close> and the broker; both let an \<open>ApiCommandParser\<close> turn lines of text
  into telegrams and answers back into text.

  \<^bold>\<open>The theories\<close>, with the code they model.
  \<^item> \<open>Prelude\<close>: bytes, faults and results (\<open>Inl\<close> is an exception or an access out of bounds), decimal and
    hexadecimal text.  \<open>Float32\<close>: binary32 numbers with their rounding and their text, for the readings
    and set points that the code keeps as \<open>float\<close>.  \<open>KeyedStore\<close>: the interface of the ordered maps.
  \<^item> \<open>EmsTypes\<close>, \<open>EmsProto\<close>, \<open>EmsValue\<close>, \<open>EmsMessage\<close> (\<open>EmsMessage.h\<close>, \<open>EmsMessage.cpp\<close>, \<open>ByteOrder.h\<close>): types of
    readings, packed records, the variant of a reading, and telegrams with every parser.
  \<^item> \<open>IoHandler\<close> (\<open>IoHandler.cpp\<close>, the writers of \<open>SendingSerialHandler.cpp\<close> and \<open>TcpHandler.cpp\<close>): the receiver
    as a function of bytes, and the frames written.  \<open>TcpLink\<close> (\<open>TcpHandler.cpp\<close>): connecting, reading and
    the watchdog, as a step relation with times.  \<open>SerialLink\<close> (\<open>SerialHandler.cpp\<close>): opening, reading and
    closing a serial port.  \<open>DebugOutput\<close>: what the \<open>io\<close> and \<open>message\<close> debug streams print, and where.
  \<^item> \<open>Framer\<close> (\<open>src/framer/main.c\<close>): the receive interrupt, the ring buffer with 8-bit positions, and the main
    loop in three atomic parts with interrupts between them.  \<open>CrcPolynomial\<close>: its checksum as the remainder of
    a division of polynomials.
  \<^item> \<open>ValueApi\<close> (\<open>ValueApi.cpp\<close>), \<open>Descriptive\<close> (\<open>IoHandler::printDescriptive\<close>), \<open>RecordText\<close> (the record
    texts of \<open>ApiCommandParser.cpp\<close>): names and text of readings and records.
  \<^item> \<open>ValueCache\<close> (\<open>ValueCache.cpp\<close>), \<open>Database\<close> (\<open>Database.cpp\<close>), \<open>DataHandler\<close> (\<open>DataHandler.cpp\<close>),
    \<open>MqttAdapter\<close> (\<open>MqttAdapter.cpp\<close>): the consumers of readings.
  \<^item> \<open>IStream\<close>, \<open>Utf\<close>: what the parser uses of \<open>std::istream\<close> and of the conversion between UTF-8 and UTF-16.
    \<open>ApiCommandParser\<close>, \<open>ApiCommands\<close> (\<open>ApiCommandParser.cpp\<close>): requests and answers, and the commands.
    \<open>FaultLists\<close>, \<open>SetPoints\<close>, \<open>SetClock\<close>, \<open>CommandSafety\<close>: what holds of them.
  \<^item> \<open>CommandScheduler\<close> (\<open>CommandScheduler.cpp\<close>): the queue of requests with its timers; \<open>RequestOrder\<close>: that it
    is a server of a first-in-first-out queue.  \<open>CommandHandler\<close>, \<open>CommandPort\<close> (\<open>CommandHandler.cpp\<close>,
    \<open>CommandHandler.h\<close>): one connection of the command port, and the port with its acceptor, the operations
    under way on its sockets, the scheduler, and the life time of the connection objects;
    \<open>CommandService\<close>: what a client of the port experiences; \<open>StrayAnswer\<close>: what an unexpected telegram does
    to it.
  \<^item> \<open>Schema\<close> (\<open>Database::connect\<close>, \<open>createTables\<close>) and \<open>PidFile\<close> (\<open>PidFile.cpp\<close>): the set-up of the database and the lock
    file, as statements and calls of which any may fail.
  \<^item> \<open>Collector\<close> (\<open>IoHandler::handleValue\<close>, \<open>main.cpp\<close>), \<open>Options\<close> (\<open>Options.cpp\<close>), \<open>Supervisor\<close> (\<open>main.cpp\<close>): the
    path of a reading through all consumers, the options, and the main loop, which runs the events of one
    handler with its ports after the other.  \<open>Gateway\<close>: a request on its whole way from the client to the
    device and back; \<open>DaemonHistory\<close>: the way of the readings from the bus to the rows of the database;
    \<open>DaemonSafety\<close>: the ways in which the running daemon can fail; \<open>BusToCache\<close>: firmware and daemon together.

  \<^bold>\<open>Conventions.\<close>  Structs and classes are records with the names of their members, enumerations are
  datatypes, bytes and other fixed-width integers are words, \<open>std::map\<close> is a red-black tree over the order
  of its key (\<open>linorder\<close> and \<open>equal\<close> instances for the types of readings), \<open>std::set\<close> of connections a list of
  their numbers, strings are lists of characters holding the bytes of the source (UTF-8).  An operation of
  an object takes and returns its record; what it does to the outside is a list of effects (telegrams
  sent, lines written, statements executed, messages published), and what the outside decides (clocks,
  outcomes of socket operations, insert ids, uninitialised bytes, which files open) is an argument.
  Handlers of the event loop are functions, and their interleaving is a list of events or an inductive
  relation (\<open>framer_run\<close>, \<open>tcp_run\<close>, the reachable states of the scheduler, \<open>serial_run\<close>, \<open>port_run\<close>, \<open>db_run\<close>).  All recursion is
  total; loops of the code that end by a measure are \<open>function\<close>s with that measure, and no fuel is used.
  Interfaces are locales, each interpreted on the code's model in the theory that provides it:
  \<open>wire_record\<close> and its extension \<open>record_list\<close> for packed records, \<open>frame_link\<close> for the receiver, \<open>byte_queue\<close>
  for the ring buffer, the keyed store for cache and database, the clients of the scheduler, and
  \<open>fifo_server\<close> for the scheduler itself.

  \<^bold>\<open>What the theorems show.\<close>
  From the bus to the collector: the checksum of the bus is the remainder modulo \<open>x^8 + x^4 + x^3 + 1\<close> of the
  telegram as a polynomial over two elements, and detects every change of one byte; the firmware's
  ring buffer refines a queue of frames that drops what does not fit and never sends a part of a frame;
  in every interleaving the collector reads exactly the telegrams that were queued; the receiver accepts
  only frames with a right checksum and delivers all good ones, for any cutting of the stream; through
  both programs, whatever telegrams the firmware queues end up in the cache of the daemon.  Telegrams
  decode without an access out of bounds, except where the condition is stated exactly
  (\<open>monitor_fault_iff\<close>), and every reading holds the kind of value that its type stands for, so that no
  consumer can fail on it.  A telegram reaches every consumer; \<open>cache fetch\<close> prints it; whatever clients
  do, and across restarts, the cache holds the last reading of every key; a raw read goes to the device and
  comes back complete; the tables hold the run-length history of what
  came from the bus, and the rate limit is respected.  Commands: nothing but known settings within their documented ranges is
  written, half degrees are exact, refused commands have no effect, reads and fault histories are complete
  however the device cuts its answers.  The time that is set is the
  time that is read back.  The scheduler never stalls, starts the requests of all clients in the order in
  which they came and keeps the distance between telegrams; a client that writes on an idle port reads
  \<open>OK\<close> after two tenths of a second, and one whose device is silent \<open>ERRTIMEOUT\<close> after five tries; as long as
  no client hangs up during its request, the port uses no connection that is gone, and the daemon, as long as the
  telegrams it reads among whatever bytes decode, keeps running or ends with one of two known faults.  A silent gateway is
  noticed after two minutes, and a serial handler reads until it is closed.

  The library also proves where the code does not do what it means to: a zero length byte blocks the
  receiver and the watchdog does not help; the made-up answer to a write continues the queue twice, so that
  a client is never answered; \<open>hk2\<close> to \<open>hk4\<close> act on the first heating circuit; a listing of the cache
  swallows the requests behind it; the list of active faults repeats itself when it comes in two telegrams;
  a contact text that is not UTF-8 ends the daemon; switching the test mode off too early does not work; a
  message to the parent of the control topics, or an answer after the broker was lost, ends the daemon;
  tables missing after a failed first start are never created; a running daemon does not hold the lock
  of its pid file; a client that hangs up during its request leaves the scheduler with a pointer to a freed
  connection, with which the daemon crashes at the next telegram or timer; the checksum of the bus misses
  certain pairs of wrong bits; a telegram that does not answer the request under way strands its client; some commands are confirmed twice; a year outside of 2000 to 2127 is sent as another one; the
  debug lines of composed telegrams are printed with debugging off; and an unplugged serial device ends the
  daemon instead of being retried.

  \<^bold>\<open>Bounds.\<close>  The text of set points is checked for the 64 half degrees from 0 to 31.5 by evaluation;
  every other statement is for all inputs.  Counters of type \<open>size_t\<close> and times are natural numbers; \<open>float\<close>
  has neither infinities nor NaN, which no operation here produces from the bounded integers it starts
  with.

  \<^bold>\<open>Not modelled\<close>, because there is no logic in it beyond the calls: the event loop, sockets, resolver and
  serial port of \<open>boost::asio\<close> (their outcomes are inputs), the MySQL client and the columns of the tables,
  the MQTT client (in the composed daemon the broker stays unconnected; \<open>MqttAdapter\<close> is about the adapter by
  itself), the reading of the command line by \<open>boost::program_options\<close> (the options declared for it
  are in \<open>Options\<close>), the register set-up, the hardware timers and the watchdog of the microcontroller, and
  the graphs and web page (Python, PHP) that read the database.
\<close>

end
